(* ===== verification/Prelude.thy ===== *)
theory Prelude
  imports Main "HOL-Library.Sublist" "HOL-Library.Word" "HOL-Library.List_Lexorder"
begin

text \<open>
  What every component shares: the fact collections of the development, the byte and text
  types, and general lemmas on lists, options and folds. Nothing here models a line of the
  repository.
\<close>

subsection \<open>Fact collections\<close>

named_theorems str_simps \<open>equations of the string operations\<close>
named_theorems table_simps \<open>selection, insertion and update of database tables\<close>

subsection \<open>Types\<close>

text \<open>A \<open>u8\<close> is an 8-bit word; a \<open>Result<T, E>\<close> is the sum \<open>'e + 'a\<close>, \<open>Inl\<close> the error.\<close>

type_synonym byte = "8 word"
type_synonym u32 = "32 word"
type_synonym u64 = "64 word"
type_synonym path = "int list list"

abbreviation is_ok :: "'e + 'a \<Rightarrow> bool" where
  "is_ok r \<equiv> \<not> isl r"

subsection \<open>Lists\<close>

lemma list_all_takeWhile [simp]: "list_all P (takeWhile P xs)"
  by (induction xs) auto

lemma dropWhile_idem [simp]: "dropWhile P (dropWhile P xs) = dropWhile P xs"
  by (induction xs) auto

lemma dropWhile_hd: "dropWhile P xs = y # ys \<Longrightarrow> \<not> P y"
  by (induction xs) (auto split: if_splits)

lemma suffix_dropWhile [simp]: "suffix (dropWhile P xs) xs"
  by (rule suffixI [of _ "takeWhile P xs"]) simp

lemma sublist_Cons_iff:
  "p \<noteq> [] \<Longrightarrow> sublist p (c # s) \<longleftrightarrow> prefix p (c # s) \<or> sublist p s"
  by (cases p) (auto simp: sublist_Cons_right)

lemma foldl_cong_state:
  "(\<And>x. x \<in> set xs \<Longrightarrow> (\<And>s. f s x = g s x)) \<Longrightarrow> foldl f s xs = foldl g s xs"
  by (induction xs arbitrary: s) auto

text \<open>An invariant of a fold: kept by every step, it holds at the end.\<close>

lemma foldl_invariant:
  assumes "I s" and "\<And>s x. I s \<Longrightarrow> x \<in> set xs \<Longrightarrow> I (f s x)"
  shows "I (foldl f s xs)"
  using assms by (induction xs arbitrary: s) auto

text \<open>First occurrences in order, as a Rust \<open>if !v.contains(x) { v.push(x) }\<close> keeps them.\<close>

definition push_new :: "'a list \<Rightarrow> 'a \<Rightarrow> 'a list" where
  "push_new xs x = (if x \<in> set xs then xs else xs @ [x])"

lemma set_push_new [simp]: "set (push_new xs x) = insert x (set xs)"
  by (auto simp: push_new_def)

lemma distinct_push_new [simp]: "distinct xs \<Longrightarrow> distinct (push_new xs x)"
  by (auto simp: push_new_def)

subsection \<open>Descending sort keys\<close>

text \<open>\<open>ORDER BY k DESC\<close>: the key type with its order turned round.\<close>

datatype 'a desc = Desc (undesc: 'a)

instantiation desc :: (linorder) linorder
begin

definition less_eq_desc :: "'a desc \<Rightarrow> 'a desc \<Rightarrow> bool" where
  "less_eq_desc x y \<longleftrightarrow> undesc y \<le> undesc x"

definition less_desc :: "'a desc \<Rightarrow> 'a desc \<Rightarrow> bool" where
  "less_desc x y \<longleftrightarrow> undesc y < undesc x"

instance
  by standard (auto simp: less_eq_desc_def less_desc_def desc.expand)

end

lemma Desc_le [simp]: "Desc x \<le> Desc y \<longleftrightarrow> y \<le> x"
  by (simp add: less_eq_desc_def)

lemma Desc_less [simp]: "Desc x < Desc y \<longleftrightarrow> y < x"
  by (simp add: less_desc_def)

end
