(* ===== verification/Rust_Str.thy ===== *)
theory Rust_Str
  imports Prelude
begin

text \<open>
  Rust's \<open>str\<close> and the methods of it that the source calls. A string is the list of its
  Unicode scalar values (a \<open>char\<close> as \<open>c as u32\<close>), an \<open>int\<close> each, so that character
  predicates are exact; the byte length of a string is \<open>str_len\<close>, which sums the UTF-8
  widths. A literal is written \<open>lit ''...''\<close>. A search that Rust gives as a byte offset and
  then slices with is given here as the two halves around the occurrence.
\<close>

type_synonym uchar = int
type_synonym ustr = "uchar list"

definition lit :: "string \<Rightarrow> ustr" where
  "lit cs = map of_char cs"

lemma lit_append [simp]: "lit (a @ b) = lit a @ lit b"
  by (simp add: lit_def)

lemma lit_Nil [simp]: "lit [] = []"
  by (simp add: lit_def)

lemma lit_Cons [simp]: "lit (c # cs) = of_char c # lit cs"
  by (simp add: lit_def)

subsection \<open>Characters\<close>

text \<open>\<open>char::is_whitespace\<close>: the Unicode property \<open>White_Space\<close>.\<close>

definition is_ws :: "uchar \<Rightarrow> bool" where
  "is_ws c \<longleftrightarrow> 9 \<le> c \<and> c \<le> 13 \<or> c = 32 \<or> c = 133 \<or> c = 160 \<or> c = 5760
     \<or> 8192 \<le> c \<and> c \<le> 8202 \<or> c = 8232 \<or> c = 8233 \<or> c = 8239 \<or> c = 8287 \<or> c = 12288"

definition is_ascii_digit :: "uchar \<Rightarrow> bool" where
  "is_ascii_digit c \<longleftrightarrow> 48 \<le> c \<and> c \<le> 57"

definition is_ascii_hexdigit :: "uchar \<Rightarrow> bool" where
  "is_ascii_hexdigit c \<longleftrightarrow> is_ascii_digit c \<or> 65 \<le> c \<and> c \<le> 70 \<or> 97 \<le> c \<and> c \<le> 102"

definition ascii_lower :: "uchar \<Rightarrow> uchar" where
  "ascii_lower c = (if 65 \<le> c \<and> c \<le> 90 then c + 32 else c)"

text \<open>\<open>eq_ignore_ascii_case\<close>.\<close>

definition eq_ignore_case :: "ustr \<Rightarrow> ustr \<Rightarrow> bool" where
  "eq_ignore_case a b \<longleftrightarrow> map ascii_lower a = map ascii_lower b"

text \<open>A scalar value: what a Rust \<open>char\<close> may hold.\<close>

definition scalar :: "uchar \<Rightarrow> bool" where
  "scalar c \<longleftrightarrow> 0 \<le> c \<and> c < 55296 \<or> 57344 \<le> c \<and> c < 1114112"

definition utf8_width :: "uchar \<Rightarrow> nat" where
  "utf8_width c = (if c < 128 then 1 else if c < 2048 then 2 else if c < 65536 then 3 else 4)"

definition str_len :: "ustr \<Rightarrow> nat" where
  "str_len s = sum_list (map utf8_width s)"

lemma str_len_append [simp]: "str_len (a @ b) = str_len a + str_len b"
  by (simp add: str_len_def)

lemma hexdigit_ascii: "is_ascii_hexdigit c \<Longrightarrow> 48 \<le> c \<and> c < 103"
  by (auto simp: is_ascii_hexdigit_def is_ascii_digit_def)

lemma str_len_hex: "list_all is_ascii_hexdigit s \<Longrightarrow> str_len s = length s"
  by (induction s) (auto simp: str_len_def utf8_width_def dest: hexdigit_ascii)

lemma digit_not_ws: "is_ascii_digit c \<Longrightarrow> \<not> is_ws c"
  by (auto simp: is_ascii_digit_def is_ws_def)

subsection \<open>Trimming\<close>

definition trim_start :: "ustr \<Rightarrow> ustr" where
  "trim_start s = dropWhile is_ws s"

definition trim_end_by :: "(uchar \<Rightarrow> bool) \<Rightarrow> ustr \<Rightarrow> ustr" where
  "trim_end_by P s = rev (dropWhile P (rev s))"

definition trim_end :: "ustr \<Rightarrow> ustr" where
  "trim_end s = trim_end_by is_ws s"

definition trim :: "ustr \<Rightarrow> ustr" where
  "trim s = trim_end (trim_start s)"

definition trim_matches :: "(uchar \<Rightarrow> bool) \<Rightarrow> ustr \<Rightarrow> ustr" where
  "trim_matches P s = trim_end_by P (dropWhile P s)"

text \<open>\<open>trim_start_matches(p)\<close> for a string pattern: the pattern is removed as often as it leads.\<close>

function trim_start_matches :: "ustr \<Rightarrow> ustr \<Rightarrow> ustr" where
  "trim_start_matches p s =
     (if p \<noteq> [] \<and> prefix p s then trim_start_matches p (drop (length p) s) else s)"
  by pat_completeness auto
termination
  by (relation "measure (\<lambda>(p, s). length s)") (auto simp: prefix_def)

declare trim_start_matches.simps [simp del]

lemma prefix_trim_end_by: "prefix (trim_end_by P s) s"
  by (metis suffix_dropWhile suffix_to_prefix rev_rev_ident trim_end_by_def)

lemma length_trim_end [simp]: "length (trim_end s) \<le> length s"
  by (simp add: trim_end_def trim_end_by_def length_dropWhile_le [of is_ws "rev s", simplified])

lemma trim_end_by_idem [simp]: "trim_end_by P (trim_end_by P s) = trim_end_by P s"
  by (simp add: trim_end_by_def)

lemma trim_end_idem [simp]: "trim_end (trim_end s) = trim_end s"
  by (simp add: trim_end_def)

lemma trim_end_by_last: "trim_end_by P s \<noteq> [] \<Longrightarrow> \<not> P (last (trim_end_by P s))"
proof -
  assume "trim_end_by P s \<noteq> []"
  then obtain y ys where "dropWhile P (rev s) = y # ys"
    by (cases "dropWhile P (rev s)") (auto simp: trim_end_by_def)
  then show ?thesis using dropWhile_hd [of P "rev s"] by (simp add: trim_end_by_def)
qed

lemma trim_end_by_same: "s = [] \<or> \<not> P (last s) \<Longrightarrow> trim_end_by P s = s"
  by (cases s rule: rev_cases) (auto simp: trim_end_by_def)

lemma trim_end_by_Cons:
  "\<not> P c \<Longrightarrow> trim_end_by P (c # s) = c # trim_end_by P s"
  by (simp add: trim_end_by_def dropWhile_append)

lemma trim_end_by_append:
  "trim_end_by P (a @ b) = (if list_all P b then trim_end_by P a else a @ trim_end_by P b)"
  by (auto simp: trim_end_by_def dropWhile_append list_all_iff)

lemma trim_matches_idem [simp]: "trim_matches P (trim_matches P s) = trim_matches P s"
proof (cases "dropWhile P s")
  case Nil
  then show ?thesis by (simp add: trim_matches_def trim_end_by_def del: dropWhile_eq_Nil_conv)
next
  case (Cons c r)
  then have "\<not> P c" by (rule dropWhile_hd)
  with Cons show ?thesis
    by (simp add: trim_matches_def trim_end_by_Cons)
qed

lemma trim_as_matches: "trim s = trim_matches is_ws s"
  by (simp add: trim_def trim_start_def trim_end_def trim_matches_def)

lemma trim_idem [simp]: "trim (trim s) = trim s"
  by (simp add: trim_as_matches)

lemma sublist_trim_matches: "sublist (trim_matches P s) s"
  unfolding trim_matches_def
  by (meson prefix_trim_end_by prefix_imp_sublist suffix_dropWhile suffix_imp_sublist
        sublist_order.order_trans)

lemma sublist_trim: "sublist (trim s) s"
  by (simp add: trim_as_matches sublist_trim_matches)

lemma set_trim_matches: "set (trim_matches P s) \<subseteq> set s"
  by (rule set_mono_sublist [OF sublist_trim_matches])

subsection \<open>Searching and splitting\<close>

text \<open>\<open>split_once(p)\<close> for a nonempty pattern: the halves around its first occurrence.\<close>

fun split_once :: "ustr \<Rightarrow> ustr \<Rightarrow> (ustr \<times> ustr) option" where
  "split_once p [] = (if p = [] then Some ([], []) else None)"
| "split_once p (c # cs) =
     (if prefix p (c # cs) then Some ([], drop (length p) (c # cs))
      else map_option (\<lambda>(a, b). (c # a, b)) (split_once p cs))"

text \<open>\<open>rsplit_once(p)\<close>: around the last occurrence.\<close>

fun rsplit_once :: "ustr \<Rightarrow> ustr \<Rightarrow> (ustr \<times> ustr) option" where
  "rsplit_once p [] = (if p = [] then Some ([], []) else None)"
| "rsplit_once p (c # cs) =
     (case rsplit_once p cs of
        Some (a, b) \<Rightarrow> Some (c # a, b)
      | None \<Rightarrow> if prefix p (c # cs) then Some ([], drop (length p) (c # cs)) else None)"

text \<open>\<open>strip_prefix(p)\<close>.\<close>

definition strip_prefix :: "ustr \<Rightarrow> ustr \<Rightarrow> ustr option" where
  "strip_prefix p s = (if prefix p s then Some (drop (length p) s) else None)"

text \<open>\<open>if let Some(pos) = s.find(p) { s = &s[..pos] }\<close>, and \<open>truncate(pos)\<close> after a \<open>find\<close>.\<close>

definition cut_at :: "ustr \<Rightarrow> ustr \<Rightarrow> ustr" where
  "cut_at p s = (case split_once p s of Some (a, _) \<Rightarrow> a | None \<Rightarrow> s)"

lemma split_once_Some: "split_once p s = Some (a, b) \<Longrightarrow> s = a @ p @ b"
  by (induction s arbitrary: a b) (auto split: if_splits simp: prefix_def)

lemma split_once_None: "p \<noteq> [] \<Longrightarrow> split_once p s = None \<longleftrightarrow> \<not> sublist p s"
  by (induction s) (auto simp: sublist_Cons_iff)

lemma split_once_first:
  "p \<noteq> [] \<Longrightarrow> split_once p s = Some (a, b) \<Longrightarrow> prefix q a \<Longrightarrow> q \<noteq> a \<Longrightarrow>
     \<not> prefix p (drop (length q) s)"
proof (induction s arbitrary: a b q)
  case Nil
  then show ?case by simp
next
  case (Cons c cs)
  show ?case
  proof (cases "prefix p (c # cs)")
    case True
    with Cons.prems show ?thesis by (auto simp: prefix_def)
  next
    case False
    with Cons.prems obtain a' where a: "a = c # a'" "split_once p cs = Some (a', b)"
      by auto
    show ?thesis
    proof (cases q)
      case Nil
      with False show ?thesis by simp
    next
      case (Cons d q')
      with Cons.prems a have "prefix q' a'" "q' \<noteq> a'" by auto
      from Cons.IH [OF Cons.prems(1) a(2) this] \<open>q = d # q'\<close> show ?thesis by simp
    qed
  qed
qed

lemma rsplit_once_Some: "rsplit_once p s = Some (a, b) \<Longrightarrow> s = a @ p @ b"
  by (induction s arbitrary: a b) (auto split: if_splits option.splits simp: prefix_def)

lemma rsplit_once_None: "p \<noteq> [] \<Longrightarrow> rsplit_once p s = None \<longleftrightarrow> \<not> sublist p s"
  by (induction s) (auto simp: sublist_Cons_iff split: option.splits)

lemma rsplit_once_last: "p \<noteq> [] \<Longrightarrow> rsplit_once p s = Some (a, b) \<Longrightarrow> \<not> sublist p (tl p @ b)"
proof (induction s arbitrary: a b)
  case Nil
  then show ?case by simp
next
  case (Cons c cs)
  show ?case
  proof (cases "rsplit_once p cs")
    case None
    then have n: "\<not> sublist p cs" using Cons.prems(1) by (simp add: rsplit_once_None)
    from None Cons.prems have "prefix p (c # cs)" "b = drop (length p) (c # cs)"
      by (auto split: if_splits)
    then have "cs = tl p @ b" using Cons.prems(1)
      by (cases p) (auto simp: prefix_def)
    with n show ?thesis by simp
  next
    case (Some ab)
    with Cons.prems obtain a' where "rsplit_once p cs = Some (a', b)" by (cases ab) auto
    from Cons.IH [OF Cons.prems(1) this] show ?thesis .
  qed
qed

lemma prefix_cut_at: "prefix (cut_at p s) s"
  by (auto simp: cut_at_def split: option.splits dest: split_once_Some)

text \<open>After the cut the pattern is gone.\<close>

lemma cut_at_free: "p \<noteq> [] \<Longrightarrow> \<not> sublist p (cut_at p s)"
proof (induction s)
  case Nil
  then show ?case by (simp add: cut_at_def)
next
  case (Cons c cs)
  show ?case
  proof (cases "prefix p (c # cs)")
    case True
    with Cons.prems show ?thesis by (simp add: cut_at_def)
  next
    case False
    then have eq: "cut_at p (c # cs) = c # cut_at p cs"
      by (auto simp: cut_at_def split: option.splits)
    have "\<not> prefix p (c # cut_at p cs)"
    proof
      assume "prefix p (c # cut_at p cs)"
      moreover have "prefix (c # cut_at p cs) (c # cs)" by (simp add: prefix_cut_at)
      ultimately show False using False prefix_order.trans by blast
    qed
    with Cons eq show ?thesis by (simp add: sublist_Cons_iff)
  qed
qed

lemma cut_at_append: "p \<noteq> [] \<Longrightarrow> cut_at p (s @ p @ a) = cut_at p (s @ p @ b)"
proof (induction s)
  case Nil
  then show ?case by (cases p) (simp_all add: cut_at_def)
next
  case (Cons c cs)
  have pre: "prefix p (c # cs @ p @ x) \<longleftrightarrow> prefix p (c # cs @ p)" for x
    using prefix_length_prefix [of p "(c # cs @ p) @ x" "c # cs @ p"]
      prefix_prefix [of p "c # cs @ p" x] by auto
  have step: "cut_at p (c # cs @ p @ x) =
      (if prefix p (c # cs @ p) then [] else c # cut_at p (cs @ p @ x))" for x
    using pre [of x] by (auto simp: cut_at_def split: option.splits)
  show ?case using Cons step [of a] step [of b] by simp
qed

subsection \<open>Pieces\<close>

text \<open>\<open>split(P)\<close>: the pieces between the characters that satisfy \<open>P\<close>.\<close>

fun split_by :: "(uchar \<Rightarrow> bool) \<Rightarrow> ustr \<Rightarrow> ustr list" where
  "split_by P [] = [[]]"
| "split_by P (c # cs) =
     (if P c then [] # split_by P cs
      else (case split_by P cs of [] \<Rightarrow> [[c]] | w # ws \<Rightarrow> (c # w) # ws))"

definition split_whitespace :: "ustr \<Rightarrow> ustr list" where
  "split_whitespace s = filter (\<lambda>w. w \<noteq> []) (split_by is_ws s)"

text \<open>\<open>lines()\<close>: cut after every \<open>\n\<close>, which is dropped together with a \<open>\r\<close> before it; a
  last line without \<open>\n\<close> is kept as it is.\<close>

definition strip_cr :: "ustr \<Rightarrow> ustr" where
  "strip_cr l = (if l \<noteq> [] \<and> last l = 13 then butlast l else l)"

fun lines_from :: "ustr \<Rightarrow> ustr \<Rightarrow> ustr list" where
  "lines_from cur [] = (if cur = [] then [] else [cur])"
| "lines_from cur (c # cs) =
     (if c = 10 then strip_cr cur # lines_from [] cs else lines_from (cur @ [c]) cs)"

definition str_lines :: "ustr \<Rightarrow> ustr list" where
  "str_lines s = lines_from [] s"

lemma split_by_not_Nil [simp]: "split_by P s \<noteq> []"
  by (induction s) (auto split: list.splits)

lemma split_by_pieces: "w \<in> set (split_by P s) \<Longrightarrow> c \<in> set w \<Longrightarrow> \<not> P c \<and> c \<in> set s"
proof (induction s arbitrary: w c)
  case Nil
  then show ?case by simp
next
  case (Cons d s)
  show ?case
  proof (cases "split_by P s")
    case Nil
    then show ?thesis by simp
  next
    case (Cons v vs)
    then have pieces: "\<And>u x. u = v \<or> u \<in> set vs \<Longrightarrow> x \<in> set u \<Longrightarrow> \<not> P x \<and> x \<in> set s"
      using Cons.IH by simp
    show ?thesis using Cons.prems Cons pieces [of v c] pieces [of w c] by (auto split: if_splits)
  qed
qed

lemma split_whitespace_word:
  "w \<in> set (split_whitespace s) \<Longrightarrow> w \<noteq> [] \<and> (\<forall>c\<in>set w. \<not> is_ws c)"
  by (auto simp: split_whitespace_def dest: split_by_pieces)

lemma split_by_append: "P c \<Longrightarrow> split_by P (a @ c # b) = split_by P a @ split_by P b"
proof (induction a)
  case Nil
  then show ?case by simp
next
  case (Cons d a)
  then show ?case by (cases "split_by P a") auto
qed

lemma split_by_word: "\<forall>c\<in>set w. \<not> P c \<Longrightarrow> split_by P w = [w]"
  by (induction w) auto

lemma split_whitespace_append [str_simps]:
  "is_ws c \<Longrightarrow> split_whitespace (a @ c # b) = split_whitespace a @ split_whitespace b"
  by (simp add: split_whitespace_def split_by_append)

lemma split_whitespace_Nil [simp]: "split_whitespace [] = []"
  by (simp add: split_whitespace_def)

lemma split_whitespace_word_eq [str_simps]:
  "\<forall>c\<in>set w. \<not> is_ws c \<Longrightarrow> split_whitespace w = (if w = [] then [] else [w])"
  by (simp add: split_whitespace_def split_by_word)

lemma split_whitespace_ws: "list_all is_ws w \<Longrightarrow> split_whitespace (a @ w) = split_whitespace a"
proof (induction w arbitrary: a)
  case Nil
  then show ?case by simp
next
  case (Cons c w)
  then have "split_whitespace w = []" using Cons.IH [of "[]"] by simp
  with Cons.prems show ?case by (simp add: split_whitespace_append)
qed

lemma split_whitespace_trim_start [simp]: "split_whitespace (trim_start s) = split_whitespace s"
proof (induction s)
  case Nil
  then show ?case by (simp add: trim_start_def)
next
  case (Cons c s)
  then show ?case
    using split_whitespace_append [of c "[]" s] by (simp add: trim_start_def)
qed

lemma split_whitespace_trim_end [simp]: "split_whitespace (trim_end s) = split_whitespace s"
proof -
  have "s = trim_end s @ rev (takeWhile is_ws (rev s))"
    unfolding trim_end_def trim_end_by_def by (metis rev_append rev_rev_ident takeWhile_dropWhile_id)
  moreover have "list_all is_ws (rev (takeWhile is_ws (rev s)))"
    by (auto simp: list_all_iff dest: set_takeWhileD)
  ultimately show ?thesis using split_whitespace_ws by metis
qed

lemma split_whitespace_trim [simp]: "split_whitespace (trim s) = split_whitespace s"
  by (simp add: trim_def)

lemma lines_from_append:
  "lines_from cur (a @ 10 # b) = lines_from cur (a @ [10]) @ str_lines b"
  by (induction a arbitrary: cur) (auto simp: str_lines_def)

lemma str_lines_append: "str_lines (a @ 10 # b) = str_lines (a @ [10]) @ str_lines b"
  using lines_from_append [of "[]" a b] by (simp add: str_lines_def)

lemma lines_from_line:
  "10 \<notin> set l \<Longrightarrow> lines_from cur (l @ [10]) = [strip_cr (cur @ l)]"
  by (induction l arbitrary: cur) auto

lemma str_lines_line: "10 \<notin> set l \<Longrightarrow> str_lines (l @ [10]) = [strip_cr l]"
  by (simp add: str_lines_def lines_from_line)

lemma lines_from_no_nl:
  "10 \<notin> set cur \<Longrightarrow> l \<in> set (lines_from cur s) \<Longrightarrow> 10 \<notin> set l"
proof (induction s arbitrary: cur)
  case Nil
  then show ?case by (simp split: if_splits)
next
  case (Cons c s)
  have "10 \<notin> set (strip_cr cur)" using Cons.prems(1)
    by (auto simp: strip_cr_def dest: in_set_butlastD)
  with Cons.prems Cons.IH [of "[]"] Cons.IH [of "cur @ [c]"] show ?case
    by (auto split: if_splits)
qed

lemma str_lines_no_nl: "l \<in> set (str_lines s) \<Longrightarrow> 10 \<notin> set l"
  unfolding str_lines_def by (rule lines_from_no_nl [of "[]"]) simp_all

subsection \<open>Joining and replacing\<close>

text \<open>\<open>join(sep)\<close>.\<close>

fun join_with :: "ustr \<Rightarrow> ustr list \<Rightarrow> ustr" where
  "join_with sep [] = []"
| "join_with sep [w] = w"
| "join_with sep (w # ws) = w @ sep @ join_with sep ws"

text \<open>\<open>str::replace(p, r)\<close>: every non-overlapping occurrence from the left.\<close>

function replace_all :: "ustr \<Rightarrow> ustr \<Rightarrow> ustr \<Rightarrow> ustr" where
  "replace_all p r [] = []"
| "replace_all p r (c # cs) =
     (if p \<noteq> [] \<and> prefix p (c # cs) then r @ replace_all p r (drop (length p) (c # cs))
      else c # replace_all p r cs)"
  by pat_completeness auto
termination
  by (relation "measure (\<lambda>(p, r, s). length s)") (auto simp: neq_Nil_conv)

lemma replace_all_none: "\<not> sublist p s \<Longrightarrow> replace_all p r s = s"
proof (induction s)
  case Nil
  then show ?case by simp
next
  case (Cons c s)
  then have "\<not> prefix p (c # s)" "\<not> sublist p s"
    by (auto simp: sublist_Cons_right)
  with Cons.IH show ?case by simp
qed

text \<open>Decimal and hexadecimal numbers.\<close>

definition dec_digit :: "uchar \<Rightarrow> int" where
  "dec_digit c = c - 48"

definition hex_digit_val :: "uchar \<Rightarrow> int" where
  "hex_digit_val c = (if c \<le> 57 then c - 48 else if c \<le> 70 then c - 55 else c - 87)"

definition hex_value :: "ustr \<Rightarrow> int" where
  "hex_value s = foldl (\<lambda>n c. 16 * n + hex_digit_val c) 0 s"

end
