(* ===== verification/Utf8.thy ===== *)
theory Utf8
  imports Rust_Str
begin

text \<open>
  The two conversions between text and bytes that the pipeline uses, both of Rust's standard
  library: \<open>as_bytes\<close> (UTF-8 encoding, applied before hashing) and
  \<open>String::from_utf8_lossy\<close> (decoding of the decompressed payload, where every maximal invalid
  sequence becomes U+FFFD). Main fact: decoding an encoded string gives it back.
\<close>

subsection \<open>Encoding\<close>

definition utf8_char :: "uchar \<Rightarrow> int list" where
  "utf8_char c =
     (if c < 128 then [c]
      else if c < 2048 then [192 + c div 64, 128 + c mod 64]
      else if c < 65536 then [224 + c div 4096, 128 + (c div 64) mod 64, 128 + c mod 64]
      else [240 + c div 262144, 128 + (c div 4096) mod 64, 128 + (c div 64) mod 64,
            128 + c mod 64])"

definition as_bytes :: "ustr \<Rightarrow> byte list" where
  "as_bytes s = map word_of_int (concat (map utf8_char s))"

lemma length_utf8_char: "length (utf8_char c) = utf8_width c"
  by (simp add: utf8_char_def utf8_width_def)

lemma length_as_bytes: "length (as_bytes s) = str_len s"
  by (induction s) (simp_all add: as_bytes_def str_len_def length_utf8_char)

lemma as_bytes_append [simp]: "as_bytes (a @ b) = as_bytes a @ as_bytes b"
  by (simp add: as_bytes_def)

lemma utf8_char_byte: "scalar c \<Longrightarrow> b \<in> set (utf8_char c) \<Longrightarrow> 0 \<le> b \<and> b < 256"
  by (auto simp: utf8_char_def scalar_def split: if_splits)

lemma uint_as_bytes:
  assumes "list_all scalar s"
  shows "map uint (as_bytes s) = concat (map utf8_char s)"
proof -
  have "uint (word_of_int b :: byte) = b" if "b \<in> set (concat (map utf8_char s))" for b
  proof -
    from that assms obtain c where "scalar c" "b \<in> set (utf8_char c)"
      by (auto simp: list_all_iff)
    then have "0 \<le> b \<and> b < 256" by (rule utf8_char_byte)
    then show ?thesis by (simp add: uint_word_of_int)
  qed
  then show ?thesis unfolding as_bytes_def map_map by (intro map_idI) (simp only: o_apply)
qed

subsection \<open>Lossy decoding\<close>

text \<open>The byte at an index, 0 past the end, as the library reads it.\<close>

definition safe_get :: "int list \<Rightarrow> nat \<Rightarrow> int" where
  "safe_get r i = (if i < length r then r ! i else 0)"

definition is_cont :: "int \<Rightarrow> bool" where
  "is_cont b \<longleftrightarrow> 128 \<le> b \<and> b \<le> 191"

definition second_of_3 :: "int \<Rightarrow> int \<Rightarrow> bool" where
  "second_of_3 b0 b1 \<longleftrightarrow>
     (if b0 = 224 then 160 \<le> b1 \<and> b1 \<le> 191
      else if b0 = 237 then 128 \<le> b1 \<and> b1 \<le> 159 else is_cont b1)"

definition second_of_4 :: "int \<Rightarrow> int \<Rightarrow> bool" where
  "second_of_4 b0 b1 \<longleftrightarrow>
     (if b0 = 240 then 144 \<le> b1 \<and> b1 \<le> 191
      else if b0 = 244 then 128 \<le> b1 \<and> b1 \<le> 143 else is_cont b1)"

text \<open>The character that starts at byte \<open>b0\<close> and how many of the following bytes it takes.\<close>

definition decode_first :: "int \<Rightarrow> int list \<Rightarrow> uchar \<times> nat" where
  "decode_first b0 r =
     (let b1 = safe_get r 0; b2 = safe_get r 1; b3 = safe_get r 2 in
      if b0 < 128 then (b0, 0)
      else if 194 \<le> b0 \<and> b0 \<le> 223 then
        (if is_cont b1 then ((b0 - 192) * 64 + (b1 - 128), 1) else (65533, 0))
      else if 224 \<le> b0 \<and> b0 \<le> 239 then
        (if \<not> second_of_3 b0 b1 then (65533, 0)
         else if \<not> is_cont b2 then (65533, 1)
         else ((b0 - 224) * 4096 + (b1 - 128) * 64 + (b2 - 128), 2))
      else if 240 \<le> b0 \<and> b0 \<le> 244 then
        (if \<not> second_of_4 b0 b1 then (65533, 0)
         else if \<not> is_cont b2 then (65533, 1)
         else if \<not> is_cont b3 then (65533, 2)
         else ((b0 - 240) * 262144 + (b1 - 128) * 4096 + (b2 - 128) * 64 + (b3 - 128), 3))
      else (65533, 0))"

function lossy :: "int list \<Rightarrow> ustr" where
  "lossy [] = []"
| "lossy (b # r) = fst (decode_first b r) # lossy (drop (snd (decode_first b r)) r)"
  by pat_completeness auto
termination
  by (relation "measure length") auto

definition from_utf8_lossy :: "byte list \<Rightarrow> ustr" where
  "from_utf8_lossy bs = lossy (map uint bs)"

text \<open>The digits in base 64 of a number give it back.\<close>

lemma base64_digits3:
  "(c div 4096) * 4096 + (c div 64) mod 64 * 64 + c mod 64 = (c :: int)"
proof -
  have "c div 4096 = c div 64 div 64" by (simp flip: zdiv_zmult2_eq)
  moreover have "c div 64 = c div 64 div 64 * 64 + c div 64 mod 64" by simp
  moreover have "c = c div 64 * 64 + c mod 64" by simp
  ultimately show ?thesis by linarith
qed

lemma base64_digits4:
  "(c div 262144) * 262144 + (c div 4096) mod 64 * 4096 + (c div 64) mod 64 * 64 + c mod 64
     = (c :: int)"
proof -
  have "c div 262144 = c div 4096 div 64" by (simp flip: zdiv_zmult2_eq)
  moreover have "c div 4096 = c div 4096 div 64 * 64 + c div 4096 mod 64" by simp
  ultimately show ?thesis using base64_digits3 [of c] by linarith
qed

lemma digit_bound: "d div 64 = q \<Longrightarrow> d < n \<Longrightarrow> d mod 64 < n - 64 * (q :: int)"
  using minus_mult_div_eq_mod [of d 64] by linarith

lemma decode_first_2:
  "194 \<le> b0 \<Longrightarrow> b0 \<le> 223 \<Longrightarrow> is_cont b1 \<Longrightarrow>
     decode_first b0 (b1 # r) = ((b0 - 192) * 64 + (b1 - 128), 1)"
  by (simp add: decode_first_def Let_def safe_get_def)

lemma decode_first_3:
  "224 \<le> b0 \<Longrightarrow> b0 \<le> 239 \<Longrightarrow> second_of_3 b0 b1 \<Longrightarrow> is_cont b2 \<Longrightarrow>
     decode_first b0 (b1 # b2 # r) = ((b0 - 224) * 4096 + (b1 - 128) * 64 + (b2 - 128), 2)"
  by (simp add: decode_first_def Let_def safe_get_def)

lemma decode_first_4:
  "240 \<le> b0 \<Longrightarrow> b0 \<le> 244 \<Longrightarrow> second_of_4 b0 b1 \<Longrightarrow> is_cont b2 \<Longrightarrow> is_cont b3 \<Longrightarrow>
     decode_first b0 (b1 # b2 # b3 # r) =
       ((b0 - 240) * 262144 + (b1 - 128) * 4096 + (b2 - 128) * 64 + (b3 - 128), 3)"
  by (simp add: decode_first_def Let_def safe_get_def)

lemma is_cont_digit [simp]: "is_cont (128 + c mod 64)"
  by (simp add: is_cont_def)

lemma second_of_3_char:
  assumes "scalar c" "2048 \<le> c" "c < 65536"
  shows "second_of_3 (224 + c div 4096) (128 + (c div 64) mod 64)"
proof -
  have "c div 64 mod 64 \<le> 31" if "c div 4096 = 13" "c < 55296"
  proof -
    have "c div 64 < 864" using that(2) by linarith
    with digit_bound [of "c div 64" 13 864] that(1) show ?thesis
      by (simp flip: zdiv_zmult2_eq)
  qed
  then show ?thesis
    using assms unfolding second_of_3_def is_cont_def scalar_def by auto
qed

lemma second_of_4_char:
  assumes "scalar c" "65536 \<le> c"
  shows "second_of_4 (240 + c div 262144) (128 + (c div 4096) mod 64)"
proof -
  have "c div 4096 mod 64 \<le> 15" if "c div 262144 = 4" "c < 1114112"
  proof -
    have "c div 4096 < 272" using that(2) by linarith
    with digit_bound [of "c div 4096" 4 272] that(1) show ?thesis
      by (simp flip: zdiv_zmult2_eq)
  qed
  then show ?thesis
    using assms unfolding second_of_4_def is_cont_def scalar_def by auto
qed

text \<open>One encoded character is read back, whatever follows it.\<close>

lemma lossy_utf8_char:
  assumes "scalar c"
  shows "lossy (utf8_char c @ r) = c # lossy r"
proof -
  consider "c < 128" | "128 \<le> c" "c < 2048" | "2048 \<le> c" "c < 65536" | "65536 \<le> c"
    by linarith
  then show ?thesis
  proof cases
    case 1
    then show ?thesis by (simp add: utf8_char_def decode_first_def Let_def)
  next
    case 2
    then have "194 \<le> 192 + c div 64" "192 + c div 64 \<le> 223" by auto
    from decode_first_2 [OF this is_cont_digit [of c]] show ?thesis
      using 2 by (simp add: utf8_char_def)
  next
    case 3
    then have "224 \<le> 224 + c div 4096" "224 + c div 4096 \<le> 239" by auto
    from decode_first_3 [OF this second_of_3_char [OF assms 3] is_cont_digit [of c]]
    show ?thesis using 3 by (simp add: utf8_char_def base64_digits3)
  next
    case 4
    with assms have "240 \<le> 240 + c div 262144" "240 + c div 262144 \<le> 244"
      by (auto simp: scalar_def)
    from decode_first_4 [OF this second_of_4_char [OF assms 4] is_cont_digit is_cont_digit,
        of "c div 64" c]
    show ?thesis using 4 by (simp add: utf8_char_def base64_digits4)
  qed
qed

lemma lossy_encoded: "list_all scalar s \<Longrightarrow> lossy (concat (map utf8_char s)) = s"
  by (induction s) (simp_all add: lossy_utf8_char)

lemma lossy_roundtrip: "list_all scalar s \<Longrightarrow> from_utf8_lossy (as_bytes s) = s"
  by (simp add: from_utf8_lossy_def uint_as_bytes lossy_encoded)

text \<open>The result never holds more characters than there were bytes.\<close>

lemma length_lossy: "length (lossy bs) \<le> length bs"
proof (induction bs rule: lossy.induct)
  case 1
  then show ?case by simp
next
  case (2 b r)
  have "length (drop n r) \<le> length r" for n by simp
  with 2 show ?case by (simp del: length_drop) (meson le_trans)
qed

lemma length_from_utf8_lossy: "length (from_utf8_lossy bs) \<le> length bs"
  using length_lossy [of "map uint bs"] by (simp add: from_utf8_lossy_def)

text \<open>Every character of the result is a scalar value, so the result is a Rust string.\<close>

lemma decode_first_scalar:
  assumes "0 \<le> b" "b < 256" "\<forall>x\<in>set r. 0 \<le> x \<and> x < 256"
  shows "scalar (fst (decode_first b r))"
  using assms
  by (auto simp: decode_first_def Let_def scalar_def is_cont_def second_of_3_def second_of_4_def
      split: if_splits)

lemma lossy_scalar: "\<forall>x\<in>set bs. 0 \<le> x \<and> x < 256 \<Longrightarrow> list_all scalar (lossy bs)"
proof (induction bs rule: lossy.induct)
  case 1
  then show ?case by simp
next
  case (2 b r)
  then show ?case
    by (auto intro: decode_first_scalar dest: in_set_dropD)
qed

lemma from_utf8_lossy_scalar: "list_all scalar (from_utf8_lossy bs)"
proof -
  have "\<forall>x\<in>set (map uint bs). 0 \<le> x \<and> x < 256"
    using uint_lt2p [where 'a = 8] by auto
  then show ?thesis unfolding from_utf8_lossy_def by (rule lossy_scalar)
qed

end
