(* ===== verification/Signature.thy ===== *)
theory Signature
  imports Utf8
begin

text \<open>
  The crash signature of \<open>crates/ucrs-common/src/signature.rs\<close>: symbol and exception
  normalisation, the signature itself, and the extraction of the exception line and the
  call-trace frames from a kernel log. Loops keep the shape of the source; the hash
  (\<open>hex::encode(Sha256::digest(_))\<close>, two external crates) is the parameter \<open>digest_hex\<close>.
\<close>

subsection \<open>Frames\<close>

text \<open>\<open>Frame\<close>: one call-trace frame.\<close>

record frame =
  fr_symbol :: ustr
  fr_module :: "ustr option"
  fr_questionable :: bool

text \<open>\<open>CrashSignature\<close>.\<close>

record crash_signature =
  cs_signature :: ustr
  cs_title :: ustr
  cs_modules :: "ustr list"

definition SIGNATURE_FRAMES :: nat where
  "SIGNATURE_FRAMES = 5"

definition SKIP_PREFIXES :: "ustr list" where
  "SKIP_PREFIXES = map lit
     [''dump_backtrace'', ''show_stack'', ''dump_stack'', ''die'', ''__die'', ''oops'', ''panic'',
      ''__warn'', ''warn_slowpath'', ''report_bug'', ''bug_handler'', ''do_trap'',
      ''do_page_fault'', ''do_translation_fault'', ''do_mem_abort'', ''el1_'', ''el1h_'',
      ''__do_kernel_fault'', ''ret_from_'', ''handle_exception'']"

definition is_machinery :: "ustr \<Rightarrow> bool" where
  "is_machinery symbol \<longleftrightarrow>
     list_ex (\<lambda>p. prefix p symbol) SKIP_PREFIXES \<or> suffix (lit ''_exception'') symbol"

subsection \<open>Normalisation\<close>

text \<open>The compiler suffixes, in the order of the loop that cuts them off.\<close>

definition compiler_suffixes :: "ustr list" where
  "compiler_suffixes = map lit [''constprop'', ''isra'', ''part'', ''cold'', ''lto'']"

definition normalize_symbol :: "ustr \<Rightarrow> ustr" where
  "normalize_symbol symbol =
     foldl (\<lambda>out sfx. cut_at (lit ''.'' @ sfx) out) (cut_at (lit ''+0x'') (trim symbol))
       compiler_suffixes"

definition is_bracket :: "uchar \<Rightarrow> bool" where
  "is_bracket c \<longleftrightarrow> c = 91 \<or> c = 93 \<or> c = 44"

text \<open>Hex addresses and long hexadecimal ids.\<close>

definition is_address :: "ustr \<Rightarrow> bool" where
  "is_address t \<longleftrightarrow>
     prefix (lit ''0x'') t \<or> 4 \<le> str_len t \<and> list_all is_ascii_hexdigit t"

text \<open>The die counter \<open>#1\<close> and time stamps.\<close>

definition is_counter :: "ustr \<Rightarrow> bool" where
  "is_counter t \<longleftrightarrow>
     prefix (lit ''#'') t
     \<or> sublist (lit ''.'') t \<and> list_all (\<lambda>c. is_ascii_digit c \<or> c = 46) t"

definition noise_words :: "ustr list" where
  "noise_words = map lit [''CPU:'', ''PID:'', ''Comm:'', ''Tainted:'', ''at'']"

text \<open>The loop of \<open>normalize_exception\<close>: the tokens not yet read and the output so far.\<close>

fun normalize_exception_loop :: "ustr list \<Rightarrow> ustr \<Rightarrow> ustr" where
  "normalize_exception_loop [] out = out"
| "normalize_exception_loop (tok # rest) out =
     (let t = trim_matches is_bracket tok in
      if is_address t then normalize_exception_loop rest out
      else if t \<in> set noise_words \<and> rest \<noteq> [] \<and> t \<noteq> lit ''at''
      then normalize_exception_loop (tl rest) out
      else if is_counter t then normalize_exception_loop rest out
      else normalize_exception_loop rest ((if out = [] then out else out @ [32]) @ t))"

definition normalize_exception :: "ustr \<Rightarrow> ustr" where
  "normalize_exception line = normalize_exception_loop (split_whitespace (trim line)) []"

subsection \<open>The signature\<close>

text \<open>The state of the loop over the frames in \<open>compute\<close>.\<close>

record sig_state =
  ss_frames :: "ustr list"
  ss_modules :: "ustr list"
  ss_seen_real :: bool

definition add_module :: "ustr list \<Rightarrow> ustr option \<Rightarrow> ustr list" where
  "add_module ms m = (case m of None \<Rightarrow> ms | Some x \<Rightarrow> push_new ms x)"

definition compute_step :: "sig_state \<Rightarrow> frame \<Rightarrow> sig_state" where
  "compute_step st f =
     (if fr_questionable f then st
      else let sym = normalize_symbol (fr_symbol f) in
        if sym = [] then st
        else let st = st\<lparr>ss_modules := add_module (ss_modules st) (fr_module f)\<rparr> in
          if \<not> ss_seen_real st \<and> is_machinery sym then st
          else let st = st\<lparr>ss_seen_real := True\<rparr> in
            if length (ss_frames st) < SIGNATURE_FRAMES
            then st\<lparr>ss_frames := ss_frames st @ [sym]\<rparr> else st)"

text \<open>The text that is hashed.\<close>

definition signature_input :: "ustr \<Rightarrow> ustr \<Rightarrow> ustr list \<Rightarrow> ustr" where
  "signature_input kind exception frames =
     kind @ lit ''|'' @ exception @ lit ''|'' @ join_with (lit ''|'') frames"

definition compute :: "(byte list \<Rightarrow> ustr) \<Rightarrow> ustr \<Rightarrow> ustr \<Rightarrow> frame list \<Rightarrow> crash_signature" where
  "compute digest_hex kind exception_line frames =
     (let exception = normalize_exception exception_line;
          st = foldl compute_step \<lparr>ss_frames = [], ss_modules = [], ss_seen_real = False\<rparr> frames
      in \<lparr>cs_signature = digest_hex (as_bytes (signature_input kind exception (ss_frames st))),
          cs_title = (case ss_frames st of [] \<Rightarrow> exception | s # _ \<Rightarrow> s),
          cs_modules = ss_modules st\<rparr>)"

subsection \<open>Log lines\<close>

definition is_stamp_char :: "uchar \<Rightarrow> bool" where
  "is_stamp_char c \<longleftrightarrow> is_ascii_digit c \<or> c = 46"

text \<open>The syslog level \<open><7>\<close> at the front, if it is one.\<close>

definition strip_level :: "ustr \<Rightarrow> ustr" where
  "strip_level s =
     (case strip_prefix (lit ''<'') s of
        None \<Rightarrow> s
      | Some rest \<Rightarrow>
          (case split_once (lit ''>'') rest of
             None \<Rightarrow> s
           | Some (level, rest) \<Rightarrow>
               if level \<noteq> [] \<and> list_all is_ascii_digit level then trim_start rest else s))"

definition strip_printk_prefix :: "ustr \<Rightarrow> ustr" where
  "strip_printk_prefix raw =
     (let s = strip_level (trim_start raw) in
      case strip_prefix (lit ''['') s of
        Some rest \<Rightarrow>
          (case split_once (lit '']'') rest of
             Some (ts, rest) \<Rightarrow> if list_all is_stamp_char (trim ts) then trim rest else trim s
           | None \<Rightarrow> trim s)
      | None \<Rightarrow>
          (case split_once (lit '' '') s of
             Some (first, rest) \<Rightarrow>
               if sublist (lit ''.'') first \<and> list_all is_stamp_char first then trim rest
               else trim s
           | None \<Rightarrow> trim s))"

subsection \<open>The oops parser\<close>

definition markers :: "ustr list" where
  "markers = map lit [''Oops'', ''kernel BUG at'', ''Internal error:'', ''Unable to handle kernel'',
     ''Unhandled fault'', ''BUG:'', ''WARNING:'']"

text \<open>The inner loop over the markers; it stops at the first one the line carries.\<close>

fun marker_loop :: "ustr list \<Rightarrow> ustr \<Rightarrow> ustr option \<times> frame list \<Rightarrow> ustr option \<times> frame list"
  where
  "marker_loop [] line st = st"
| "marker_loop (marker # ms) line st =
     (if prefix marker line \<or> sublist marker line then
        (if snd st \<noteq> [] then (Some line, [])
         else if fst st = None then (Some line, snd st) else st)
      else marker_loop ms line st)"

text \<open>arm64 marks the faulting frame with a trailing \<open>(P)\<close> or \<open>(K)\<close>.\<close>

function strip_frame_markers :: "ustr \<Rightarrow> ustr" where
  "strip_frame_markers line =
     (if suffix (lit '')'') line then
        (case rsplit_once (lit '' ('') line of
           Some (rest, marker) \<Rightarrow>
             if str_len marker \<le> 3 then strip_frame_markers (trim_end rest) else line
         | None \<Rightarrow> line)
      else line)"
  by pat_completeness auto
termination
proof (relation "measure length")
  fix line x rest marker
  assume "rsplit_once (lit '' ('') line = Some x" "(rest, marker) = x"
  then have "line = rest @ lit '' ('' @ marker" by (auto dest: rsplit_once_Some)
  then show "(trim_end rest, line) \<in> measure length"
    by (auto intro: le_less_trans [OF length_trim_end])
qed simp

declare strip_frame_markers.simps [simp del]

text \<open>\<open>symbol+0x1a8/0x2d0 [module]\<close>.\<close>

definition split_module :: "ustr \<Rightarrow> ustr \<times> ustr option" where
  "split_module line =
     (case split_once (lit '' ['') line of
        Some (s, m) \<Rightarrow> (s, Some (trim_end_by (\<lambda>c. c = 93) m))
      | None \<Rightarrow> (line, None))"

text \<open>The state of the loop over the lines in \<open>parse_oops\<close>.\<close>

record oops_state =
  os_exception :: "ustr option"
  os_frames :: "frame list"
  os_in_trace :: bool

definition trace_line :: "oops_state \<Rightarrow> ustr \<Rightarrow> oops_state" where
  "trace_line st line =
     (if sublist (lit ''---[ end trace'') line \<or> line = [] then st\<lparr>os_in_trace := False\<rparr>
      else let questionable = prefix (lit ''? '') line;
               line = strip_frame_markers (trim (trim_start_matches (lit ''? '') line));
               (sym_part, m) = split_module line
           in if \<not> sublist (lit ''+0x'') sym_part then st\<lparr>os_in_trace := False\<rparr>
              else st\<lparr>os_frames := os_frames st @
                [\<lparr>fr_symbol = sym_part, fr_module = m, fr_questionable = questionable\<rparr>]\<rparr>)"

definition mark_section :: "oops_state \<Rightarrow> ustr \<Rightarrow> oops_state" where
  "mark_section st line =
     (case marker_loop markers line (os_exception st, os_frames st) of
        (e, fs) \<Rightarrow> st\<lparr>os_exception := e, os_frames := fs\<rparr>)"

definition is_trace_header :: "ustr \<Rightarrow> bool" where
  "is_trace_header line \<longleftrightarrow>
     prefix (lit ''Call trace:'') line \<or> prefix (lit ''Call Trace:'') line"

definition oops_step :: "oops_state \<Rightarrow> ustr \<Rightarrow> oops_state" where
  "oops_step st raw =
     (let line = strip_printk_prefix raw; st = mark_section st line in
      if is_trace_header line then st\<lparr>os_in_trace := True\<rparr>
      else if os_in_trace st then trace_line st line
      else st)"

definition oops_init :: oops_state where
  "oops_init = \<lparr>os_exception = None, os_frames = [], os_in_trace = False\<rparr>"

definition parse_oops_lines :: "ustr list \<Rightarrow> oops_state" where
  "parse_oops_lines ls = foldl oops_step oops_init ls"

definition parse_oops :: "ustr \<Rightarrow> (ustr \<times> frame list) option" where
  "parse_oops text =
     (let st = parse_oops_lines (str_lines text) in
      map_option (\<lambda>e. (e, os_frames st)) (os_exception st))"

subsection \<open>Facts on the normalisation\<close>

lemma normalize_symbol_prefix: "prefix (normalize_symbol s) (trim s)"
proof -
  have "prefix (foldl (\<lambda>out sfx. cut_at (lit ''.'' @ sfx) out) x xs) x" for x xs
    by (induction xs arbitrary: x) (auto intro: prefix_order.trans [OF _ prefix_cut_at])
  then show ?thesis
    unfolding normalize_symbol_def using prefix_cut_at prefix_order.trans by blast
qed

lemma cut_at_keeps_free: "\<not> sublist q s \<Longrightarrow> \<not> sublist q (cut_at p s)"
  using prefix_cut_at prefix_imp_sublist sublist_order.order.trans by blast

lemma foldl_cut_free:
  "\<not> sublist q x \<Longrightarrow> \<not> sublist q (foldl (\<lambda>out sfx. cut_at (lit ''.'' @ sfx) out) x xs)"
  by (induction xs arbitrary: x) (auto simp: cut_at_keeps_free)

lemma foldl_cut_removes:
  "sfx \<in> set xs \<Longrightarrow>
     \<not> sublist (lit ''.'' @ sfx) (foldl (\<lambda>out sfx. cut_at (lit ''.'' @ sfx) out) x xs)"
proof (induction xs arbitrary: x)
  case Nil
  then show ?case by simp
next
  case (Cons y ys)
  have "\<not> sublist (lit ''.'' @ y) (cut_at (lit ''.'' @ y) x)" by (rule cut_at_free) simp
  with Cons show ?case using foldl_cut_free by (cases "sfx = y") auto
qed

text \<open>Each cut leaves the text before an occurrence of its pattern, or the text as it was.\<close>

definition cut_of :: "ustr list \<Rightarrow> ustr \<Rightarrow> ustr \<Rightarrow> bool" where
  "cut_of ps out s \<longleftrightarrow> out = s \<or> list_ex (\<lambda>p. prefix (out @ p) s) ps"

lemma cut_of_cut_at: "p \<in> set ps \<Longrightarrow> cut_of ps x s \<Longrightarrow> cut_of ps (cut_at p x) s"
proof (cases "split_once p x")
  case None
  then show "cut_of ps x s \<Longrightarrow> ?thesis" by (simp add: cut_at_def)
next
  case (Some ab)
  assume p: "p \<in> set ps" and c: "cut_of ps x s"
  obtain a b where ab: "ab = (a, b)" by (cases ab)
  with Some have "x = a @ p @ b" by (simp add: split_once_Some)
  moreover have "prefix x s"
    using c unfolding cut_of_def by (auto simp: list_ex_iff prefix_def)
  ultimately have "prefix (a @ p) s" by (auto simp: prefix_def)
  with p show ?thesis using Some ab unfolding cut_of_def cut_at_def list_ex_iff by auto
qed

lemma cut_of_foldl:
  "set xs \<subseteq> set ys \<Longrightarrow> cut_of (lit ''+0x'' # map (\<lambda>y. lit ''.'' @ y) ys) x s \<Longrightarrow>
     cut_of (lit ''+0x'' # map (\<lambda>y. lit ''.'' @ y) ys)
       (foldl (\<lambda>out sfx. cut_at (lit ''.'' @ sfx) out) x xs) s"
proof (induction xs arbitrary: x)
  case Nil
  then show ?case by simp
next
  case (Cons z zs)
  from Cons.prems have "cut_of (lit ''+0x'' # map (\<lambda>y. lit ''.'' @ y) ys)
      (cut_at (lit ''.'' @ z) x) s"
    by (intro cut_of_cut_at) auto
  with Cons show ?case by simp
qed

text \<open>The patterns a normalised symbol is cut at.\<close>

definition symbol_cuts :: "ustr list" where
  "symbol_cuts = lit ''+0x'' # map (\<lambda>y. lit ''.'' @ y) compiler_suffixes"

lemma normalize_symbol_free: "list_all (\<lambda>p. \<not> sublist p (normalize_symbol s)) symbol_cuts"
proof -
  have "\<not> sublist (lit ''+0x'') (normalize_symbol s)"
    unfolding normalize_symbol_def by (rule foldl_cut_free, rule cut_at_free) simp
  then show ?thesis
    using foldl_cut_removes [of _ compiler_suffixes "cut_at (lit ''+0x'') (trim s)"]
    unfolding symbol_cuts_def normalize_symbol_def by (auto simp: list_all_iff)
qed

lemma normalize_symbol_cut: "cut_of symbol_cuts (normalize_symbol s) (trim s)"
  unfolding symbol_cuts_def normalize_symbol_def
  by (rule cut_of_foldl, simp, rule cut_of_cut_at) (simp_all add: cut_of_def)

text \<open>What follows the first \<open>+0x\<close> of a symbol never matters.\<close>

lemma trim_keeps_offset:
  "\<exists>u. trim (s @ lit ''+0x'' @ a) = dropWhile is_ws s @ lit ''+0x'' @ u"
proof -
  have "trim_start (s @ lit ''+0x'' @ a) = dropWhile is_ws s @ lit ''+0x'' @ a"
    by (induction s) (simp_all add: trim_start_def is_ws_def)
  moreover have "trim_end_by is_ws (x @ lit ''+0x'' @ a) = x @ lit ''+0x'' @ trim_end_by is_ws a" for x
    using trim_end_by_same [of "x @ lit ''+0x''" is_ws] trim_end_by_append [of is_ws "x @ lit ''+0x''" a]
    by (cases "list_all is_ws a") (auto simp: is_ws_def trim_end_by_def dropWhile_append list_all_iff)
  ultimately show ?thesis unfolding trim_def trim_end_def by metis
qed

lemma normalize_symbol_offset:
  "normalize_symbol (s @ lit ''+0x'' @ a) = normalize_symbol (s @ lit ''+0x'' @ b)"
proof -
  obtain u v where u: "trim (s @ lit ''+0x'' @ a) = dropWhile is_ws s @ lit ''+0x'' @ u"
    and v: "trim (s @ lit ''+0x'' @ b) = dropWhile is_ws s @ lit ''+0x'' @ v"
    using trim_keeps_offset by metis
  have "cut_at (lit ''+0x'') (trim (s @ lit ''+0x'' @ a)) =
      cut_at (lit ''+0x'') (trim (s @ lit ''+0x'' @ b))"
    unfolding u v by (rule cut_at_append) simp
  then show ?thesis by (simp only: normalize_symbol_def)
qed

text \<open>Tokens of an exception line that count as the same: equal, or both addresses.\<close>

definition same_token :: "ustr \<Rightarrow> ustr \<Rightarrow> bool" where
  "same_token a b \<longleftrightarrow>
     a = b \<or> is_address (trim_matches is_bracket a) \<and> is_address (trim_matches is_bracket b)"

lemma normalize_exception_loop_same:
  "list_all2 same_token xs ys \<Longrightarrow>
     normalize_exception_loop xs out = normalize_exception_loop ys out"
proof (induction xs out arbitrary: ys rule: normalize_exception_loop.induct)
  case (1 out)
  then show ?case by simp
next
  case (2 tok rest out)
  then obtain v vs where ys: "ys = v # vs" and tv: "same_token tok v"
    and rest: "list_all2 same_token rest vs"
    by (auto simp: list_all2_Cons1)
  have tails: "list_all2 same_token (tl rest) (tl vs)" "rest = [] \<longleftrightarrow> vs = []"
    using rest by (cases rest; cases vs; simp)+
  show ?case
  proof (cases "is_address (trim_matches is_bracket tok)")
    case True
    then have "is_address (trim_matches is_bracket v)" using tv by (auto simp: same_token_def)
    with True "2.IH"(1) [OF refl True rest] ys show ?thesis by (simp add: Let_def)
  next
    case False
    with tv have "v = tok" by (auto simp: same_token_def)
    with False ys rest tails "2.IH"(2-4) [OF refl False] show ?thesis
      by (auto simp: Let_def)
  qed
qed

text \<open>No address and no counter is left among the words of the result.\<close>

definition noise_free :: "ustr \<Rightarrow> bool" where
  "noise_free t \<longleftrightarrow> \<not> is_address t \<and> \<not> is_counter t"

lemma normalize_exception_loop_noise_free:
  "\<forall>t\<in>set toks. \<forall>c\<in>set t. \<not> is_ws c \<Longrightarrow> list_all noise_free (split_whitespace out) \<Longrightarrow>
     list_all noise_free (split_whitespace (normalize_exception_loop toks out))"
proof (induction toks out rule: normalize_exception_loop.induct)
  case (1 out)
  then show ?case by simp
next
  case (2 tok rest out)
  let ?t = "trim_matches is_bracket tok"
  have ws: "\<forall>t\<in>set rest. \<forall>c\<in>set t. \<not> is_ws c" "\<forall>t\<in>set (tl rest). \<forall>c\<in>set t. \<not> is_ws c"
    using "2.prems"(1) by (cases rest; simp)+
  have t: "\<forall>c\<in>set ?t. \<not> is_ws c"
    using "2.prems"(1) set_trim_matches [of is_bracket tok] by auto
  have new: "list_all noise_free (split_whitespace ((if out = [] then out else out @ [32]) @ ?t))"
    if "\<not> is_address ?t" "\<not> is_counter ?t"
  proof -
    have "list_all noise_free (split_whitespace ?t)"
      using that split_whitespace_word_eq [OF t] by (simp add: noise_free_def)
    moreover have "is_ws 32" by (simp add: is_ws_def)
    ultimately show ?thesis
      using "2.prems"(2) by (simp add: split_whitespace_append)
  qed
  show ?case
    using "2.IH"(1) [OF refl _ ws(1) "2.prems"(2)] "2.IH"(2) [OF refl _ _ ws(2) "2.prems"(2)]
      "2.IH"(3) [OF refl _ _ _ ws(1) "2.prems"(2)] "2.IH"(4) [OF refl _ _ _ ws(1)] new
    by (auto simp: Let_def)
qed

end
