(* ===== verification/Signature_Props.thy ===== *)
theory Signature_Props
  imports Signature
begin

text \<open>
  What the crash signature promises. \<open>protocol_frames\<close> and \<open>protocol_modules\<close> restate
  section 6 of \<open>docs/protocol.md\<close> as list pipelines; the loop of \<open>compute\<close> implements them.
  Then: grouping does not depend on addresses, offsets and counters, and which crash section
  of a log the parser returns.
\<close>

subsection \<open>The grouping algorithm as the protocol describes it\<close>

definition significant :: "frame list \<Rightarrow> (ustr \<times> ustr option) list" where
  "significant fs =
     filter (\<lambda>(s, m). s \<noteq> [])
       (map (\<lambda>f. (normalize_symbol (fr_symbol f), fr_module f))
         (filter (\<lambda>f. \<not> fr_questionable f) fs))"

definition protocol_frames :: "frame list \<Rightarrow> ustr list" where
  "protocol_frames fs =
     take SIGNATURE_FRAMES (dropWhile is_machinery (map fst (significant fs)))"

definition protocol_modules :: "frame list \<Rightarrow> ustr list" where
  "protocol_modules fs = foldl push_new [] (List.map_filter snd (significant fs))"

definition protocol_signature ::
    "(byte list \<Rightarrow> ustr) \<Rightarrow> ustr \<Rightarrow> ustr \<Rightarrow> frame list \<Rightarrow> crash_signature" where
  "protocol_signature digest_hex kind exception_line fs =
     (let exception = normalize_exception exception_line in
      \<lparr>cs_signature =
         digest_hex (as_bytes (signature_input kind exception (protocol_frames fs))),
       cs_title = (if protocol_frames fs = [] then exception else hd (protocol_frames fs)),
       cs_modules = protocol_modules fs\<rparr>)"

lemma significant_Nil [simp]: "significant [] = []"
  by (simp add: significant_def)

lemma significant_Cons:
  "significant (f # fs) =
     (if fr_questionable f \<or> normalize_symbol (fr_symbol f) = [] then significant fs
      else (normalize_symbol (fr_symbol f), fr_module f) # significant fs)"
  by (auto simp: significant_def)

lemma map_filter_Cons_snd:
  "List.map_filter snd ((s, m) # xs) =
     (case m of None \<Rightarrow> List.map_filter snd xs | Some x \<Rightarrow> x # List.map_filter snd xs)"
  by (auto simp: List.map_filter_simps split: option.splits)

lemma foldl_compute_modules:
  "ss_modules (foldl compute_step st fs) =
     foldl push_new (ss_modules st) (List.map_filter snd (significant fs))"
  by (induction fs arbitrary: st)
    (auto simp: compute_step_def Let_def significant_Cons map_filter_Cons_snd add_module_def
      List.map_filter_simps split: option.splits)

lemma foldl_compute_frames_seen:
  "ss_seen_real st \<Longrightarrow>
     ss_frames (foldl compute_step st fs) =
       ss_frames st @ take (SIGNATURE_FRAMES - length (ss_frames st)) (map fst (significant fs))"
proof (induction fs arbitrary: st)
  case Nil
  then show ?case by simp
next
  case (Cons f fs)
  show ?case
  proof (cases "fr_questionable f \<or> normalize_symbol (fr_symbol f) = []")
    case True
    with Cons show ?thesis by (auto simp: compute_step_def significant_Cons Let_def)
  next
    case False
    let ?st = "compute_step st f"
    have seen: "ss_seen_real ?st"
      using False Cons.prems by (auto simp: compute_step_def Let_def)
    have fr: "ss_frames ?st = ss_frames st @
        (if length (ss_frames st) < SIGNATURE_FRAMES then [normalize_symbol (fr_symbol f)] else [])"
      using False Cons.prems by (auto simp: compute_step_def Let_def)
    show ?thesis
      using Cons.IH [OF seen] fr False by (auto simp: significant_Cons take_Cons' Suc_diff_Suc)
  qed
qed

lemma foldl_compute_frames_start:
  "\<not> ss_seen_real st \<Longrightarrow> ss_frames st = [] \<Longrightarrow>
     ss_frames (foldl compute_step st fs) = protocol_frames fs"
proof (induction fs arbitrary: st)
  case Nil
  then show ?case by (simp add: protocol_frames_def)
next
  case (Cons f fs)
  show ?case
  proof (cases "fr_questionable f \<or> normalize_symbol (fr_symbol f) = []
      \<or> is_machinery (normalize_symbol (fr_symbol f))")
    case True
    then have "\<not> ss_seen_real (compute_step st f)" "ss_frames (compute_step st f) = []"
      using Cons.prems by (auto simp: compute_step_def Let_def)
    with True show ?thesis
      using Cons.IH [of "compute_step st f"] by (auto simp: protocol_frames_def significant_Cons)
  next
    case False
    let ?st = "compute_step st f"
    have "ss_seen_real ?st" "ss_frames ?st = [normalize_symbol (fr_symbol f)]"
      using False Cons.prems by (auto simp: compute_step_def Let_def SIGNATURE_FRAMES_def)
    with False show ?thesis
      using foldl_compute_frames_seen [of ?st fs]
      by (simp add: protocol_frames_def significant_Cons SIGNATURE_FRAMES_def)
  qed
qed

lemma compute_eq_protocol:
  "compute digest_hex kind exception_line fs =
     protocol_signature digest_hex kind exception_line fs"
proof -
  let ?s0 = "\<lparr>ss_frames = [], ss_modules = [], ss_seen_real = False\<rparr>"
  have "ss_frames (foldl compute_step ?s0 fs) = protocol_frames fs"
    by (rule foldl_compute_frames_start) simp_all
  moreover have "ss_modules (foldl compute_step ?s0 fs) = protocol_modules fs"
    by (simp add: foldl_compute_modules protocol_modules_def)
  ultimately show ?thesis
    by (simp add: compute_def protocol_signature_def Let_def hd_conv_nth split: list.split)
qed


subsection \<open>Stability of the grouping\<close>

text \<open>A frame whose symbol carries an offset suffix.\<close>

definition with_offset :: "frame \<Rightarrow> ustr \<Rightarrow> frame" where
  "with_offset f off = f\<lparr>fr_symbol := fr_symbol f @ lit ''+0x'' @ off\<rparr>"

lemma significant_offsets:
  "significant (map (\<lambda>(f, a, b). with_offset f a) xs) =
     significant (map (\<lambda>(f, a, b). with_offset f b) xs)"
proof (induction xs)
  case Nil
  then show ?case by simp
next
  case (Cons x xs)
  obtain f a b where x: "x = (f, a, b)" by (cases x)
  have "normalize_symbol (fr_symbol (with_offset f a)) = normalize_symbol (fr_symbol (with_offset f b))"
    unfolding with_offset_def using normalize_symbol_offset [of "fr_symbol f" a b] by simp
  with Cons x show ?case by (simp add: significant_Cons with_offset_def)
qed

text \<open>C19. Two logs of the same crash fall into the same group: if the exception lines agree
  word for word except where both have an address or a hexadecimal id, and the frames agree
  except for what follows \<open>+0x\<close> in their symbols, then signature, title and modules are
  equal.\<close>

theorem same_crash_same_signature:
  assumes "list_all2 same_token (split_whitespace line1) (split_whitespace line2)"
  shows "compute digest_hex kind line1 (map (\<lambda>(f, a, b). with_offset f a) xs) =
         compute digest_hex kind line2 (map (\<lambda>(f, a, b). with_offset f b) xs)"
proof -
  have "normalize_exception line1 = normalize_exception line2"
    using normalize_exception_loop_same [OF assms] by (simp add: normalize_exception_def)
  moreover have "protocol_frames (map (\<lambda>(f, a, b). with_offset f a) xs) =
      protocol_frames (map (\<lambda>(f, a, b). with_offset f b) xs)"
    by (simp only: protocol_frames_def significant_offsets)
  moreover have "protocol_modules (map (\<lambda>(f, a, b). with_offset f a) xs) =
      protocol_modules (map (\<lambda>(f, a, b). with_offset f b) xs)"
    by (simp only: protocol_modules_def significant_offsets)
  ultimately show ?thesis
    by (simp only: compute_eq_protocol protocol_signature_def)
qed

theorem same_crash_same_signature_witness:
  "compute (\<lambda>bs. lit ''h'') (lit ''kernel_oops'') (lit ''Internal error: Oops - BUG: 00000000f2000800 [#1] SMP'')
     (map (\<lambda>(f, a, b). with_offset f a)
       [(\<lparr>fr_symbol = lit ''tcf_mirred_act'', fr_module = Some (lit ''act_mirred''),
          fr_questionable = False\<rparr>, lit ''c8/0x1e8'', lit ''44/0x2d0'')]) =
   compute (\<lambda>bs. lit ''h'') (lit ''kernel_oops'') (lit ''Internal error: Oops - BUG: 00000000deadbeef [#1] SMP'')
     (map (\<lambda>(f, a, b). with_offset f b)
       [(\<lparr>fr_symbol = lit ''tcf_mirred_act'', fr_module = Some (lit ''act_mirred''),
          fr_questionable = False\<rparr>, lit ''c8/0x1e8'', lit ''44/0x2d0'')])"
proof (rule same_crash_same_signature)
  show "list_all2 same_token
      (split_whitespace (lit ''Internal error: Oops - BUG: 00000000f2000800 [#1] SMP''))
      (split_whitespace (lit ''Internal error: Oops - BUG: 00000000deadbeef [#1] SMP''))"
    by code_simp
qed

text \<open>C23. A normalised symbol is free of offsets and of every compiler suffix, and nothing
  else was removed: it is the trimmed symbol itself, or the part of it that ends where one of
  the cut patterns begins.\<close>

theorem normalize_symbol_exact:
  "list_all (\<lambda>p. \<not> sublist p (normalize_symbol s)) symbol_cuts
     \<and> cut_of symbol_cuts (normalize_symbol s) (trim s)"
  by (simp add: normalize_symbol_free normalize_symbol_cut)

text \<open>C24. No address, long hexadecimal id, die counter or time stamp survives among the words
  of a normalised exception line.\<close>

theorem normalize_exception_noise_free:
  "list_all (\<lambda>t. \<not> is_address t \<and> \<not> is_counter t)
     (split_whitespace (normalize_exception line))"
proof -
  have "list_all noise_free (split_whitespace (normalize_exception line))"
    unfolding normalize_exception_def
    by (rule normalize_exception_loop_noise_free) (auto dest: split_whitespace_word)
  moreover have "noise_free = (\<lambda>t. \<not> is_address t \<and> \<not> is_counter t)"
    by (simp add: fun_eq_iff noise_free_def)
  ultimately show ?thesis by simp
qed

subsection \<open>The oops parser\<close>

definition has_marker :: "ustr \<Rightarrow> bool" where
  "has_marker line \<longleftrightarrow> list_ex (\<lambda>m. sublist m line) markers"

lemma marker_loop_eq:
  "marker_loop ms line (e, fs) =
     (if list_ex (\<lambda>m. sublist m line) ms then
        (if fs \<noteq> [] then (Some line, []) else if e = None then (Some line, fs) else (e, fs))
      else (e, fs))"
  by (induction ms) auto

lemma mark_section_eq:
  "mark_section st line =
     (if has_marker line then
        (if os_frames st \<noteq> [] then st\<lparr>os_exception := Some line, os_frames := []\<rparr>
         else if os_exception st = None then st\<lparr>os_exception := Some line\<rparr> else st)
      else st)"
  by (cases st) (auto simp: mark_section_def marker_loop_eq has_marker_def)

lemma parse_oops_lines_append:
  "parse_oops_lines (a @ b) = foldl oops_step (parse_oops_lines a) b"
  by (simp add: parse_oops_lines_def)

text \<open>A marker line after collected frames restarts the parser.\<close>

lemma oops_step_restart:
  assumes "os_frames st \<noteq> []" "\<not> os_in_trace st" "has_marker (strip_printk_prefix l)"
  shows "oops_step st l = oops_step oops_init l"
  using assms by (cases st) (simp add: oops_step_def mark_section_eq oops_init_def Let_def)

text \<open>C21. The last crash section wins: once frames have been collected and their trace has
  ended, a line with a crash marker makes everything before it irrelevant, for the exception
  line and for the frames.\<close>

theorem last_section_wins:
  assumes "os_frames (parse_oops_lines (str_lines (a @ [10]))) \<noteq> []"
    and "\<not> os_in_trace (parse_oops_lines (str_lines (a @ [10])))"
    and "str_lines b = l # rest" and "has_marker (strip_printk_prefix l)"
  shows "parse_oops (a @ 10 # b) = parse_oops b"
proof -
  have "parse_oops_lines (str_lines (a @ 10 # b)) = parse_oops_lines (str_lines b)"
    using assms oops_step_restart [OF assms(1,2,4)]
    by (simp add: str_lines_append [of a b] parse_oops_lines_append) (simp add: parse_oops_lines_def)
  then show ?thesis by (simp add: parse_oops_def)
qed

text \<open>The log of the repository's test \<open>last_crash_section_wins\<close>, shortened: an old warning,
  then the fatal oops.\<close>

definition warning_log :: ustr where
  "warning_log = lit ''<4>[  675.75] WARNING: CPU: 0 PID: 3157 at lkdtm_WARNING+0x1c/0x24 [lkdtm]'' @ [10]
     @ lit ''<7>[  675.92] Call trace:'' @ [10]
     @ lit ''<7>[  675.93]  lkdtm_WARNING+0x1c/0x24 [lkdtm] (P)'' @ [10]
     @ lit ''<4>[  675.97] ---[ end trace 0000000000000000 ]---''"

definition oops_log :: ustr where
  "oops_log = lit ''<1>[  723.31] Unable to handle kernel access to user memory'' @ [10]
     @ lit ''<0>[  723.40] Internal error: Oops: 0000000096000045 [#1]  SMP'' @ [10]
     @ lit ''<7>[  723.58] Call trace:'' @ [10]
     @ lit ''<7>[  723.59]  lkdtm_EXCEPTION+0x4/0xc [lkdtm] (P)'' @ [10]
     @ lit ''<7>[  723.60]  direct_entry+0x1a8/0x1e0 [lkdtm]'' @ [10]
     @ lit ''<4>[  723.65] ---[ end trace 0000000000000000 ]---'' @ [10]"

theorem last_section_wins_witness:
  "parse_oops (warning_log @ 10 # oops_log) = parse_oops oops_log
     \<and> map_option fst (parse_oops oops_log) = Some (lit ''Unable to handle kernel access to user memory'')"
proof -
  have "os_frames (parse_oops_lines (str_lines (warning_log @ [10]))) \<noteq> []" by code_simp
  moreover have "\<not> os_in_trace (parse_oops_lines (str_lines (warning_log @ [10])))" by code_simp
  moreover have "str_lines oops_log = hd (str_lines oops_log) # tl (str_lines oops_log)" by code_simp
  moreover have "has_marker (strip_printk_prefix (hd (str_lines oops_log)))" by code_simp
  ultimately have "parse_oops (warning_log @ 10 # oops_log) = parse_oops oops_log"
    by (rule last_section_wins)
  moreover have "map_option fst (parse_oops oops_log) = Some (lit ''Unable to handle kernel access to user memory'')"
    by code_simp
  ultimately show ?thesis by simp
qed

lemma trace_line_exception [simp]: "os_exception (trace_line st l) = os_exception st"
  by (simp add: trace_line_def Let_def split: prod.split)

lemma oops_step_exception:
  "os_exception (oops_step st l) = None \<longleftrightarrow>
     os_exception st = None \<and> \<not> has_marker (strip_printk_prefix l)"
  by (auto simp: oops_step_def Let_def mark_section_eq)

text \<open>The parser recognises a crash exactly when some line of the text, with its log
  prefix removed, carries one of the markers.\<close>

theorem parse_oops_none_iff:
  "parse_oops text = None \<longleftrightarrow>
     list_all (\<lambda>l. \<not> has_marker (strip_printk_prefix l)) (str_lines text)"
proof -
  have "os_exception (foldl oops_step st ls) = None \<longleftrightarrow>
      os_exception st = None \<and> list_all (\<lambda>l. \<not> has_marker (strip_printk_prefix l)) ls" for st ls
    by (induction ls arbitrary: st) (auto simp: oops_step_exception)
  then show ?thesis
    by (simp add: parse_oops_def parse_oops_lines_def Let_def oops_init_def)
qed

text \<open>Parts of a line that the frame parser works on.\<close>

lemma sublist_trim_start_matches: "sublist (trim_start_matches p s) s"
proof (induction p s rule: trim_start_matches.induct)
  case (1 p s)
  show ?case
  proof (cases "p \<noteq> [] \<and> prefix p s")
    case True
    with "1.IH" have "sublist (trim_start_matches p (drop (length p) s)) (drop (length p) s)"
      by simp
    then have "sublist (trim_start_matches p (drop (length p) s)) s"
      using sublist_drop sublist_order.order.trans by blast
    with True show ?thesis by (simp add: trim_start_matches.simps [of p s])
  next
    case False
    then have "trim_start_matches p s = s" by (subst trim_start_matches.simps) auto
    then show ?thesis by simp
  qed
qed

lemma prefix_strip_frame_markers: "prefix (strip_frame_markers line) line"
proof (induction line rule: strip_frame_markers.induct)
  case (1 line)
  show ?case
  proof (cases "\<exists>rest marker. suffix (lit '')'') line
      \<and> rsplit_once (lit '' ('') line = Some (rest, marker) \<and> str_len marker \<le> 3")
    case True
    then obtain rest marker where r: "suffix (lit '')'') line"
      "rsplit_once (lit '' ('') line = Some (rest, marker)" "str_len marker \<le> 3" by blast
    with "1.IH" have "prefix (strip_frame_markers (trim_end rest)) (trim_end rest)" by blast
    moreover have "prefix (trim_end rest) rest" by (simp add: trim_end_def prefix_trim_end_by)
    moreover have "prefix rest line" using rsplit_once_Some [OF r(2)] by simp
    ultimately have "prefix (strip_frame_markers (trim_end rest)) line"
      using prefix_order.trans by blast
    with r show ?thesis by (simp add: strip_frame_markers.simps [of line])
  next
    case False
    then have "strip_frame_markers line = line"
      by (subst strip_frame_markers.simps) (auto split: option.split)
    then show ?thesis by simp
  qed
qed

lemma prefix_split_module: "prefix (fst (split_module line)) line"
  by (auto simp: split_module_def split: option.split dest: split_once_Some)

lemma sublist_sym_part:
  "sublist (fst (split_module (strip_frame_markers (trim (trim_start_matches p line))))) line"
  by (meson prefix_imp_sublist prefix_split_module prefix_strip_frame_markers sublist_trim
      sublist_trim_start_matches sublist_order.order.trans)

lemma trace_line_no_offset:
  "\<not> sublist (lit ''+0x'') line \<Longrightarrow> trace_line st line = st\<lparr>os_in_trace := False\<rparr>"
  using sublist_sym_part [of "lit ''? ''" line]
  by (auto simp: trace_line_def Let_def split: prod.split dest: sublist_order.order.trans)

lemma str_lines_last: "10 \<notin> set l \<Longrightarrow> l \<noteq> [] \<Longrightarrow> str_lines l = [l]"
proof -
  have "10 \<notin> set l \<Longrightarrow> lines_from cur l = (if cur @ l = [] then [] else [cur @ l])" for cur
    by (induction l arbitrary: cur) auto
  then show "10 \<notin> set l \<Longrightarrow> l \<noteq> [] \<Longrightarrow> str_lines l = [l]" by (simp add: str_lines_def)
qed

text \<open>Every frame the parser returns has an offset in its symbol, and the exception line it
  returns is a line of the text with its log prefix removed that carries a marker.\<close>

theorem parse_oops_wellformed:
  assumes "parse_oops text = Some (e, fs)"
  shows "has_marker e \<and> e \<in> strip_printk_prefix ` set (str_lines text)
    \<and> list_all (\<lambda>f. sublist (lit ''+0x'') (fr_symbol f)) fs"
proof -
  let ?I = "\<lambda>st :: oops_state. list_all (\<lambda>f. sublist (lit ''+0x'') (fr_symbol f)) (os_frames st)
    \<and> (\<forall>e. os_exception st = Some e \<longrightarrow>
          has_marker e \<and> e \<in> strip_printk_prefix ` set (str_lines text))"
  have "?I (parse_oops_lines (str_lines text))"
    unfolding parse_oops_lines_def
  proof (rule foldl_invariant)
    show "?I oops_init" by (simp add: oops_init_def)
  next
    fix st :: oops_state and l assume I: "?I st" and l: "l \<in> set (str_lines text)"
    let ?line = "strip_printk_prefix l"
    have m: "?I (mark_section st ?line)" using I l by (auto simp: mark_section_eq)
    moreover have "os_in_trace (mark_section st ?line) \<Longrightarrow> ?I (trace_line (mark_section st ?line) ?line)"
      using m by (auto simp: trace_line_def Let_def split: prod.split)
    ultimately show "?I (oops_step st l)" by (auto simp: oops_step_def Let_def)
  qed
  with assms show ?thesis by (auto simp: parse_oops_def Let_def)
qed

theorem parse_oops_wellformed_witness:
  "\<exists>e fs. parse_oops oops_log = Some (e, fs) \<and> has_marker e \<and> length fs = 2
     \<and> list_all (\<lambda>f. sublist (lit ''+0x'') (fr_symbol f)) fs"
proof -
  have "map_option (length \<circ> snd) (parse_oops oops_log) = Some 2" by code_simp
  then obtain e fs where p: "parse_oops oops_log = Some (e, fs)" "length fs = 2" by auto
  from parse_oops_wellformed [OF p(1)] p show ?thesis by blast
qed

text \<open>C22. A marker anywhere after the trace discards the trace: when frames were collected and a
  last line carries a marker but no frame, the result is that line and no frame at all, so the
  group of the report depends on that line alone. The kernel ends every fatal oops with such a
  line.\<close>

theorem late_marker_loses_trace:
  assumes "os_frames (parse_oops_lines (str_lines (a @ [10]))) \<noteq> []"
    and "10 \<notin> set l" and "has_marker (strip_printk_prefix l)"
    and "\<not> is_trace_header (strip_printk_prefix l)"
    and "\<not> sublist (lit ''+0x'') (strip_printk_prefix l)"
  shows "parse_oops (a @ 10 # l) = Some (strip_printk_prefix l, [])
    \<and> cs_title (compute digest_hex kind (strip_printk_prefix l) [])
        = normalize_exception (strip_printk_prefix l)"
proof -
  have "\<not> has_marker (strip_printk_prefix [])" by code_simp
  with assms(3) have "l \<noteq> []" by auto
  with assms(2) have "str_lines l = [l]" by (simp add: str_lines_last)
  then have "parse_oops_lines (str_lines (a @ 10 # l)) =
      oops_step (parse_oops_lines (str_lines (a @ [10]))) l"
    by (simp add: str_lines_append [of a l] parse_oops_lines_append)
  moreover have "os_exception (oops_step st l) = Some (strip_printk_prefix l)
      \<and> os_frames (oops_step st l) = []" if "os_frames st \<noteq> []" for st
    using that assms(3-5) by (simp add: oops_step_def mark_section_eq trace_line_no_offset Let_def)
  ultimately have "parse_oops (a @ 10 # l) = Some (strip_printk_prefix l, [])"
    using assms(1) by (simp add: parse_oops_def Let_def)
  then show ?thesis by (simp add: compute_def Let_def)
qed

theorem late_marker_loses_trace_witness:
  "parse_oops (warning_log @ 10 # lit ''<0>[  676.01] Kernel panic - not syncing: Oops: Fatal exception'')
     = Some (lit ''Kernel panic - not syncing: Oops: Fatal exception'', [])"
proof -
  let ?l = "lit ''<0>[  676.01] Kernel panic - not syncing: Oops: Fatal exception''"
  have l: "strip_printk_prefix ?l = lit ''Kernel panic - not syncing: Oops: Fatal exception''"
    by code_simp
  have "os_frames (parse_oops_lines (str_lines (warning_log @ [10]))) \<noteq> []" by code_simp
  moreover have "10 \<notin> set ?l" by code_simp
  moreover have "has_marker (strip_printk_prefix ?l)" by code_simp
  moreover have "\<not> is_trace_header (strip_printk_prefix ?l)" by code_simp
  moreover have "\<not> sublist (lit ''+0x'') (strip_printk_prefix ?l)" by code_simp
  ultimately show ?thesis
    using late_marker_loses_trace [of warning_log ?l "\<lambda>_. []" "[]"] unfolding l by blast
qed

subsection \<open>Different crashes, different signatures\<close>

definition sep_free :: "ustr \<Rightarrow> bool" where
  "sep_free s \<longleftrightarrow> 124 \<notin> set s"

lemma split_sep_word [simp]: "sep_free w \<Longrightarrow> split_by (\<lambda>c. c = 124) w = [w]"
  by (rule split_by_word) (auto simp: sep_free_def)

lemma join_with_Cons: "ws \<noteq> [] \<Longrightarrow> join_with sep (w # ws) = w @ sep @ join_with sep ws"
  by (cases ws) simp_all

lemma split_by_join:
  "ws \<noteq> [] \<Longrightarrow> list_all sep_free ws \<Longrightarrow> split_by (\<lambda>c. c = 124) (join_with (lit ''|'') ws) = ws"
proof (induction ws rule: list_nonempty_induct)
  case (single w)
  then show ?case by simp
next
  case (cons w ws)
  then show ?case by (simp add: join_with_Cons split_by_append)
qed

lemma split_signature_input:
  assumes "sep_free kind" "sep_free e" "list_all sep_free fs"
  shows "split_by (\<lambda>c. c = 124) (signature_input kind e fs) =
    kind # e # (if fs = [] then [[]] else fs)"
  using assms split_by_join [of fs] by (simp add: signature_input_def split_by_append)

lemma signature_input_inject:
  assumes "sep_free k1" "sep_free e1" "list_all sep_free fs1" "[] \<notin> set fs1"
    and "sep_free k2" "sep_free e2" "list_all sep_free fs2" "[] \<notin> set fs2"
    and "signature_input k1 e1 fs1 = signature_input k2 e2 fs2"
  shows "k1 = k2 \<and> e1 = e2 \<and> fs1 = fs2"
proof -
  have "k1 # e1 # (if fs1 = [] then [[]] else fs1) = k2 # e2 # (if fs2 = [] then [[]] else fs2)"
    using split_signature_input [OF assms(1-3)] split_signature_input [OF assms(5-7)] assms(9)
    by simp
  with assms(4,8) show ?thesis by (cases "fs1 = []"; cases "fs2 = []") auto
qed

lemma as_bytes_inject:
  "list_all scalar a \<Longrightarrow> list_all scalar b \<Longrightarrow> as_bytes a = as_bytes b \<Longrightarrow> a = b"
  by (metis lossy_roundtrip)

lemma protocol_frames_nonempty: "[] \<notin> set (protocol_frames fs)"
  by (auto simp: protocol_frames_def significant_def dest!: in_set_takeD set_dropWhileD)

lemma cs_signature_compute:
  "cs_signature (compute digest_hex kind l fs) =
     digest_hex (as_bytes (signature_input kind (normalize_exception l) (protocol_frames fs)))"
  by (simp add: compute_eq_protocol protocol_signature_def Let_def)

text \<open>C20. Reports in one group are reports of one crash: if the hash does not collide on the
  two inputs and no field contains the separator, then equal signatures mean equal kinds, equal
  normalised exception lines and equal frame lists.\<close>

theorem equal_signature_same_crash:
  assumes "inj_on digest_hex
      {as_bytes (signature_input k1 (normalize_exception l1) (protocol_frames fs1)),
       as_bytes (signature_input k2 (normalize_exception l2) (protocol_frames fs2))}"
    and "list_all scalar (signature_input k1 (normalize_exception l1) (protocol_frames fs1))"
    and "list_all scalar (signature_input k2 (normalize_exception l2) (protocol_frames fs2))"
    and "list_all sep_free (k1 # normalize_exception l1 # protocol_frames fs1)"
    and "list_all sep_free (k2 # normalize_exception l2 # protocol_frames fs2)"
    and "cs_signature (compute digest_hex k1 l1 fs1) = cs_signature (compute digest_hex k2 l2 fs2)"
  shows "k1 = k2 \<and> normalize_exception l1 = normalize_exception l2
    \<and> protocol_frames fs1 = protocol_frames fs2"
proof (rule signature_input_inject)
  show "signature_input k1 (normalize_exception l1) (protocol_frames fs1)
      = signature_input k2 (normalize_exception l2) (protocol_frames fs2)"
  proof (rule as_bytes_inject [OF assms(2,3)])
    show "as_bytes (signature_input k1 (normalize_exception l1) (protocol_frames fs1)) =
        as_bytes (signature_input k2 (normalize_exception l2) (protocol_frames fs2))"
    proof (rule inj_onD [OF assms(1)])
      show "digest_hex (as_bytes (signature_input k1 (normalize_exception l1) (protocol_frames fs1)))
          = digest_hex (as_bytes (signature_input k2 (normalize_exception l2) (protocol_frames fs2)))"
        using assms(6) by (simp only: cs_signature_compute)
    qed (rule insertI1, rule insertI2, rule singletonI)
  qed
qed (use assms(4,5) in \<open>simp_all add: protocol_frames_nonempty\<close>)

theorem equal_signature_same_crash_witness:
  "normalize_exception (lit ''Oops: 0000000096000045 [#1]'') = normalize_exception (lit ''Oops: 00000000deadbeef [#2]'')"
proof -
  let ?d = "map uint :: byte list \<Rightarrow> int list"
  let ?f1 = "[\<lparr>fr_symbol = lit ''foo+0x1/0x2'', fr_module = None, fr_questionable = False\<rparr>]"
  let ?f2 = "[\<lparr>fr_symbol = lit ''foo+0x3/0x4'', fr_module = None, fr_questionable = False\<rparr>]"
  let ?l1 = "lit ''Oops: 0000000096000045 [#1]''"
  let ?l2 = "lit ''Oops: 00000000deadbeef [#2]''"
  let ?k = "lit ''pstore''"
  have n: "normalize_exception ?l1 = lit ''Oops:''" "normalize_exception ?l2 = lit ''Oops:''"
    and p: "protocol_frames ?f1 = [lit ''foo'']" "protocol_frames ?f2 = [lit ''foo'']"
    by code_simp+
  have "inj ?d" by (intro inj_mapI) (simp add: inj_on_def word_uint_eq_iff)
  then have "inj_on ?d A" for A by (rule inj_on_subset) simp
  moreover have "list_all scalar (signature_input ?k (lit ''Oops:'') [lit ''foo''])" by code_simp
  moreover have "list_all sep_free (?k # lit ''Oops:'' # [lit ''foo''])" by code_simp
  moreover have "cs_signature (compute ?d ?k ?l1 ?f1) = cs_signature (compute ?d ?k ?l2 ?f2)"
    by (simp only: cs_signature_compute n p)
  ultimately show ?thesis
    using equal_signature_same_crash [of ?d ?k ?l1 ?f1 ?k ?l2 ?f2] unfolding n p by blast
qed

end
