(* ===== verification/Report_Types.thy ===== *)
theory Report_Types
  imports Rust_Str
begin

text \<open>
  The wire types of \<open>crates/ucrs-common/src/types.rs\<close>: report kinds, payload encodings with
  their textual form, and the report metadata with the kernel build hash derived from it. The
  JSON (de)serialisation of these types is the external crate serde.
\<close>

definition FORMAT_VERSION :: u32 where
  "FORMAT_VERSION = 1"

definition MAX_METADATA_SIZE :: nat where
  "MAX_METADATA_SIZE = 4 * 1024"

definition MAX_PAYLOAD_SIZE :: nat where
  "MAX_PAYLOAD_SIZE = 256 * 1024"

datatype report_kind = KernelOops | Pstore

fun report_kind_as_str :: "report_kind \<Rightarrow> ustr" where
  "report_kind_as_str KernelOops = lit ''kernel_oops''"
| "report_kind_as_str Pstore = lit ''pstore''"

text \<open>\<open>PayloadEncoding\<close>; its \<open>None\<close> is \<open>Enc_None\<close> here.\<close>

datatype payload_encoding = Enc_None | Gzip | Zstd | Zlib

fun payload_encoding_as_str :: "payload_encoding \<Rightarrow> ustr" where
  "payload_encoding_as_str Enc_None = lit ''none''"
| "payload_encoding_as_str Gzip = lit ''gzip''"
| "payload_encoding_as_str Zstd = lit ''zstd''"
| "payload_encoding_as_str Zlib = lit ''zlib''"

text \<open>\<open>FromStr\<close>: the error is the message.\<close>

definition payload_encoding_from_str :: "ustr \<Rightarrow> ustr + payload_encoding" where
  "payload_encoding_from_str s =
     (if s = lit ''none'' then Inr Enc_None
      else if s = lit ''gzip'' then Inr Gzip
      else if s = lit ''zstd'' then Inr Zstd
      else if s = lit ''zlib'' then Inr Zlib
      else Inl (lit ''unknown payload encoding '' @ s))"

record openwrt_info =
  ow_version :: ustr
  ow_revision :: ustr
  ow_target :: ustr
  ow_arch :: ustr

record report_metadata =
  md_format :: u32
  md_kind :: report_kind
  md_uuid :: ustr
  md_captured_at :: int
  md_openwrt :: openwrt_info
  md_board :: ustr
  md_kernel :: ustr
  md_kernel_buildid :: "ustr option"
  md_payload_sha256 :: ustr
  md_payload_encoding :: payload_encoding

text \<open>The part of the kernel version between \<open>~\<close> and the next \<open>-\<close>. \<open>split('-').next()\<close> always
  yields a piece.\<close>

definition kernel_buildhash :: "report_metadata \<Rightarrow> ustr option" where
  "kernel_buildhash m =
     (case split_once (lit ''~'') (md_kernel m) of
        None \<Rightarrow> None
      | Some (_, rest) \<Rightarrow>
          let hash = hd (split_by (\<lambda>c. c = 45) rest)
          in if hash \<noteq> [] then Some hash else None)"

subsection \<open>Textual forms\<close>

lemma payload_encoding_lit:
  "payload_encoding_from_str (payload_encoding_as_str e) = Inr e"
  by (cases e) (simp_all add: payload_encoding_from_str_def)

lemma payload_encoding_from_strD:
  "payload_encoding_from_str s = Inr e \<Longrightarrow> s = payload_encoding_as_str e"
  by (auto simp: payload_encoding_from_str_def split: if_splits)

text \<open>The textual form of a payload encoding and its parser are inverse to each other: the
  parser accepts exactly the four names, each as the encoding that prints it, and reports every
  other text in its error.\<close>

theorem payload_encoding_roundtrip:
  "(payload_encoding_from_str s = Inr e \<longleftrightarrow> s = payload_encoding_as_str e)
   \<and> (payload_encoding_from_str s = Inl msg \<longleftrightarrow>
        s \<notin> range payload_encoding_as_str \<and> msg = lit ''unknown payload encoding '' @ s)"
proof
  show "payload_encoding_from_str s = Inr e \<longleftrightarrow> s = payload_encoding_as_str e"
    using payload_encoding_lit payload_encoding_from_strD by blast
  show "payload_encoding_from_str s = Inl msg \<longleftrightarrow>
        s \<notin> range payload_encoding_as_str \<and> msg = lit ''unknown payload encoding '' @ s"
  proof (cases "payload_encoding_from_str s")
    case (Inr d)
    then have "s = payload_encoding_as_str d" by (rule payload_encoding_from_strD)
    with Inr show ?thesis by auto
  next
    case (Inl m)
    then have "m = lit ''unknown payload encoding '' @ s"
      by (auto simp only: payload_encoding_from_str_def sum.inject sum.distinct split: if_splits)
    moreover have "s \<notin> range payload_encoding_as_str"
      using Inl payload_encoding_lit by auto
    ultimately show ?thesis using Inl by auto
  qed
qed

subsection \<open>The kernel build hash\<close>

lemma split_by_hd:
  "\<exists>rest. s = hd (split_by P s) @ rest \<and> (rest = [] \<or> P (hd rest))
     \<and> (\<forall>c\<in>set (hd (split_by P s)). \<not> P c)"
proof (induction s)
  case Nil
  then show ?case by simp
next
  case (Cons c s)
  show ?case
  proof (cases "P c")
    case True
    then show ?thesis by simp
  next
    case False
    obtain w ws where w: "split_by P s = w # ws" by (cases "split_by P s") auto
    with Cons.IH False show ?thesis by auto
  qed
qed

lemma split_by_hd_eq:
  "(\<forall>c\<in>set h. \<not> P c) \<Longrightarrow> rest = [] \<or> P (hd rest) \<Longrightarrow> hd (split_by P (h @ rest)) = h"
proof (induction h)
  case Nil
  then show ?case by (cases rest) auto
next
  case (Cons c h)
  then show ?case by (cases "split_by P (h @ rest)") auto
qed

lemma split_once_char:
  "split_once [c] s = Some (a, b) \<longleftrightarrow> s = a @ c # b \<and> c \<notin> set a"
proof (induction s arbitrary: a)
  case Nil
  then show ?case by simp
next
  case (Cons d s)
  then show ?case by (cases a) auto
qed

text \<open>The build hash is present exactly when the kernel version has the form
  \<open>pre~hash\<close> or \<open>pre~hash-...\<close>, with the first \<open>~\<close> and a nonempty hash without \<open>-\<close>; it is
  that hash.\<close>

theorem kernel_buildhash_iff:
  "kernel_buildhash m = Some h \<longleftrightarrow>
     h \<noteq> [] \<and> 45 \<notin> set h
     \<and> (\<exists>pre rest. md_kernel m = pre @ lit ''~'' @ h @ rest \<and> 126 \<notin> set pre
          \<and> (rest = [] \<or> hd rest = 45))"
proof
  assume "kernel_buildhash m = Some h"
  then obtain pre r where s: "split_once [126] (md_kernel m) = Some (pre, r)"
    and h: "h = hd (split_by (\<lambda>c. c = 45) r)" "h \<noteq> []"
    by (auto simp: kernel_buildhash_def Let_def split: option.splits if_splits)
  from split_by_hd [of r "\<lambda>c. c = 45"] h
  obtain rest where r: "r = h @ rest" "rest = [] \<or> hd rest = 45" "\<forall>c\<in>set h. c \<noteq> 45" by auto
  from s have pre: "md_kernel m = pre @ 126 # r" "126 \<notin> set pre" by (simp_all add: split_once_char)
  from pre(1) r(1) have "md_kernel m = pre @ lit ''~'' @ h @ rest" by simp
  with h(2) r(2,3) pre(2) show "h \<noteq> [] \<and> 45 \<notin> set h
     \<and> (\<exists>pre rest. md_kernel m = pre @ lit ''~'' @ h @ rest \<and> 126 \<notin> set pre
          \<and> (rest = [] \<or> hd rest = 45))"
    by blast
next
  assume "h \<noteq> [] \<and> 45 \<notin> set h
     \<and> (\<exists>pre rest. md_kernel m = pre @ lit ''~'' @ h @ rest \<and> 126 \<notin> set pre
          \<and> (rest = [] \<or> hd rest = 45))"
  then obtain pre rest where k: "md_kernel m = pre @ 126 # h @ rest" "126 \<notin> set pre"
    and h: "rest = [] \<or> hd rest = 45" "h \<noteq> []" "\<forall>c\<in>set h. c \<noteq> 45" by auto
  from k have "split_once [126] (md_kernel m) = Some (pre, h @ rest)"
    by (simp add: split_once_char)
  moreover have "hd (split_by (\<lambda>c. c = 45) (h @ rest)) = h"
    using split_by_hd_eq [of h "\<lambda>c. c = 45" rest] h(1,3) by blast
  ultimately show "kernel_buildhash m = Some h"
    using h(2) by (simp add: kernel_buildhash_def)
qed

end
