(* ===== verification/Usign.thy ===== *)
theory Usign
  imports Rust_Str
begin

text \<open>
  Verification of usign signatures, \<open>crates/ucrs-common/src/usign.rs\<close>. Base64 decoding and
  the Ed25519 operations are external crates: the fields of \<open>usign_env\<close>, over an abstract
  type \<open>'k\<close> of verifying keys.
\<close>

record 'k usign_env =
  b64_decode :: "ustr \<Rightarrow> byte list option"
  key_from_bytes :: "byte list \<Rightarrow> 'k option"
  verify_strict :: "'k \<Rightarrow> byte list \<Rightarrow> byte list \<Rightarrow> bool"

definition PKALG :: "byte list" where
  "PKALG = [69, 100]"

definition PUBKEY_LEN :: nat where
  "PUBKEY_LEN = 2 + 8 + 32"

definition SIG_LEN :: nat where
  "SIG_LEN = 2 + 8 + 64"

datatype usign_error = Base64 | Length | Algorithm | KeyNum | Key | Verification

record 'k public_key =
  pk_keynum :: "byte list"
  pk_key :: 'k

text \<open>\<open>raw[a..b]\<close>, for \<open>b\<close> within the length.\<close>

definition slice :: "nat \<Rightarrow> nat \<Rightarrow> byte list \<Rightarrow> byte list" where
  "slice a b raw = take (b - a) (drop a raw)"

definition from_base64 :: "'k usign_env \<Rightarrow> ustr \<Rightarrow> usign_error + 'k public_key" where
  "from_base64 env blob =
     (case b64_decode env (trim blob) of
        None \<Rightarrow> Inl Base64
      | Some raw \<Rightarrow>
          if length raw \<noteq> PUBKEY_LEN then Inl Length
          else if slice 0 2 raw \<noteq> PKALG then Inl Algorithm
          else (case key_from_bytes env (slice 10 42 raw) of
                  None \<Rightarrow> Inl Key
                | Some key \<Rightarrow> Inr \<lparr>pk_keynum = slice 2 10 raw, pk_key = key\<rparr>))"

definition verify ::
    "'k usign_env \<Rightarrow> 'k public_key \<Rightarrow> ustr \<Rightarrow> byte list \<Rightarrow> usign_error + unit" where
  "verify env pk sig_blob msg =
     (case b64_decode env (trim sig_blob) of
        None \<Rightarrow> Inl Base64
      | Some raw \<Rightarrow>
          if length raw \<noteq> SIG_LEN then Inl Length
          else if slice 0 2 raw \<noteq> PKALG then Inl Algorithm
          else if slice 2 10 raw \<noteq> pk_keynum pk then Inl KeyNum
          else if verify_strict env (pk_key pk) msg (slice 10 74 raw) then Inr ()
          else Inl Verification)"

subsection \<open>Facts\<close>

text \<open>The wire format: algorithm, key number and data.\<close>

definition usign_blob :: "byte list \<Rightarrow> byte list \<Rightarrow> byte list" where
  "usign_blob keynum data = PKALG @ keynum @ data"

lemma slice_blob:
  assumes "length keynum = 8"
  shows "slice 0 2 (usign_blob keynum d) = PKALG" "slice 2 10 (usign_blob keynum d) = keynum"
    "length d = n - 10 \<Longrightarrow> 10 \<le> n \<Longrightarrow> slice 10 n (usign_blob keynum d) = d"
    "length (usign_blob keynum d) = 10 + length d"
  using assms by (simp_all add: slice_def usign_blob_def PKALG_def)

lemma blob_of_slices:
  assumes "length raw = 10 + n" "slice 0 2 raw = PKALG"
  shows "raw = usign_blob (slice 2 10 raw) (slice 10 (10 + n) raw)"
proof -
  have "raw = take 2 raw @ take 8 (drop 2 raw) @ drop 10 raw"
    by (metis append_take_drop_id drop_drop numeral_Bit0 add.commute add_2_eq_Suc'
        numeral_plus_numeral semiring_norm(2) semiring_norm(6) semiring_norm(4) semiring_norm(3))
  then show ?thesis using assms by (simp add: usign_blob_def slice_def)
qed

text \<open>Which signatures are accepted: exactly the well-formed blobs over the key's own number.\<close>

lemma verify_ok_iff:
  assumes "length (pk_keynum pk) = 8"
  shows "verify env pk sig_blob msg = Inr () \<longleftrightarrow>
    (\<exists>sig. length sig = 64 \<and> b64_decode env (trim sig_blob) = Some (usign_blob (pk_keynum pk) sig)
       \<and> verify_strict env (pk_key pk) msg sig)" (is "?l \<longleftrightarrow> ?r")
proof
  assume ?l
  then obtain raw where raw: "b64_decode env (trim sig_blob) = Some raw" "length raw = 74"
    "slice 0 2 raw = PKALG" "slice 2 10 raw = pk_keynum pk"
    "verify_strict env (pk_key pk) msg (slice 10 74 raw)"
    by (auto simp: verify_def SIG_LEN_def split: option.splits if_splits)
  moreover have "raw = usign_blob (pk_keynum pk) (slice 10 74 raw)"
    using blob_of_slices [of raw 64] raw(2-4) by simp
  moreover have "length (slice 10 74 raw) = 64" using raw(2) by (simp add: slice_def)
  ultimately show ?r by metis
next
  assume ?r
  with assms show ?l by (auto simp: verify_def SIG_LEN_def slice_blob)
qed

lemma from_base64_keynum: "from_base64 env blob = Inr pk \<Longrightarrow> length (pk_keynum pk) = 8"
  by (auto simp: from_base64_def slice_def PUBKEY_LEN_def split: option.splits if_splits)

text \<open>C25. A signature is accepted only for the key that names itself in it: if a public key was
  read from a blob and it verifies a signature, then both blobs decode to the wire format with
  the algorithm \<open>Ed\<close> and the same key number, and the Ed25519 check of the message succeeded.\<close>

theorem usign_verify_sound:
  assumes "from_base64 env blob = Inr pk" and "verify env pk sig_blob msg = Inr ()"
  shows "\<exists>keynum key sig. length keynum = 8 \<and> length key = 32 \<and> length sig = 64
    \<and> b64_decode env (trim blob) = Some (usign_blob keynum key)
    \<and> b64_decode env (trim sig_blob) = Some (usign_blob keynum sig)
    \<and> key_from_bytes env key = Some (pk_key pk)
    \<and> verify_strict env (pk_key pk) msg sig"
proof -
  from assms(1) obtain raw where raw: "b64_decode env (trim blob) = Some raw" "length raw = 42"
    "slice 0 2 raw = PKALG" "key_from_bytes env (slice 10 42 raw) = Some (pk_key pk)"
    "pk_keynum pk = slice 2 10 raw"
    by (auto simp: from_base64_def PUBKEY_LEN_def split: option.splits if_splits)
  have "raw = usign_blob (pk_keynum pk) (slice 10 42 raw)"
    using blob_of_slices [of raw 32] raw by simp
  moreover have "length (slice 10 42 raw) = 32" using raw(2) by (simp add: slice_def)
  ultimately show ?thesis
    using from_base64_keynum [OF assms(1)] verify_ok_iff assms(2) raw(1,4) by metis
qed

text \<open>A concrete environment: base64 of the characters' own codes, keys as bytes, and a
  signature that repeats the key twice.\<close>

definition demo_env :: "byte list usign_env" where
  "demo_env = \<lparr>b64_decode = (\<lambda>s. Some (map word_of_int s)), key_from_bytes = Some,
     verify_strict = (\<lambda>k m s. s = k @ k)\<rparr>"

definition demo_blob :: "int list \<Rightarrow> ustr" where
  "demo_blob d = [69, 100] @ [1, 2, 3, 4, 5, 6, 7, 8] @ d"

theorem usign_verify_sound_witness:
  "\<exists>keynum key sig. length keynum = 8 \<and> length key = 32 \<and> length sig = 64
    \<and> b64_decode demo_env (trim (demo_blob (replicate 32 65))) = Some (usign_blob keynum key)
    \<and> b64_decode demo_env (trim (demo_blob (replicate 64 65))) = Some (usign_blob keynum sig)
    \<and> key_from_bytes demo_env key = Some (replicate 32 65)
    \<and> verify_strict demo_env (replicate 32 65) [] sig"
proof -
  let ?pk = "\<lparr>pk_keynum = [1, 2, 3, 4, 5, 6, 7, 8], pk_key = replicate 32 65\<rparr> :: byte list public_key"
  have "from_base64 demo_env (demo_blob (replicate 32 65)) = Inr ?pk" by code_simp
  moreover have "verify demo_env ?pk (demo_blob (replicate 64 65)) [] = Inr ()" by code_simp
  ultimately show ?thesis using usign_verify_sound [of demo_env _ ?pk] by fastforce
qed

text \<open>C26. Round trip of the wire format: blobs built as the device builds them are read back
  to their parts, a signature over the key's number is accepted exactly when the Ed25519 check
  accepts it, and one over another key number is refused whatever its bytes are.\<close>

theorem usign_blob_roundtrip:
  assumes "length keynum = 8" "length key = 32" "length sig = 64" "length other = 8"
    and "b64_decode env (trim blob) = Some (usign_blob keynum key)"
    and "b64_decode env (trim sig_blob) = Some (usign_blob other sig)"
    and "key_from_bytes env key = Some k"
  shows "from_base64 env blob = Inr \<lparr>pk_keynum = keynum, pk_key = k\<rparr>
    \<and> verify env \<lparr>pk_keynum = keynum, pk_key = k\<rparr> sig_blob msg =
        (if other \<noteq> keynum then Inl KeyNum
         else if verify_strict env k msg sig then Inr () else Inl Verification)"
  using assms by (simp add: from_base64_def verify_def PUBKEY_LEN_def SIG_LEN_def slice_blob)

theorem usign_blob_roundtrip_witness:
  "from_base64 demo_env (demo_blob (replicate 32 65))
      = Inr \<lparr>pk_keynum = [1, 2, 3, 4, 5, 6, 7, 8], pk_key = replicate 32 65\<rparr>"
proof -
  have "b64_decode demo_env (trim (demo_blob (replicate 32 65)))
      = Some (usign_blob [1, 2, 3, 4, 5, 6, 7, 8] (replicate 32 65))" by code_simp
  moreover have "b64_decode demo_env (trim (demo_blob (replicate 64 65)))
      = Some (usign_blob [1, 2, 3, 4, 5, 6, 7, 8] (replicate 64 65))" by code_simp
  moreover have "key_from_bytes demo_env (replicate 32 65) = Some (replicate 32 65)"
    by (simp add: demo_env_def)
  ultimately show ?thesis
    using usign_blob_roundtrip [of "[1, 2, 3, 4, 5, 6, 7, 8]" "replicate 32 65" "replicate 64 65"
        "[1, 2, 3, 4, 5, 6, 7, 8]" demo_env] by simp
qed

end
