(* ===== verification/File_System.thy ===== *)
theory File_System
  imports Rust_Str
begin

text \<open>
  Paths and the file system, as far as the standard library calls of the source reach it.
  A \<open>PathBuf\<close> is its string; \<open>path_join\<close> is \<open>Path::join\<close>, which an absolute argument
  replaces. A file system maps component lists to nodes; it records the working directory,
  and which keys refuse changes (a full disk, missing rights), so that every failing call of
  the source is a reachable branch. A component \<open>..\<close> is an ordinary name here: the source
  rejects it in the only untrusted texts that become directories.
\<close>

subsection \<open>Paths\<close>

definition is_absolute :: "ustr \<Rightarrow> bool" where
  "is_absolute p \<longleftrightarrow> prefix [47] p"

definition path_join :: "ustr \<Rightarrow> ustr \<Rightarrow> ustr" where
  "path_join p s =
     (if is_absolute s then s
      else if p = [] \<or> last p = 47 then p @ s
      else p @ [47] @ s)"

definition components :: "ustr \<Rightarrow> ustr list" where
  "components p = filter (\<lambda>c. c \<noteq> [] \<and> c \<noteq> [46]) (split_by (\<lambda>c. c = 47) p)"

text \<open>A text that is one path component.\<close>

definition plain_name :: "ustr \<Rightarrow> bool" where
  "plain_name s \<longleftrightarrow> s \<noteq> [] \<and> s \<noteq> [46] \<and> 47 \<notin> set s"

lemma split_slash_word [simp]: "47 \<notin> set w \<Longrightarrow> split_by (\<lambda>c. c = 47) w = [w]"
  by (rule split_by_word) auto

lemma components_plain [simp]: "plain_name s \<Longrightarrow> components s = [s]"
  by (simp add: components_def plain_name_def)

lemma components_Nil [simp]: "components [] = []"
  by (simp add: components_def)

lemma components_slash: "components (p @ 47 # s) = components p @ components s"
  by (simp add: components_def split_by_append)

lemma components_slash_end: "components (p @ [47]) = components p"
  using components_slash [of p "[]"] by simp

lemma components_join:
  assumes "\<not> is_absolute s"
  shows "components (path_join p s) = components p @ components s"
proof (cases p rule: rev_cases)
  case Nil
  with assms show ?thesis by (simp add: path_join_def)
next
  case (snoc q y)
  with assms components_slash [of q s] components_slash [of "q @ [y]" s] show ?thesis
    by (cases "y = 47") (simp_all add: path_join_def components_slash_end)
qed

lemma join_absolute: "is_absolute s \<Longrightarrow> path_join p s = s"
  by (simp add: path_join_def)

lemma plain_not_absolute: "plain_name s \<Longrightarrow> \<not> is_absolute s"
  by (auto simp: plain_name_def is_absolute_def prefix_def)

lemma is_absolute_join: "p \<noteq> [] \<Longrightarrow> is_absolute (path_join p s) \<longleftrightarrow> is_absolute s \<or> is_absolute p"
  by (cases p) (auto simp: path_join_def is_absolute_def)

subsection \<open>The file system\<close>

datatype node = File "byte list" | Dir | Symlink ustr

record file_system =
  fs_cwd :: "ustr list"
  fs_nodes :: "(ustr list \<times> node) list"
  fs_denied :: "ustr list \<Rightarrow> bool"

definition path_key :: "file_system \<Rightarrow> ustr \<Rightarrow> ustr list" where
  "path_key fs p = (if is_absolute p then components p else fs_cwd fs @ components p)"

definition node_at :: "file_system \<Rightarrow> ustr list \<Rightarrow> node option" where
  "node_at fs k = map_of (fs_nodes fs) k"

definition is_dir :: "file_system \<Rightarrow> ustr list \<Rightarrow> bool" where
  "is_dir fs k \<longleftrightarrow> k = [] \<or> node_at fs k = Some Dir"

text \<open>The key behind a chain of symbolic links, \<open>None\<close> for a dangling link or a loop.\<close>

fun follow :: "nat \<Rightarrow> file_system \<Rightarrow> ustr list \<Rightarrow> ustr list option" where
  "follow n fs k =
     (case node_at fs k of
        Some (Symlink q) \<Rightarrow> (case n of 0 \<Rightarrow> None | Suc m \<Rightarrow> follow m fs (path_key fs q))
      | Some _ \<Rightarrow> Some k
      | None \<Rightarrow> if k = [] then Some k else None)"

declare follow.simps [simp del]

definition MAX_LINKS :: nat where
  "MAX_LINKS = 40"

definition fs_exists :: "file_system \<Rightarrow> ustr \<Rightarrow> bool" where
  "fs_exists fs p \<longleftrightarrow> follow MAX_LINKS fs (path_key fs p) \<noteq> None"

definition fs_is_symlink :: "file_system \<Rightarrow> ustr \<Rightarrow> bool" where
  "fs_is_symlink fs p =
     (case node_at fs (path_key fs p) of Some (Symlink _) \<Rightarrow> True | _ \<Rightarrow> False)"

definition fs_read :: "file_system \<Rightarrow> ustr \<Rightarrow> byte list option" where
  "fs_read fs p =
     (case follow MAX_LINKS fs (path_key fs p) of
        None \<Rightarrow> None
      | Some k \<Rightarrow> (case node_at fs k of Some (File d) \<Rightarrow> Some d | _ \<Rightarrow> None))"

definition set_node :: "file_system \<Rightarrow> ustr list \<Rightarrow> node \<Rightarrow> file_system" where
  "set_node fs k n = fs\<lparr>fs_nodes := (k, n) # filter (\<lambda>e. fst e \<noteq> k) (fs_nodes fs)\<rparr>"

definition drop_node :: "file_system \<Rightarrow> ustr list \<Rightarrow> file_system" where
  "drop_node fs k = fs\<lparr>fs_nodes := filter (\<lambda>e. fst e \<noteq> k) (fs_nodes fs)\<rparr>"

text \<open>\<open>std::fs::write\<close>; \<open>None\<close> is the error.\<close>

definition fs_write :: "file_system \<Rightarrow> ustr \<Rightarrow> byte list \<Rightarrow> file_system option" where
  "fs_write fs p d =
     (let k0 = path_key fs p;
          k = (case follow MAX_LINKS fs k0 of Some k \<Rightarrow> k | None \<Rightarrow> k0) in
      if fs_denied fs k \<or> is_dir fs k \<or> \<not> is_dir fs (butlast k)
         \<or> (case node_at fs k of Some (Symlink _) \<Rightarrow> True | _ \<Rightarrow> False)
      then None else Some (set_node fs k (File d)))"

fun make_dirs :: "file_system \<Rightarrow> ustr list \<Rightarrow> ustr list \<Rightarrow> file_system option" where
  "make_dirs fs done [] = Some fs"
| "make_dirs fs done (c # cs) =
     (let k = done @ [c] in
      if is_dir fs k then make_dirs fs k cs
      else if node_at fs k \<noteq> None \<or> fs_denied fs k then None
      else make_dirs (set_node fs k Dir) k cs)"

definition fs_create_dir_all :: "file_system \<Rightarrow> ustr \<Rightarrow> file_system option" where
  "fs_create_dir_all fs p = make_dirs fs [] (path_key fs p)"

definition fs_remove_file :: "file_system \<Rightarrow> ustr \<Rightarrow> file_system option" where
  "fs_remove_file fs p =
     (let k = path_key fs p in
      if node_at fs k = None \<or> is_dir fs k \<or> fs_denied fs k then None
      else Some (drop_node fs k))"

definition fs_remove_dir_all :: "file_system \<Rightarrow> ustr \<Rightarrow> file_system option" where
  "fs_remove_dir_all fs p =
     (let k = path_key fs p in
      if k = [] \<or> node_at fs k \<noteq> Some Dir \<or> fs_denied fs k then None
      else Some (fs\<lparr>fs_nodes := filter (\<lambda>e. \<not> prefix k (fst e)) (fs_nodes fs)\<rparr>))"

text \<open>\<open>read_dir\<close>, as the list of the entries' paths.\<close>

definition fs_read_dir :: "file_system \<Rightarrow> ustr \<Rightarrow> ustr list option" where
  "fs_read_dir fs p =
     (case follow MAX_LINKS fs (path_key fs p) of
        None \<Rightarrow> None
      | Some k \<Rightarrow>
          if is_dir fs k
          then Some (map (\<lambda>e. path_join p (last (fst e)))
                 (filter (\<lambda>e. fst e \<noteq> [] \<and> butlast (fst e) = k) (fs_nodes fs)))
          else None)"

definition fs_symlink :: "file_system \<Rightarrow> ustr \<Rightarrow> ustr \<Rightarrow> file_system option" where
  "fs_symlink fs target p =
     (let k = path_key fs p in
      if node_at fs k \<noteq> None \<or> k = [] \<or> fs_denied fs k \<or> \<not> is_dir fs (butlast k) then None
      else Some (set_node fs k (Symlink target)))"

subsection \<open>Laws\<close>

lemma cwd_set_node [simp]: "fs_cwd (set_node fs k n) = fs_cwd fs"
  by (simp add: set_node_def)

lemma cwd_drop_node [simp]: "fs_cwd (drop_node fs k) = fs_cwd fs"
  by (simp add: drop_node_def)

lemma path_key_cwd: "fs_cwd fs' = fs_cwd fs \<Longrightarrow> path_key fs' p = path_key fs p"
  by (simp add: path_key_def)

lemma path_key_set_node [simp]: "path_key (set_node fs k n) p = path_key fs p"
  by (rule path_key_cwd) simp

lemma path_key_drop_node [simp]: "path_key (drop_node fs k) p = path_key fs p"
  by (rule path_key_cwd) simp

lemma map_of_filter_key: "map_of (filter (\<lambda>e. fst e \<noteq> k) xs) k' = (if k' = k then None else map_of xs k')"
  by (induction xs) auto

lemma node_at_set_node [simp]: "node_at (set_node fs k n) k' = (if k' = k then Some n else node_at fs k')"
  by (auto simp: node_at_def set_node_def map_of_filter_key)

lemma node_at_drop_node [simp]: "node_at (drop_node fs k) k' = (if k' = k then None else node_at fs k')"
  by (simp add: node_at_def drop_node_def map_of_filter_key)

lemma denied_set_node [simp]: "fs_denied (set_node fs k n) = fs_denied fs"
  by (simp add: set_node_def)

lemma denied_drop_node [simp]: "fs_denied (drop_node fs k) = fs_denied fs"
  by (simp add: drop_node_def)

lemma path_key_join_plain:
  "plain_name s \<Longrightarrow> p \<noteq> [] \<Longrightarrow> path_key fs (path_join p s) = path_key fs p @ [s]"
  by (auto simp: path_key_def is_absolute_join components_join plain_not_absolute)

text \<open>A regular file, or nothing, at a key: no link to follow.\<close>

definition plain_at :: "file_system \<Rightarrow> ustr list \<Rightarrow> bool" where
  "plain_at fs k \<longleftrightarrow> (case node_at fs k of Some (Symlink _) \<Rightarrow> False | _ \<Rightarrow> True)"

lemma follow_plain:
  "plain_at fs k \<Longrightarrow> follow n fs k = (if node_at fs k = None \<and> k \<noteq> [] then None else Some k)"
  by (subst follow.simps) (auto simp: plain_at_def split: option.splits node.splits)

lemma fs_read_plain:
  "plain_at fs (path_key fs p) \<Longrightarrow>
     fs_read fs p = (case node_at fs (path_key fs p) of Some (File d) \<Rightarrow> Some d | _ \<Rightarrow> None)"
  by (auto simp: fs_read_def follow_plain split: option.splits)

lemma fs_write_plain:
  "plain_at fs (path_key fs p) \<Longrightarrow>
     fs_write fs p d =
       (let k = path_key fs p in
        if fs_denied fs k \<or> is_dir fs k \<or> \<not> is_dir fs (butlast k) then None
        else Some (set_node fs k (File d)))"
  by (auto simp: fs_write_def follow_plain Let_def plain_at_def split: option.splits node.splits)

lemma make_dirs_frame:
  "make_dirs fs done cs = Some fs' \<Longrightarrow>
     fs_cwd fs' = fs_cwd fs \<and> fs_denied fs' = fs_denied fs
     \<and> (\<forall>k n. node_at fs k = Some n \<longrightarrow> node_at fs' k = Some n)
     \<and> (\<forall>k. node_at fs k = None \<longrightarrow> node_at fs' k \<in> {None, Some Dir})"
proof (induction fs "done" cs rule: make_dirs.induct)
  case (1 fs "done")
  then show ?case by simp
next
  case (2 fs "done" c cs)
  show ?case
  proof (cases "is_dir fs (done @ [c])")
    case True
    with 2 show ?thesis by (simp add: Let_def)
  next
    case False
    with "2.prems" have n: "node_at fs (done @ [c]) = None"
      and r: "make_dirs (set_node fs (done @ [c]) Dir) (done @ [c]) cs = Some fs'"
      by (auto simp: Let_def split: if_splits)
    moreover from "2.prems" False n have "\<not> (node_at fs (done @ [c]) \<noteq> None \<or> fs_denied fs (done @ [c]))"
      by (auto simp: Let_def split: if_splits)
    ultimately have IH: "fs_cwd fs' = fs_cwd fs" "fs_denied fs' = fs_denied fs"
      "\<And>k n. node_at (set_node fs (done @ [c]) Dir) k = Some n \<Longrightarrow> node_at fs' k = Some n"
      "\<And>k. node_at (set_node fs (done @ [c]) Dir) k = None \<Longrightarrow> node_at fs' k \<in> {None, Some Dir}"
      using "2.IH"(2) [OF refl False _ r] by (simp, simp, blast, blast)
    have "node_at fs' k = Some m" if "node_at fs k = Some m" for k m
      using IH(3) [of k m] that n by (cases "k = done @ [c]") auto
    moreover have "node_at fs' k \<in> {None, Some Dir}" if "node_at fs k = None" for k
      using IH(3) [of k Dir] IH(4) [of k] that by (cases "k = done @ [c]") auto
    ultimately show ?thesis using IH(1,2) by blast
  qed
qed

lemma make_dirs_at:
  "\<lbrakk>make_dirs fs done cs = Some fs'; node_at fs' k \<noteq> node_at fs k\<rbrakk> \<Longrightarrow> prefix k (done @ cs)"
proof (induction fs "done" cs rule: make_dirs.induct)
  case (2 fs "done" c cs)
  show ?case
  proof (cases "is_dir fs (done @ [c])")
    case True
    with 2 show ?thesis by (simp add: Let_def)
  next
    case False
    with "2.prems" have n: "node_at fs (done @ [c]) = None" "\<not> fs_denied fs (done @ [c])"
      and r: "make_dirs (set_node fs (done @ [c]) Dir) (done @ [c]) cs = Some fs'"
      by (auto simp: Let_def split: if_splits)
    show ?thesis
    proof (cases "k = done @ [c]")
      case True
      then show ?thesis by simp
    next
      case k: False
      with "2.prems"(2) have "node_at fs' k \<noteq> node_at (set_node fs (done @ [c]) Dir) k" by simp
      with "2.IH"(2) [OF refl False _ r] n show ?thesis by simp
    qed
  qed
qed simp

text \<open>When nothing is in the way, the directories are made.\<close>

lemma make_dirs_success:
  assumes "\<And>k. \<lbrakk>prefix done k; prefix k (done @ cs)\<rbrakk> \<Longrightarrow> node_at fs k \<in> {None, Some Dir} \<and> \<not> fs_denied fs k"
  shows "make_dirs fs done cs \<noteq> None"
  using assms
proof (induction fs "done" cs rule: make_dirs.induct)
  case (2 fs "done" c cs)
  have here: "node_at fs (done @ [c]) \<in> {None, Some Dir} \<and> \<not> fs_denied fs (done @ [c])"
    by (rule "2.prems") simp_all
  have rest: "node_at fs k \<in> {None, Some Dir} \<and> \<not> fs_denied fs k"
    if "prefix (done @ [c]) k" "prefix k ((done @ [c]) @ cs)" for k
    using that by (intro "2.prems") (auto dest: append_prefixD)
  show ?case
  proof (cases "is_dir fs (done @ [c])")
    case True
    with "2.IH"(1) [OF refl True rest] show ?thesis by (simp add: Let_def)
  next
    case False
    with here have n: "\<not> (node_at fs (done @ [c]) \<noteq> None \<or> fs_denied fs (done @ [c]))" by (auto simp: is_dir_def)
    have "make_dirs (set_node fs (done @ [c]) Dir) (done @ [c]) cs \<noteq> None"
    proof (rule "2.IH"(2) [OF refl False n])
      fix k assume "prefix (done @ [c]) k" "prefix k ((done @ [c]) @ cs)"
      with rest [of k] show "node_at (set_node fs (done @ [c]) Dir) k \<in> {None, Some Dir}
          \<and> \<not> fs_denied (set_node fs (done @ [c]) Dir) k"
        by (cases "k = done @ [c]") auto
    qed
    with False n show ?thesis by (simp add: Let_def)
  qed
qed simp

lemma make_dirs_dir:
  "make_dirs fs done cs = Some fs' \<Longrightarrow> is_dir fs done \<Longrightarrow> is_dir fs' (done @ cs)"
proof (induction fs "done" cs rule: make_dirs.induct)
  case (1 fs "done")
  then show ?case by simp
next
  case (2 fs "done" c cs)
  show ?case
  proof (cases "is_dir fs (done @ [c])")
    case True
    with 2 show ?thesis by (simp add: Let_def)
  next
    case False
    moreover have "is_dir (set_node fs (done @ [c]) Dir) (done @ [c])" by (simp add: is_dir_def)
    ultimately show ?thesis using 2 by (auto simp: Let_def split: if_splits)
  qed
qed

lemma plain_at_make_dirs:
  "make_dirs fs done cs = Some fs' \<Longrightarrow> plain_at fs k \<Longrightarrow> plain_at fs' k"
proof -
  assume "make_dirs fs done cs = Some fs'" and p: "plain_at fs k"
  note fr = make_dirs_frame [OF this(1)]
  show "plain_at fs' k"
  proof (cases "node_at fs k")
    case None
    with fr have "node_at fs' k \<in> {None, Some Dir}" by blast
    then show ?thesis by (auto simp: plain_at_def)
  next
    case (Some n)
    with fr have "node_at fs' k = Some n" by blast
    with Some p show ?thesis by (simp add: plain_at_def)
  qed
qed

text \<open>What was written is read back, through whatever links.\<close>

lemma follow_set_node:
  "follow n fs k0 = Some k \<Longrightarrow> plain_at fs k \<Longrightarrow> follow n (set_node fs k (File d)) k0 = Some k"
proof (induction n arbitrary: k0)
  case 0
  then show ?case
    by (subst follow.simps) (auto simp: follow.simps [of 0 fs k0] split: option.splits node.splits if_splits)
next
  case (Suc n)
  show ?case
  proof (cases "k0 = k")
    case True
    then show ?thesis by (subst follow.simps) simp
  next
    case False
    with Suc show ?thesis
      by (subst follow.simps) (auto simp: follow.simps [of "Suc n" fs k0] split: option.splits node.splits if_splits)
  qed
qed

lemma follow_end: "follow n fs k0 = Some k \<Longrightarrow> plain_at fs k"
proof (induction n arbitrary: k0)
  case 0
  then show ?case by (auto simp: follow.simps [of 0 fs k0] plain_at_def split: option.splits node.splits if_splits)
next
  case (Suc n)
  then show ?case
    by (auto simp: follow.simps [of "Suc n" fs k0] plain_at_def split: option.splits node.splits if_splits)
qed

lemma fs_read_write:
  assumes "fs_write fs p d = Some fs'"
  shows "fs_read fs' p = Some d"
proof (cases "follow MAX_LINKS fs (path_key fs p)")
  case (Some k)
  with assms have "fs' = set_node fs k (File d)"
    by (auto simp: fs_write_def Let_def split: if_splits)
  with Some follow_set_node [OF Some follow_end [OF Some], of d] show ?thesis by (simp add: fs_read_def)
next
  case None
  with assms have fs': "fs' = set_node fs (path_key fs p) (File d)"
    by (auto simp: fs_write_def Let_def split: if_splits)
  then have "plain_at fs' (path_key fs' p)" by (simp add: plain_at_def)
  with fs' show ?thesis by (simp add: fs_read_plain)
qed

end
