(* ===== verification/Buildid.thy ===== *)
theory Buildid
  imports File_System
begin

text \<open>
  Lookup of debug files by GNU build-id, \<open>crates/ucrs-common/src/buildid.rs\<close>: the function
  behind the public debuginfod endpoint, fed from a URL segment.
\<close>

text \<open>\<open>to_lowercase\<close> is applied to a text of ASCII hex digits only, where it is
  \<open>ascii_lower\<close> of each character.\<close>

definition resolve :: "file_system \<Rightarrow> ustr \<Rightarrow> ustr \<Rightarrow> ustr option" where
  "resolve fs pool_root build_id =
     (if str_len build_id < 4 \<or> \<not> list_all is_ascii_hexdigit build_id then None
      else let build_id = map ascii_lower build_id;
               link = path_join (path_join (path_join pool_root (lit ''.build-id''))
                        (take 2 build_id)) (drop 2 build_id @ lit ''.debug'')
           in if fs_exists fs link then Some link else None)"

subsection \<open>Facts\<close>

definition lower_hex :: "ustr \<Rightarrow> bool" where
  "lower_hex s \<longleftrightarrow> list_all (\<lambda>c. is_ascii_digit c \<or> 97 \<le> c \<and> c \<le> 102) s"

lemma ascii_lower_hex:
  "is_ascii_hexdigit c \<Longrightarrow> is_ascii_digit (ascii_lower c) \<or> 97 \<le> ascii_lower c \<and> ascii_lower c \<le> 102"
  by (auto simp: is_ascii_hexdigit_def ascii_lower_def is_ascii_digit_def)

lemma lower_hex_map: "list_all is_ascii_hexdigit s \<Longrightarrow> lower_hex (map ascii_lower s)"
  by (auto simp: lower_hex_def list_all_iff dest: ascii_lower_hex)

lemma lower_hex_chars: "lower_hex s \<Longrightarrow> 47 \<notin> set s \<and> 46 \<notin> set s"
  by (auto simp: lower_hex_def list_all_iff is_ascii_digit_def)

lemma plain_name_build_id [simp]: "plain_name (lit ''.build-id'')"
  by (simp add: plain_name_def)

lemma plain_name_hex: "lower_hex s \<Longrightarrow> s \<noteq> [] \<Longrightarrow> plain_name s"
  using lower_hex_chars [of s] by (auto simp: plain_name_def)

lemma plain_name_debug: "lower_hex s \<Longrightarrow> plain_name (s @ lit ''.debug'')"
  using lower_hex_chars [of s] by (auto simp: plain_name_def)

lemma lower_hex_take_drop: "lower_hex s \<Longrightarrow> lower_hex (take n s) \<and> lower_hex (drop n s)"
  by (auto simp: lower_hex_def list_all_iff dest: in_set_takeD in_set_dropD)

lemma resolve_shape:
  assumes "resolve fs pool_root build_id = Some p"
  shows "\<exists>xx rest. lower_hex xx \<and> lower_hex rest \<and> length xx = 2 \<and> 2 \<le> length rest
    \<and> map ascii_lower build_id = xx @ rest \<and> fs_exists fs p
    \<and> p = path_join (path_join (path_join pool_root (lit ''.build-id'')) xx) (rest @ lit ''.debug'')"
proof -
  let ?b = "map ascii_lower build_id"
  from assms have h: "list_all is_ascii_hexdigit build_id" "4 \<le> length build_id"
    using str_len_hex [of build_id] by (auto simp: resolve_def Let_def split: if_splits)
  then have "lower_hex ?b" by (simp add: lower_hex_map)
  then have "lower_hex (take 2 ?b)" "lower_hex (drop 2 ?b)" by (simp_all add: lower_hex_take_drop)
  moreover have "?b = take 2 ?b @ drop 2 ?b" by simp
  ultimately show ?thesis using assms h
    by (intro exI [of _ "take 2 ?b"] exI [of _ "drop 2 ?b"])
      (auto simp: resolve_def Let_def split: if_splits)
qed

text \<open>C27. Whatever text comes from the URL, a resolved build-id is a file two levels below the
  pool's index directory: the path's components are those of the pool, then \<open>.build-id\<close>, two
  lowercase hex digits and a hex name with the suffix \<open>.debug\<close>. There is no traversal, and
  upper and lower case resolve to the same file.\<close>

theorem resolve_contained:
  assumes "pool_root \<noteq> []" and "resolve fs pool_root build_id = Some p"
  shows "\<exists>xx rest. lower_hex xx \<and> length xx = 2 \<and> lower_hex rest \<and> 2 \<le> length rest
    \<and> path_key fs p = path_key fs pool_root @ [lit ''.build-id'', xx, rest @ lit ''.debug'']
    \<and> fs_exists fs p
    \<and> resolve fs pool_root (map ascii_lower build_id) = Some p"
proof -
  obtain xx rest where h: "lower_hex xx" "lower_hex rest" "length xx = 2" "2 \<le> length rest"
    "map ascii_lower build_id = xx @ rest" "fs_exists fs p"
    and p: "p = path_join (path_join (path_join pool_root (lit ''.build-id'')) xx) (rest @ lit ''.debug'')"
    using resolve_shape [OF assms(2)] by blast
  let ?r = "path_join pool_root (lit ''.build-id'')"
  have ne: "?r \<noteq> []" "path_join ?r xx \<noteq> []" using assms(1) h(3) by (auto simp: path_join_def)
  have "path_key fs p = path_key fs (path_join ?r xx) @ [rest @ lit ''.debug'']"
    unfolding p using plain_name_debug [OF h(2)] ne(2) by (rule path_key_join_plain)
  also have "path_key fs (path_join ?r xx) = path_key fs ?r @ [xx]"
    using h(1,3) ne(1) by (intro path_key_join_plain plain_name_hex) auto
  also have "path_key fs ?r = path_key fs pool_root @ [lit ''.build-id'']"
    using assms(1) by (intro path_key_join_plain plain_name_build_id)
  finally have key: "path_key fs p = path_key fs pool_root @ [lit ''.build-id'', xx, rest @ lit ''.debug'']"
    by simp
  have low: "map ascii_lower (map ascii_lower build_id) = map ascii_lower build_id"
    by (simp add: ascii_lower_def)
  have "resolve fs pool_root (map ascii_lower build_id) = Some p"
  proof -
    have hx: "list_all is_ascii_hexdigit build_id" "4 \<le> length build_id"
      using assms(2) str_len_hex [of build_id] by (auto simp: resolve_def Let_def split: if_splits)
    then have "list_all is_ascii_hexdigit (map ascii_lower build_id)"
      using ascii_lower_hex by (auto simp: list_all_iff is_ascii_hexdigit_def)
    moreover from this hx have "str_len (map ascii_lower build_id) = str_len build_id"
      by (simp add: str_len_hex)
    ultimately show ?thesis using assms(2) hx(1) unfolding resolve_def low by simp
  qed
  with h key show ?thesis by blast
qed

text \<open>A pool with one indexed file.\<close>

definition demo_pool :: file_system where
  "demo_pool = \<lparr>fs_cwd = [], fs_nodes =
     [([lit ''p''], Dir), ([lit ''p'', lit ''.build-id''], Dir),
      ([lit ''p'', lit ''.build-id'', lit ''8d''], Dir),
      ([lit ''p'', lit ''.build-id'', lit ''8d'', lit ''74ef44.debug''], File [])],
     fs_denied = (\<lambda>_. False)\<rparr>"

theorem resolve_contained_witness:
  "\<exists>p xx rest. resolve demo_pool (lit ''p'') (lit ''8D74EF44'') = Some p
    \<and> resolve demo_pool (lit ''p'') (lit ''8d74ef44'') = Some p
    \<and> path_key demo_pool p = [lit ''p'', lit ''.build-id'', xx, rest @ lit ''.debug'']"
proof -
  have "resolve demo_pool (lit ''p'') (lit ''8D74EF44'')
      = Some (lit ''p/.build-id/8d/74ef44.debug'')"
    and low: "map ascii_lower (lit ''8D74EF44'') = lit ''8d74ef44''"
    and key: "path_key demo_pool (lit ''p'') = [lit ''p'']"
    by code_simp+
  moreover have "lit ''p'' \<noteq> []" by simp
  ultimately show ?thesis
    using resolve_contained [of "lit ''p''" demo_pool "lit ''8D74EF44''" "lit ''p/.build-id/8d/74ef44.debug''"]
    unfolding low key by auto
qed

end
