(* ===== verification/Errors.thy ===== *)
theory Errors
  imports Rust_Str
begin

text \<open>
  Errors as values. An anyhow error is the chain of its contexts, outermost first; its causes
  are texts of the source, failed calls of the operating system, or messages of an external
  crate. \<open>and_then\<close> is the operator \<open>?\<close> followed by the rest of the function.
\<close>

datatype cause = Text ustr | Os_Error | External ustr

type_synonym anyhow = "cause list"

definition with_context :: "ustr \<Rightarrow> anyhow + 'a \<Rightarrow> anyhow + 'a" where
  "with_context m r = (case r of Inl e \<Rightarrow> Inl (Text m # e) | Inr x \<Rightarrow> Inr x)"

definition os :: "'a option \<Rightarrow> anyhow + 'a" where
  "os r = (case r of None \<Rightarrow> Inl [Os_Error] | Some x \<Rightarrow> Inr x)"

definition bail :: "ustr \<Rightarrow> anyhow + 'a" where
  "bail m = Inl [Text m]"

definition and_then :: "'e + 'a \<Rightarrow> ('a \<Rightarrow> 'e + 'b) \<Rightarrow> 'e + 'b" where
  "and_then r f = (case r of Inl e \<Rightarrow> Inl e | Inr x \<Rightarrow> f x)"

text \<open>\<open>.ok()\<close>\<close>

definition ok :: "'e + 'a \<Rightarrow> 'a option" where
  "ok r = (case r of Inl _ \<Rightarrow> None | Inr x \<Rightarrow> Some x)"

lemma with_context_simps [simp]:
  "with_context m (Inl e) = Inl (Text m # e)" "with_context m (Inr x) = Inr x"
  by (simp_all add: with_context_def)

lemma os_simps [simp]: "os None = Inl [Os_Error]" "os (Some x) = Inr x"
  by (simp_all add: os_def)

lemma and_then_simps [simp]: "and_then (Inl e) f = Inl e" "and_then (Inr x) f = f x"
  by (simp_all add: and_then_def)

lemma ok_simps [simp]: "ok (Inl e) = None" "ok (Inr x) = Some x"
  by (simp_all add: ok_def)

lemma with_context_Inr [simp]: "with_context m r = Inr x \<longleftrightarrow> r = Inr x"
  by (cases r) simp_all

lemma os_Inr [simp]: "os r = Inr x \<longleftrightarrow> r = Some x"
  by (cases r) simp_all

lemma bail_Inr [simp]: "bail m \<noteq> Inr x"
  by (simp add: bail_def)

lemma and_then_Inr: "and_then r f = Inr y \<longleftrightarrow> (\<exists>x. r = Inr x \<and> f x = Inr y)"
  by (cases r) simp_all

lemma ok_Some [simp]: "ok r = Some x \<longleftrightarrow> r = Inr x"
  by (cases r) simp_all

end
