(* ===== verification/Config.thy ===== *)
theory Config
  imports Errors Utf8 File_System
begin

text \<open>
  crates/ucrs-common/src/config.rs: the configuration record, its defaults and directories.
  The TOML parser with serde is a parameter that yields the fields the file sets; the missing
  ones take the defaults of the source.
\<close>

record symbols_config =
  kernel_release :: ustr
  kernel_snapshot :: ustr
  retention_weeks :: u32

record config =
  instance_name :: ustr
  listen :: ustr
  base_url :: ustr
  data_dir :: ustr
  database_url :: ustr
  raw_failed_retention_days :: u32
  symbols :: symbols_config

definition default_instance_name :: ustr where
  "default_instance_name = lit ''ucrashreport''"

definition default_listen :: ustr where
  "default_listen = lit ''127.0.0.1:8087''"

definition default_data_dir :: ustr where
  "default_data_dir = lit ''data''"

definition default_database_url :: ustr where
  "default_database_url = lit ''sqlite://data/ucrashreport.db''"

definition default_kernel_release_url :: ustr where
  "default_kernel_release_url =
     lit ''https://downloads.openwrt.org/releases/{version}/targets/{target}/kernel-debug.tar.zst''"

definition default_kernel_snapshot_url :: ustr where
  "default_kernel_snapshot_url =
     lit ''https://downloads.openwrt.org/snapshots/targets/{target}/kernel-debug.tar.zst''"

definition default_retention_weeks :: u32 where
  "default_retention_weeks = 4"

definition default_raw_failed_retention_days :: u32 where
  "default_raw_failed_retention_days = 14"

definition default_symbols :: symbols_config where
  "default_symbols = \<lparr>kernel_release = default_kernel_release_url,
     kernel_snapshot = default_kernel_snapshot_url, retention_weeks = default_retention_weeks\<rparr>"

text \<open>The fields a file sets, as the parser finds them; \<open>base_url\<close> has no default.\<close>

record symbols_file =
  f_kernel_release :: "ustr option"
  f_kernel_snapshot :: "ustr option"
  f_retention_weeks :: "u32 option"

record config_file =
  f_instance_name :: "ustr option"
  f_listen :: "ustr option"
  f_base_url :: "ustr option"
  f_data_dir :: "ustr option"
  f_database_url :: "ustr option"
  f_raw_failed_retention_days :: "u32 option"
  f_symbols :: "symbols_file option"

definition or_default :: "'a \<Rightarrow> 'a option \<Rightarrow> 'a" where
  "or_default d v = (case v of None \<Rightarrow> d | Some x \<Rightarrow> x)"

definition symbols_of_file :: "symbols_file \<Rightarrow> symbols_config" where
  "symbols_of_file f =
     \<lparr>kernel_release = or_default default_kernel_release_url (f_kernel_release f),
      kernel_snapshot = or_default default_kernel_snapshot_url (f_kernel_snapshot f),
      retention_weeks = or_default default_retention_weeks (f_retention_weeks f)\<rparr>"

definition config_of_file :: "config_file \<Rightarrow> anyhow + config" where
  "config_of_file f =
     (case f_base_url f of
        None \<Rightarrow> Inl [External (lit ''missing field `base_url`'')]
      | Some url \<Rightarrow> Inr
          \<lparr>instance_name = or_default default_instance_name (f_instance_name f),
           listen = or_default default_listen (f_listen f),
           base_url = url,
           data_dir = or_default default_data_dir (f_data_dir f),
           database_url = or_default default_database_url (f_database_url f),
           raw_failed_retention_days =
             or_default default_raw_failed_retention_days (f_raw_failed_retention_days f),
           symbols = (case f_symbols f of None \<Rightarrow> default_symbols
             | Some s \<Rightarrow> symbols_of_file s)\<rparr>)"

text \<open>\<open>read_to_string\<close> fails on bytes that are not UTF-8.\<close>

definition from_utf8 :: "byte list \<Rightarrow> ustr option" where
  "from_utf8 bs = (let s = from_utf8_lossy bs in if as_bytes s = bs then Some s else None)"

definition read_to_string :: "file_system \<Rightarrow> ustr \<Rightarrow> ustr option" where
  "read_to_string fs p = Option.bind (fs_read fs p) from_utf8"

definition load :: "(ustr \<Rightarrow> anyhow + config_file) \<Rightarrow> file_system \<Rightarrow> ustr \<Rightarrow> anyhow + config" where
  "load toml fs path =
     and_then (with_context (lit ''reading config '' @ path) (os (read_to_string fs path)))
       (\<lambda>raw. with_context (lit ''parsing config'') (and_then (toml raw) config_of_file))"

definition raw_dir :: "config \<Rightarrow> ustr" where
  "raw_dir cfg = path_join (data_dir cfg) (lit ''raw'')"

definition decoded_dir :: "config \<Rightarrow> ustr" where
  "decoded_dir cfg = path_join (data_dir cfg) (lit ''decoded'')"

definition symbols_dir :: "config \<Rightarrow> ustr" where
  "symbols_dir cfg = path_join (data_dir cfg) (lit ''symbols'')"

subsection \<open>The directories\<close>

lemma from_utf8_as_bytes [simp]: "list_all scalar s \<Longrightarrow> from_utf8 (as_bytes s) = Some s"
  by (simp add: from_utf8_def Let_def lossy_roundtrip)

lemma from_utf8_Some: "from_utf8 bs = Some s \<longleftrightarrow> bs = as_bytes s \<and> list_all scalar s"
  using from_utf8_lossy_scalar [of bs] lossy_roundtrip [of s]
  by (auto simp: from_utf8_def Let_def split: if_splits)

lemma dir_names [simp]: "plain_name (lit ''raw'')" "plain_name (lit ''decoded'')"
    "plain_name (lit ''symbols'')"
  by (simp_all add: plain_name_def)

lemma dir_keys:
  assumes "data_dir cfg \<noteq> []"
  shows "path_key fs (raw_dir cfg) = path_key fs (data_dir cfg) @ [lit ''raw'']"
    "path_key fs (decoded_dir cfg) = path_key fs (data_dir cfg) @ [lit ''decoded'']"
    "path_key fs (symbols_dir cfg) = path_key fs (data_dir cfg) @ [lit ''symbols'']"
  unfolding raw_dir_def decoded_dir_def symbols_dir_def
  by (rule path_key_join_plain [OF _ assms], rule dir_names)+

lemma dirs_nonempty [simp]: "raw_dir cfg \<noteq> []" "decoded_dir cfg \<noteq> []" "symbols_dir cfg \<noteq> []"
  by (simp_all add: raw_dir_def decoded_dir_def symbols_dir_def path_join_def is_absolute_def)

text \<open>A report's files: below the raw and the decoded directory, under its id.\<close>

lemma report_file_keys:
  assumes "data_dir cfg \<noteq> []" "plain_name rid"
  shows "path_key fs (path_join (raw_dir cfg) rid) = path_key fs (data_dir cfg) @ [lit ''raw'', rid]"
    "path_key fs (path_join (decoded_dir cfg) rid) =
       path_key fs (data_dir cfg) @ [lit ''decoded'', rid]"
  using dir_keys(1,2) [OF assms(1)] path_key_join_plain [OF assms(2) dirs_nonempty(1)]
    path_key_join_plain [OF assms(2) dirs_nonempty(2)] by (simp_all del: lit_Cons)

subsection \<open>Retention windows\<close>

text \<open>The cutoffs are computed on \<open>i64\<close>: with \<open>u32\<close> days or weeks they cannot overflow.\<close>

lemma u32_bound: "uint (n :: u32) \<le> 4294967295"
  using uint_bounded [of n] by simp

lemma retention_no_overflow:
  "uint (days :: u32) * 86400 < 2 ^ 63 \<and> uint (weeks :: u32) * 7 * 86400 < 2 ^ 63"
  using u32_bound [of days] u32_bound [of weeks] by simp

end
