(* ===== verification/Decimal.thy ===== *)
theory Decimal
  imports Rust_Str
begin

text \<open>
  Numbers as text: what \<open>to_string\<close> prints for the integer types and what
  \<open>parse::<i64>()\<close> accepts, and that printing and parsing are inverse.
\<close>

fun decimal :: "nat \<Rightarrow> ustr" where
  "decimal n = (if n < 10 then [48 + int n] else decimal (n div 10) @ [48 + int (n mod 10)])"

declare decimal.simps [simp del]

definition digits_value :: "ustr \<Rightarrow> int" where
  "digits_value ds = foldl (\<lambda>n c. 10 * n + dec_digit c) 0 ds"

text \<open>\<open>parse::<i64>()\<close>: an optional sign and at least one digit, in range.\<close>

definition parse_i64 :: "ustr \<Rightarrow> int option" where
  "parse_i64 s =
     (let neg = prefix [45] s;
          ds = (if prefix [43] s \<or> prefix [45] s then tl s else s);
          v = (if neg then - digits_value ds else digits_value ds) in
      if ds \<noteq> [] \<and> list_all is_ascii_digit ds \<and> - (2 ^ 63) \<le> v \<and> v < 2 ^ 63 then Some v else None)"

lemma digits_value_snoc: "digits_value (ds @ [c]) = 10 * digits_value ds + dec_digit c"
  by (simp add: digits_value_def)

lemma decimal_digits: "decimal n \<noteq> [] \<and> list_all is_ascii_digit (decimal n) \<and> digits_value (decimal n) = int n"
proof (induction n rule: decimal.induct)
  case (1 n)
  show ?case
  proof (cases "n < 10")
    case True
    then show ?thesis
      by (simp add: decimal.simps [of n] is_ascii_digit_def digits_value_def dec_digit_def)
  next
    case False
    moreover have "10 * int (n div 10) + int (n mod 10) = int n"
      by (metis div_mult_mod_eq mult.commute of_nat_add of_nat_mult of_nat_numeral)
    ultimately show ?thesis using 1
      by (simp add: decimal.simps [of n] is_ascii_digit_def digits_value_snoc dec_digit_def)
  qed
qed

lemma parse_decimal: "n < 2 ^ 63 \<Longrightarrow> parse_i64 (decimal n) = Some (int n)"
proof -
  assume n: "n < 2 ^ 63"
  note d = decimal_digits [of n]
  then have h: "is_ascii_digit (hd (decimal n))" by (cases "decimal n") auto
  then have "\<not> prefix [43] (decimal n)" "\<not> prefix [45] (decimal n)"
    by (auto simp: prefix_def is_ascii_digit_def)
  moreover have "int n < 2 ^ 63" using n by (metis of_nat_less_iff of_nat_numeral of_nat_power)
  ultimately show ?thesis using d by (simp add: parse_i64_def Let_def)
qed

text \<open>Signed numbers.\<close>

definition decimal_int :: "int \<Rightarrow> ustr" where
  "decimal_int i = (if i < 0 then 45 # decimal (nat (- i)) else decimal (nat i))"

end
