(* ===== verification/Regex.thy ===== *)
theory Regex
  imports Rust_Str
begin

text \<open>
  The regular expressions of the source. The patterns are written there, so they are data
  here: the syntax \<open>re\<close> covers what the patterns use. What a pattern matches is the inductive
  relation \<open>re_match\<close>, with the word-boundary test \<open>\b\<close> and the capture groups. The engine
  itself is the external crate regex: the locale \<open>regex_crate\<close> states the documented
  behaviour the source relies on (successive non-overlapping leftmost matches,
  \<open>replace_all\<close>, \<open>captures\<close>), over a parameter engine and its Unicode classes. An
  executable backtracking matcher, proved sound and complete for \<open>re_match\<close>, interprets it.
\<close>

subsection \<open>Patterns\<close>

datatype re =
  REps
| RCls "uchar \<Rightarrow> bool"
| RSeq re re
| RAlt re re
| RStar re
| RBound
| RGroup nat re

type_synonym captures = "(nat \<times> nat \<times> nat) list"
type_synonym re_hit = "nat \<times> nat \<times> captures"

definition RChr :: "uchar \<Rightarrow> re" where
  "RChr c = RCls (\<lambda>x. x = c)"

text \<open>\<open>r?\<close>, \<open>r{n}\<close>, \<open>r{0,n}\<close> and \<open>r{m,n}\<close>, all greedy; a sequence of several parts.\<close>

definition ROpt :: "re \<Rightarrow> re" where
  "ROpt r = RAlt r REps"

fun RRep :: "nat \<Rightarrow> re \<Rightarrow> re" where
  "RRep 0 r = REps"
| "RRep (Suc n) r = RSeq r (RRep n r)"

fun RUpto :: "nat \<Rightarrow> re \<Rightarrow> re" where
  "RUpto 0 r = REps"
| "RUpto (Suc n) r = ROpt (RSeq r (RUpto n r))"

definition RBetween :: "nat \<Rightarrow> nat \<Rightarrow> re \<Rightarrow> re" where
  "RBetween m n r = RSeq (RRep m r) (RUpto (n - m) r)"

fun RCat :: "re list \<Rightarrow> re" where
  "RCat [] = REps"
| "RCat [r] = r"
| "RCat (r # rs) = RSeq r (RCat rs)"

definition RPlus :: "re \<Rightarrow> re" where
  "RPlus r = RSeq r (RStar r)"

subsection \<open>What a pattern matches\<close>

definition at_boundary :: "(uchar \<Rightarrow> bool) \<Rightarrow> ustr \<Rightarrow> nat \<Rightarrow> bool" where
  "at_boundary w s i \<longleftrightarrow>
     (0 < i \<and> w (s ! (i - 1))) \<noteq> (i < length s \<and> w (s ! i))"

inductive re_match :: "(uchar \<Rightarrow> bool) \<Rightarrow> ustr \<Rightarrow> re \<Rightarrow> nat \<Rightarrow> nat \<Rightarrow> captures \<Rightarrow> bool"
  for w s where
  eps: "i \<le> length s \<Longrightarrow> re_match w s REps i i []"
| cls: "i < length s \<Longrightarrow> P (s ! i) \<Longrightarrow> re_match w s (RCls P) i (Suc i) []"
| seq: "re_match w s a i j c \<Longrightarrow> re_match w s b j k d \<Longrightarrow> re_match w s (RSeq a b) i k (c @ d)"
| alt1: "re_match w s a i j c \<Longrightarrow> re_match w s (RAlt a b) i j c"
| alt2: "re_match w s b i j c \<Longrightarrow> re_match w s (RAlt a b) i j c"
| star0: "i \<le> length s \<Longrightarrow> re_match w s (RStar r) i i []"
| star1: "re_match w s r i j c \<Longrightarrow> i < j \<Longrightarrow> re_match w s (RStar r) j k d \<Longrightarrow>
     re_match w s (RStar r) i k (c @ d)"
| bound: "i \<le> length s \<Longrightarrow> at_boundary w s i \<Longrightarrow> re_match w s RBound i i []"
| group: "re_match w s r i j c \<Longrightarrow> re_match w s (RGroup n r) i j ((n, i, j) # c)"

inductive_simps re_match_simps [simp]:
  "re_match w s REps i j c"
  "re_match w s (RCls P) i j c"
  "re_match w s (RSeq a b) i j c"
  "re_match w s (RAlt a b) i j c"
  "re_match w s RBound i j c"
  "re_match w s (RGroup n r) i j c"

inductive_cases re_match_starE: "re_match w s (RStar r) i j c"

lemma re_match_bounds: "re_match w s r i j c \<Longrightarrow> i \<le> j \<and> j \<le> length s"
  by (induction rule: re_match.induct) auto

lemma re_match_opt [simp]:
  "re_match w s (ROpt r) i j c \<longleftrightarrow>
     re_match w s r i j c \<or> j = i \<and> i \<le> length s \<and> c = []"
  by (auto simp: ROpt_def)

lemma re_match_chr [simp]:
  "re_match w s (RChr x) i j c \<longleftrightarrow> j = Suc i \<and> c = [] \<and> i < length s \<and> s ! i = x"
  by (auto simp: RChr_def)

lemma re_match_cat2 [simp]:
  "re_match w s (RCat (r # q # rs)) i j c \<longleftrightarrow> re_match w s (RSeq r (RCat (q # rs))) i j c"
  by simp

text \<open>Only the text matters for the word class.\<close>

lemma at_boundary_cong:
  "\<forall>x\<in>set s. w x = v x \<Longrightarrow> i \<le> length s \<Longrightarrow> at_boundary w s i = at_boundary v s i"
  by (cases i) (auto simp: at_boundary_def)

text \<open>All characters of a match satisfy one of the pattern's classes.\<close>

fun re_chars :: "re \<Rightarrow> uchar \<Rightarrow> bool" where
  "re_chars REps x = False"
| "re_chars (RCls P) x = P x"
| "re_chars (RSeq a b) x = (re_chars a x \<or> re_chars b x)"
| "re_chars (RAlt a b) x = (re_chars a x \<or> re_chars b x)"
| "re_chars (RStar r) x = re_chars r x"
| "re_chars RBound x = False"
| "re_chars (RGroup n r) x = re_chars r x"

lemma re_match_chars:
  "re_match w s r i j c \<Longrightarrow> i \<le> k \<Longrightarrow> k < j \<Longrightarrow> re_chars r (s ! k)"
proof (induction rule: re_match.induct)
  case (cls i P)
  then have "k = i" by simp
  with cls show ?case by simp
next
  case (seq a i j c b l d)
  then show ?case by (cases "k < j") auto
next
  case (star1 r i j c l d)
  then show ?case by (cases "k < j") auto
qed auto

text \<open>A match depends only on the matched characters and on the boundaries within it, so it
  can be moved to another text that agrees on both.\<close>

lemma re_match_shift:
  "re_match w t r i j c \<Longrightarrow> \<forall>k. i \<le> k \<and> k < j \<longrightarrow> t ! k = s ! (k - m + n) \<Longrightarrow>
     \<forall>k. i \<le> k \<and> k \<le> j \<longrightarrow> at_boundary w t k = at_boundary w s (k - m + n) \<Longrightarrow>
     m \<le> i \<Longrightarrow> j - m + n \<le> length s \<Longrightarrow> \<exists>c'. re_match w s r (i - m + n) (j - m + n) c'"
proof (induction rule: re_match.induct)
  case (cls i P)
  then show ?case by (auto simp: Suc_diff_le)
next
  case (seq a i j c b k d)
  from re_match_bounds [OF seq.hyps(1)] re_match_bounds [OF seq.hyps(2)]
  have "i \<le> j" "j \<le> k" by auto
  then have "\<exists>c'. re_match w s a (i - m + n) (j - m + n) c'"
    by (intro seq.IH(1)) (use seq.prems in auto)
  moreover have "\<exists>c'. re_match w s b (j - m + n) (k - m + n) c'"
    by (intro seq.IH(2)) (use seq.prems \<open>i \<le> j\<close> \<open>j \<le> k\<close> in auto)
  ultimately show ?case by (blast intro: re_match.seq)
next
  case (star1 r i j c k d)
  from re_match_bounds [OF star1.hyps(1)] re_match_bounds [OF star1.hyps(3)]
  have "i \<le> j" "j \<le> k" by auto
  then have "\<exists>c'. re_match w s r (i - m + n) (j - m + n) c'"
    by (intro star1.IH(1)) (use star1.prems in auto)
  moreover have "\<exists>c'. re_match w s (RStar r) (j - m + n) (k - m + n) c'"
    by (intro star1.IH(2)) (use star1.prems \<open>i \<le> j\<close> \<open>j \<le> k\<close> in auto)
  moreover have "i - m + n < j - m + n" using star1.hyps(2) star1.prems(3) by linarith
  ultimately show ?case by (blast intro: re_match.star1)
qed (blast intro: re_match.intros | force intro: re_match.star0)+

text \<open>Patterns that need at least one character.\<close>

fun re_nonempty :: "re \<Rightarrow> bool" where
  "re_nonempty (RCls P) = True"
| "re_nonempty (RSeq a b) = (re_nonempty a \<or> re_nonempty b)"
| "re_nonempty (RAlt a b) = (re_nonempty a \<and> re_nonempty b)"
| "re_nonempty (RGroup n r) = re_nonempty r"
| "re_nonempty r = False"

lemma re_nonempty_match: "re_match w s r i j c \<Longrightarrow> re_nonempty r \<Longrightarrow> i < j"
proof (induction rule: re_match.induct)
  case (seq a i j c b k d)
  with re_match_bounds [OF seq.hyps(1)] re_match_bounds [OF seq.hyps(2)] show ?case by auto
qed auto

subsection \<open>An executable matcher\<close>

text \<open>All ways a pattern matches from a position, in the order of preference: the first
  alternative first, more iterations before fewer.\<close>

fun star_ends :: "(nat \<Rightarrow> (nat \<times> captures) list) \<Rightarrow> nat \<Rightarrow> nat \<Rightarrow> (nat \<times> captures) list" where
  "star_ends f 0 i = [(i, [])]"
| "star_ends f (Suc n) i =
     concat (map (\<lambda>(j, c). if i < j then map (\<lambda>(k, d). (k, c @ d)) (star_ends f n j) else []) (f i))
     @ [(i, [])]"

fun ends :: "(uchar \<Rightarrow> bool) \<Rightarrow> ustr \<Rightarrow> re \<Rightarrow> nat \<Rightarrow> (nat \<times> captures) list" where
  "ends w s REps i = [(i, [])]"
| "ends w s (RCls P) i = (if i < length s \<and> P (s ! i) then [(Suc i, [])] else [])"
| "ends w s (RSeq a b) i =
     concat (map (\<lambda>(j, c). map (\<lambda>(k, d). (k, c @ d)) (ends w s b j)) (ends w s a i))"
| "ends w s (RAlt a b) i = ends w s a i @ ends w s b i"
| "ends w s (RStar r) i = star_ends (ends w s r) (length s - i) i"
| "ends w s RBound i = (if at_boundary w s i then [(i, [])] else [])"
| "ends w s (RGroup n r) i = map (\<lambda>(j, c). (j, (n, i, j) # c)) (ends w s r i)"

lemma star_ends_sound:
  assumes "\<And>i j c. (j, c) \<in> set (f i) \<Longrightarrow> i \<le> length s \<Longrightarrow> re_match w s r i j c"
  shows "(j, c) \<in> set (star_ends f n i) \<Longrightarrow> i \<le> length s \<Longrightarrow> re_match w s (RStar r) i j c"
proof (induction n arbitrary: i j c)
  case 0
  then show ?case by (auto intro: re_match.star0)
next
  case (Suc n)
  then consider "j = i" "c = []" | k d e where "(k, d) \<in> set (f i)" "i < k"
      "(j, e) \<in> set (star_ends f n k)" "c = d @ e"
    by (auto split: if_splits)
  then show ?case
  proof cases
    case 1
    with Suc.prems show ?thesis by (auto intro: re_match.star0)
  next
    case 2
    have "re_match w s r i k d" using assms [OF 2(1)] Suc.prems by simp
    moreover from re_match_bounds [OF this] have "k \<le> length s" by simp
    ultimately show ?thesis using Suc.IH [OF 2(3)] 2 by (auto intro: re_match.star1)
  qed
qed

lemma ends_sound: "(j, c) \<in> set (ends w s r i) \<Longrightarrow> i \<le> length s \<Longrightarrow> re_match w s r i j c"
proof (induction r arbitrary: i j c)
  case (RSeq a b)
  then obtain k d e where "(k, d) \<in> set (ends w s a i)" "(j, e) \<in> set (ends w s b k)" "c = d @ e"
    by auto
  moreover from RSeq.IH(1) [OF this(1) RSeq.prems(2)] have "re_match w s a i k d" .
  moreover from re_match_bounds [OF this] have "k \<le> length s" by simp
  ultimately show ?case using RSeq.IH(2) [of j e k] by auto
next
  case (RStar r)
  have "(j, c) \<in> set (star_ends (ends w s r) (length s - i) i)" using RStar.prems(1) by simp
  from star_ends_sound [OF RStar.IH this RStar.prems(2)] show ?case by simp
qed (auto split: if_splits)

lemma star_ends_complete:
  assumes "\<And>i j c. re_match w s r i j c \<Longrightarrow> (j, c) \<in> set (f i)"
  shows "re_match w s q i j c \<Longrightarrow> q = RStar r \<Longrightarrow> length s - i \<le> n \<Longrightarrow>
    (j, c) \<in> set (star_ends f n i)"
proof (induction arbitrary: n rule: re_match.induct)
  case (star0 i r')
  then show ?case by (cases n) auto
next
  case (star1 r' i j c k d)
  from re_match_bounds [OF star1.hyps(1)] re_match_bounds [OF star1.hyps(3)] star1.hyps(2)
  obtain m where n: "n = Suc m" "length s - j \<le> m"
    using star1.prems(2) by (cases n) auto
  with star1 have "(k, d) \<in> set (star_ends f m j)" by simp
  moreover have "(j, c) \<in> set (f i)" using assms star1 by simp
  ultimately show ?case using star1.hyps(2) n(1) by force
qed auto

lemma ends_complete: "re_match w s r i j c \<Longrightarrow> (j, c) \<in> set (ends w s r i)"
proof (induction r arbitrary: i j c)
  case (RSeq a b)
  then show ?case by fastforce
next
  case (RStar r)
  from star_ends_complete [OF RStar.IH RStar.prems refl] show ?case by simp
next
  case (RGroup n r)
  then show ?case by force
qed auto

lemma ends_iff: "i \<le> length s \<Longrightarrow> (j, c) \<in> set (ends w s r i) \<longleftrightarrow> re_match w s r i j c"
  using ends_sound ends_complete by blast

text \<open>A text without any match, decided by evaluation.\<close>

definition no_match :: "(uchar \<Rightarrow> bool) \<Rightarrow> ustr \<Rightarrow> re \<Rightarrow> bool" where
  "no_match w s r \<longleftrightarrow> list_all (\<lambda>i. ends w s r i = []) [0..<Suc (length s)]"

lemma no_match_iff: "no_match w s r \<longleftrightarrow> (\<forall>i j c. \<not> re_match w s r i j c)"
proof
  assume n: "no_match w s r"
  show "\<forall>i j c. \<not> re_match w s r i j c"
  proof (intro allI notI)
    fix i j c assume m: "re_match w s r i j c"
    then have "i \<le> length s" using re_match_bounds by fastforce
    with n have "ends w s r i = []"
      unfolding no_match_def list_all_iff by (simp del: upt_Suc)
    with ends_complete [OF m] show False by simp
  qed
next
  assume n: "\<forall>i j c. \<not> re_match w s r i j c"
  have "ends w s r i = []" if "i \<le> length s" for i
  proof (rule ccontr)
    assume "ends w s r i \<noteq> []"
    then obtain j c where "(j, c) \<in> set (ends w s r i)" by (cases "ends w s r i") auto
    from ends_sound [OF this that] n show False by blast
  qed
  then show "no_match w s r" unfolding no_match_def list_all_iff by auto
qed

subsection \<open>The engine\<close>

text \<open>Replacing the hits of a list, in order, from a position on.\<close>

fun replace_spans :: "ustr \<Rightarrow> nat \<Rightarrow> re_hit list \<Rightarrow> (re_hit \<Rightarrow> ustr) \<Rightarrow> ustr" where
  "replace_spans s pos [] f = drop pos s"
| "replace_spans s pos ((a, b, c) # hs) f =
     take (a - pos) (drop pos s) @ f (a, b, c) @ replace_spans s b hs f"

record regex_engine =
  re_matches :: "re \<Rightarrow> ustr \<Rightarrow> re_hit list"
  re_replace_all :: "re \<Rightarrow> (re_hit \<Rightarrow> ustr) \<Rightarrow> ustr \<Rightarrow> ustr"
  re_captures :: "re \<Rightarrow> ustr \<Rightarrow> re_hit option"

definition ascii_word :: "uchar \<Rightarrow> bool" where
  "ascii_word c \<longleftrightarrow> is_ascii_digit c \<or> 65 \<le> c \<and> c \<le> 90 \<or> c = 95 \<or> 97 \<le> c \<and> c \<le> 122"

definition hit_before :: "re_hit \<Rightarrow> re_hit \<Rightarrow> bool" where
  "hit_before h h' \<longleftrightarrow> fst (snd h) \<le> fst h'"

locale regex_crate =
  fixes eng :: regex_engine and w :: "uchar \<Rightarrow> bool" and d :: "uchar \<Rightarrow> bool"
  assumes word_ascii: "0 \<le> x \<Longrightarrow> x < 128 \<Longrightarrow> w x = ascii_word x"
    and digit_ascii: "0 \<le> x \<Longrightarrow> x < 128 \<Longrightarrow> d x = is_ascii_digit x"
    and matches_sound: "(a, b, c) \<in> set (re_matches eng r s) \<Longrightarrow> re_match w s r a b c"
    and matches_order: "sorted_wrt hit_before (re_matches eng r s)"
    and digit_word: "d x \<Longrightarrow> w x"
    and matches_leftmost: "re_match w s r a b c \<Longrightarrow> re_nonempty r \<Longrightarrow>
      \<exists>(a', b', c') \<in> set (re_matches eng r s). a' \<le> a \<and> (a' = a \<or> a < b')"
    and replace_all_spans:
      "re_replace_all eng r f s = replace_spans s 0 (re_matches eng r s) f"
    and captures_first:
      "re_captures eng r s = (case re_matches eng r s of [] \<Rightarrow> None | h # _ \<Rightarrow> Some h)"
begin

lemma no_match_matches:
  assumes "no_match w s r"
  shows "re_matches eng r s = []"
proof (cases "re_matches eng r s")
  case (Cons h hs)
  obtain a b c where "h = (a, b, c)" by (cases h)
  with Cons have "re_match w s r a b c" by (intro matches_sound) simp
  with assms show ?thesis by (simp add: no_match_iff)
qed

lemma replace_all_no_match: "no_match w s r \<Longrightarrow> re_replace_all eng r f s = s"
  by (simp add: replace_all_spans no_match_matches)

lemma hit_span: "(a, b, c) \<in> set (re_matches eng r s) \<Longrightarrow> a \<le> b \<and> b \<le> length s"
  using matches_sound re_match_bounds by blast

end

subsection \<open>The executable matcher is such an engine\<close>

fun iter_hits :: "(uchar \<Rightarrow> bool) \<Rightarrow> ustr \<Rightarrow> re \<Rightarrow> nat \<Rightarrow> nat \<Rightarrow> re_hit list" where
  "iter_hits w s r 0 i = []"
| "iter_hits w s r (Suc n) i =
     (case List.find (\<lambda>a. ends w s r a \<noteq> []) [i..<Suc (length s)] of
        None \<Rightarrow> []
      | Some a \<Rightarrow> (case hd (ends w s r a) of (b, c) \<Rightarrow>
          (a, b, c) # iter_hits w s r n (if a < b then b else Suc a)))"

definition backtracking :: "(uchar \<Rightarrow> bool) \<Rightarrow> regex_engine" where
  "backtracking w =
     (let hits = (\<lambda>r s. iter_hits w s r (Suc (Suc (length s))) 0) in
      \<lparr>re_matches = hits,
       re_replace_all = (\<lambda>r f s. replace_spans s 0 (hits r s) f),
       re_captures = (\<lambda>r s. case hits r s of [] \<Rightarrow> None | h # _ \<Rightarrow> Some h)\<rparr>)"

lemma find_ends:
  "List.find (\<lambda>a. ends w s r a \<noteq> []) [i..<Suc (length s)] = Some a \<Longrightarrow>
     i \<le> a \<and> a \<le> length s \<and> ends w s r a \<noteq> [] \<and> (\<forall>k. i \<le> k \<and> k < a \<longrightarrow> ends w s r k = [])"
  by (auto simp: find_Some_iff nth_append simp del: upt_Suc)
    (metis add.commute le_Suc_ex nat_add_left_cancel_less)

lemma hd_ends: "ends w s r a \<noteq> [] \<Longrightarrow> hd (ends w s r a) = (b, c) \<Longrightarrow> a \<le> length s \<Longrightarrow>
    re_match w s r a b c"
  using ends_sound by (metis hd_in_set)

lemma iter_hits_sound: "(a, b, c) \<in> set (iter_hits w s r n i) \<Longrightarrow> re_match w s r a b c \<and> i \<le> a"
proof (induction n arbitrary: i)
  case 0
  then show ?case by simp
next
  case (Suc n)
  obtain a' where f: "List.find (\<lambda>a. ends w s r a \<noteq> []) [i..<Suc (length s)] = Some a'"
    using Suc.prems by (cases "List.find (\<lambda>a. ends w s r a \<noteq> []) [i..<Suc (length s)]") simp_all
  obtain b' c' where h: "hd (ends w s r a') = (b', c')" by fastforce
  have m: "(a, b, c) = (a', b', c') \<or> (a, b, c) \<in> set (iter_hits w s r n (if a' < b' then b' else Suc a'))"
    using Suc.prems by (simp only: iter_hits.simps f h option.case prod.case set_simps insert_iff)
  note fe = find_ends [OF f]
  have hit: "re_match w s r a' b' c'" using hd_ends [OF _ h] fe by blast
  from m show ?case
  proof
    assume "(a, b, c) = (a', b', c')"
    with hit fe show ?thesis by simp
  next
    assume "(a, b, c) \<in> set (iter_hits w s r n (if a' < b' then b' else Suc a'))"
    from Suc.IH [OF this] fe re_match_bounds [OF hit] show ?thesis by (auto split: if_splits)
  qed
qed

lemma iter_hits_order: "sorted_wrt hit_before (iter_hits w s r n i)"
proof (induction n arbitrary: i)
  case 0
  then show ?case by simp
next
  case (Suc n)
  show ?case
  proof (cases "List.find (\<lambda>a. ends w s r a \<noteq> []) [i..<Suc (length s)]")
    case None
    then show ?thesis by (simp del: upt_Suc)
  next
    case (Some a)
    obtain b c where h: "hd (ends w s r a) = (b, c)" by fastforce
    have "re_match w s r a b c" using hd_ends [OF _ h] find_ends [OF Some] by blast
    then have "a \<le> b" using re_match_bounds by blast
    have "hit_before (a, b, c) x" if "x \<in> set (iter_hits w s r n (if a < b then b else Suc a))" for x
    proof -
      obtain a2 b2 c2 where x: "x = (a2, b2, c2)" by (cases x)
      from iter_hits_sound [of a2 b2 c2] that x
      have "(if a < b then b else Suc a) \<le> a2" by blast
      with \<open>a \<le> b\<close> x show ?thesis by (auto simp: hit_before_def split: if_splits)
    qed
    with Suc.IH Some h show ?thesis by (simp del: upt_Suc)
  qed
qed

lemma iter_hits_leftmost:
  assumes "re_match w s r a b c"
  shows "i \<le> a \<Longrightarrow> Suc (length s) - i < n \<Longrightarrow>
    \<exists>(a', b', c') \<in> set (iter_hits w s r n i). a' \<le> a \<and> (a' = a \<or> a < b')"
proof (induction n arbitrary: i)
  case 0
  then show ?case by simp
next
  case (Suc n)
  from assms have al: "a \<le> length s" using re_match_bounds by fastforce
  have ea: "ends w s r a \<noteq> []" using ends_complete [OF assms] by auto
  obtain a' where f: "List.find (\<lambda>a. ends w s r a \<noteq> []) [i..<Suc (length s)] = Some a'"
  proof (cases "List.find (\<lambda>a. ends w s r a \<noteq> []) [i..<Suc (length s)]")
    case None
    then have "\<forall>x\<in>set [i..<Suc (length s)]. ends w s r x = []"
      unfolding find_None_iff by blast
    with Suc.prems(1) al ea show ?thesis by (simp del: upt_Suc)
  qed simp
  note fe = find_ends [OF f]
  obtain b' c' where h: "hd (ends w s r a') = (b', c')" by fastforce
  from fe ea Suc.prems(1) have le: "a' \<le> a" by (meson not_le_imp_less)
  show ?case
  proof (cases "a' = a \<or> a < b'")
    case True
    with f h le show ?thesis by (auto simp del: upt_Suc)
  next
    case False
    let ?i = "if a' < b' then b' else Suc a'"
    have "?i \<le> a" using False le by auto
    moreover have "Suc (length s) - ?i < n" using Suc.prems(2) fe al \<open>?i \<le> a\<close> by auto
    ultimately show ?thesis using Suc.IH [of ?i] f h by (fastforce simp del: upt_Suc)
  qed
qed

interpretation bt: regex_crate "backtracking ascii_word" ascii_word is_ascii_digit
proof
  fix r s a b c
  show "re_match ascii_word s r a b c \<Longrightarrow> re_nonempty r \<Longrightarrow>
      \<exists>(a', b', c') \<in> set (re_matches (backtracking ascii_word) r s). a' \<le> a \<and> (a' = a \<or> a < b')"
    using iter_hits_leftmost [of ascii_word s r a b c 0 "Suc (Suc (length s))"]
    by (simp add: backtracking_def Let_def del: iter_hits.simps)
qed (auto simp: backtracking_def Let_def iter_hits_order ascii_word_def dest: iter_hits_sound simp del: iter_hits.simps)

end
