(* ===== verification/Database.thy ===== *)
theory Database
  imports Errors File_System
begin

text \<open>
  The database of migrations/*.sql: one record per table row, a table as the list of its rows
  in insertion order, and the constraints the schema declares (primary keys, UNIQUE columns,
  references). The statements the source sends are functions on these tables. The world of a
  handler is the database, the file system, the clock and the random ids drawn so far; a
  statement may fail, as the list of coming faults says.
\<close>

subsection \<open>Rows\<close>

record device_row =
  dv_id :: ustr
  dv_pubkey :: ustr
  dv_first_seen :: int
  dv_last_seen :: int

record group_row =
  cg_id :: ustr
  cg_signature :: ustr
  cg_kind :: ustr
  cg_title :: ustr
  cg_modules :: "ustr option"
  cg_first_seen :: int
  cg_last_seen :: int
  cg_first_seen_version :: "ustr option"
  cg_issue_url :: "ustr option"
  cg_state :: ustr

datatype report_state = Received | Decoded | Report_Failed

datatype visibility = Private | Public

record report_row =
  rp_id :: ustr
  rp_device_id :: "ustr option"
  rp_kind :: ustr
  rp_received_at :: int
  rp_captured_at :: int
  rp_version :: ustr
  rp_revision :: ustr
  rp_target :: ustr
  rp_arch :: ustr
  rp_board_name :: ustr
  rp_kernel :: ustr
  rp_payload_encoding :: ustr
  rp_state :: report_state
  rp_visibility :: visibility
  rp_group_id :: "ustr option"
  rp_publish_slug :: "ustr option"
  rp_raw_deleted_at :: "int option"
  rp_kernel_buildid :: "ustr option"

record user_row =
  us_id :: ustr
  us_login :: ustr
  us_pw_hash :: ustr
  us_role :: ustr

record token_row =
  tk_hash :: ustr
  tk_device_id :: ustr
  tk_expires :: int

record session_row =
  ss_hash :: ustr
  ss_user_id :: ustr
  ss_expires :: int

datatype job_state = Pending | Running | Done | Job_Failed

record job_row =
  jb_id :: ustr
  jb_report_id :: ustr
  jb_state :: job_state
  jb_attempts :: int
  jb_last_error :: "anyhow option"

record database =
  db_devices :: "device_row list"
  db_groups :: "group_row list"
  db_reports :: "report_row list"
  db_users :: "user_row list"
  db_tokens :: "token_row list"
  db_sessions :: "session_row list"
  db_jobs :: "job_row list"

subsection \<open>Statements on a table\<close>

definition lookup_by :: "('r \<Rightarrow> 'k) \<Rightarrow> 'k \<Rightarrow> 'r list \<Rightarrow> 'r option" where
  "lookup_by key k t = List.find (\<lambda>r. key r = k) t"

definition update_where :: "('r \<Rightarrow> bool) \<Rightarrow> ('r \<Rightarrow> 'r) \<Rightarrow> 'r list \<Rightarrow> 'r list" where
  "update_where P f t = map (\<lambda>r. if P r then f r else r) t"

definition delete_where :: "('r \<Rightarrow> bool) \<Rightarrow> 'r list \<Rightarrow> 'r list" where
  "delete_where P t = filter (\<lambda>r. \<not> P r) t"

definition keyed :: "('r \<Rightarrow> 'k) \<Rightarrow> 'r list \<Rightarrow> bool" where
  "keyed key t \<longleftrightarrow> distinct (map key t)"

definition references :: "('r \<Rightarrow> 'k) \<Rightarrow> 'k \<Rightarrow> 'r list \<Rightarrow> bool" where
  "references key k t \<longleftrightarrow> lookup_by key k t \<noteq> None"

lemma lookup_by_None: "lookup_by key k t = None \<longleftrightarrow> (\<forall>r\<in>set t. key r \<noteq> k)"
  by (auto simp: lookup_by_def find_None_iff)

lemma lookup_by_SomeD: "lookup_by key k t = Some r \<Longrightarrow> r \<in> set t \<and> key r = k"
  by (auto simp: lookup_by_def find_Some_iff)

lemma lookup_by_keyed:
  assumes "keyed key t"
  shows "lookup_by key k t = Some r \<longleftrightarrow> r \<in> set t \<and> key r = k"
proof
  assume r: "r \<in> set t \<and> key r = k"
  then have "lookup_by key k t \<noteq> None" by (auto simp: lookup_by_None)
  then obtain r' where r': "lookup_by key k t = Some r'" by blast
  from lookup_by_SomeD [OF r'] r assms have "r' = r"
    by (auto simp: keyed_def distinct_map inj_on_def)
  with r' show "lookup_by key k t = Some r" by simp
qed (auto dest: lookup_by_SomeD)

lemma lookup_by_Nil [simp, table_simps]: "lookup_by key k [] = None"
  by (simp add: lookup_by_def)

lemma lookup_by_Cons [table_simps]:
  "lookup_by key k (r # t) = (if key r = k then Some r else lookup_by key k t)"
  by (simp add: lookup_by_def)

lemma lookup_by_append [table_simps]:
  "lookup_by key k (t @ u) = (case lookup_by key k t of None \<Rightarrow> lookup_by key k u | x \<Rightarrow> x)"
  by (induction t) (simp_all add: lookup_by_def)

lemma lookup_update_where [table_simps]:
  "(\<And>r. key (f r) = key r) \<Longrightarrow>
     lookup_by key k (update_where P f t) = map_option (\<lambda>r. if P r then f r else r) (lookup_by key k t)"
  by (induction t) (simp_all add: lookup_by_def update_where_def)

lemma lookup_delete_other [table_simps]:
  "(\<And>r. key r = k \<Longrightarrow> \<not> P r) \<Longrightarrow> lookup_by key k (delete_where P t) = lookup_by key k t"
  by (induction t) (auto simp: lookup_by_def delete_where_def)

lemma keyed_append: "keyed key (t @ [r]) \<longleftrightarrow> keyed key t \<and> lookup_by key (key r) t = None"
  unfolding keyed_def lookup_by_None by (auto simp: image_iff eq_commute)

lemma keyed_update_where [simp]:
  "(\<And>r. key (f r) = key r) \<Longrightarrow> keyed key (update_where P f t) = keyed key t"
  by (simp add: keyed_def update_where_def comp_def if_distrib cong: if_cong)

lemma keyed_delete_where [simp]: "keyed key t \<Longrightarrow> keyed key (delete_where P t)"
  by (simp add: keyed_def delete_where_def distinct_map_filter)

lemma keyed_Nil [simp]: "keyed key []"
  by (simp add: keyed_def)

lemma set_update_where: "set (update_where P f t) = (\<lambda>r. if P r then f r else r) ` set t"
  by (simp add: update_where_def)

lemma update_where_origin: "r \<in> set (update_where P f t) \<Longrightarrow> \<exists>x\<in>set t. r = (if P x then f x else x)"
  by (auto simp: update_where_def)

lemma set_delete_where [simp]: "set (delete_where P t) = {r \<in> set t. \<not> P r}"
  by (auto simp: delete_where_def)

subsection \<open>Inserts under the constraints\<close>

definition insert_user :: "user_row \<Rightarrow> database \<Rightarrow> database option" where
  "insert_user r db =
     (if references us_id (us_id r) (db_users db) \<or> references us_login (us_login r) (db_users db)
      then None else Some (db\<lparr>db_users := db_users db @ [r]\<rparr>))"

definition insert_token :: "token_row \<Rightarrow> database \<Rightarrow> database option" where
  "insert_token r db =
     (if references tk_hash (tk_hash r) (db_tokens db)
         \<or> \<not> references dv_id (tk_device_id r) (db_devices db)
      then None else Some (db\<lparr>db_tokens := db_tokens db @ [r]\<rparr>))"

definition insert_session :: "session_row \<Rightarrow> database \<Rightarrow> database option" where
  "insert_session r db =
     (if references ss_hash (ss_hash r) (db_sessions db)
         \<or> \<not> references us_id (ss_user_id r) (db_users db)
      then None else Some (db\<lparr>db_sessions := db_sessions db @ [r]\<rparr>))"

definition insert_report :: "report_row \<Rightarrow> database \<Rightarrow> database option" where
  "insert_report r db =
     (if references rp_id (rp_id r) (db_reports db)
         \<or> (case rp_device_id r of None \<Rightarrow> False | Some d \<Rightarrow> \<not> references dv_id d (db_devices db))
      then None else Some (db\<lparr>db_reports := db_reports db @ [r]\<rparr>))"

definition insert_job :: "job_row \<Rightarrow> database \<Rightarrow> database option" where
  "insert_job r db =
     (if references jb_id (jb_id r) (db_jobs db)
         \<or> \<not> references rp_id (jb_report_id r) (db_reports db)
      then None else Some (db\<lparr>db_jobs := db_jobs db @ [r]\<rparr>))"

text \<open>The two upserts: \<open>ON CONFLICT\<close> covers the named column only, so a clash of the primary
  key is still an error.\<close>

definition upsert_device :: "device_row \<Rightarrow> database \<Rightarrow> (ustr \<times> database) option" where
  "upsert_device r db =
     (case lookup_by dv_pubkey (dv_pubkey r) (db_devices db) of
        Some old \<Rightarrow> Some (dv_id old,
          db\<lparr>db_devices := update_where (\<lambda>d. dv_pubkey d = dv_pubkey r)
            (\<lambda>d. d\<lparr>dv_last_seen := dv_last_seen r\<rparr>) (db_devices db)\<rparr>)
      | None \<Rightarrow>
          if references dv_id (dv_id r) (db_devices db) then None
          else Some (dv_id r, db\<lparr>db_devices := db_devices db @ [r]\<rparr>))"

definition upsert_group :: "group_row \<Rightarrow> database \<Rightarrow> (ustr \<times> database) option" where
  "upsert_group r db =
     (case lookup_by cg_signature (cg_signature r) (db_groups db) of
        Some old \<Rightarrow> Some (cg_id old,
          db\<lparr>db_groups := update_where (\<lambda>g. cg_signature g = cg_signature r)
            (\<lambda>g. g\<lparr>cg_last_seen := cg_last_seen r\<rparr>) (db_groups db)\<rparr>)
      | None \<Rightarrow>
          if references cg_id (cg_id r) (db_groups db) then None
          else Some (cg_id r, db\<lparr>db_groups := db_groups db @ [r]\<rparr>))"

subsection \<open>The world of a handler\<close>

text \<open>\<open>w_ids\<close> counts the random ids drawn; \<open>w_faults\<close> says of each coming statement whether
  it fails (no entry: it does not). The clock stands still during one handler.\<close>

record world =
  w_db :: database
  w_fs :: file_system
  w_now :: int
  w_ids :: nat
  w_faults :: "bool list"

type_synonym ('e, 'a) io = "world \<Rightarrow> ('e + 'a) \<times> world"

definition ret :: "'a \<Rightarrow> ('e, 'a) io" where
  "ret x = (\<lambda>w. (Inr x, w))"

definition throw :: "'e \<Rightarrow> ('e, 'a) io" where
  "throw e = (\<lambda>w. (Inl e, w))"

definition bindE :: "('e, 'a) io \<Rightarrow> ('a \<Rightarrow> ('e, 'b) io) \<Rightarrow> ('e, 'b) io" where
  "bindE m f = (\<lambda>w. case m w of (Inl e, w') \<Rightarrow> (Inl e, w') | (Inr x, w') \<Rightarrow> f x w')"

definition map_err :: "('e \<Rightarrow> 'f) \<Rightarrow> ('e, 'a) io \<Rightarrow> ('f, 'a) io" where
  "map_err g m = (\<lambda>w. case m w of (Inl e, w') \<Rightarrow> (Inl (g e), w') | (Inr x, w') \<Rightarrow> (Inr x, w'))"

definition lift_result :: "'e + 'a \<Rightarrow> ('e, 'a) io" where
  "lift_result r = (\<lambda>w. (r, w))"

text \<open>\<open>let _ = ...\<close>\<close>

definition ignoring :: "('e, 'a) io \<Rightarrow> world \<Rightarrow> world" where
  "ignoring m w = snd (m w)"

definition context_io :: "ustr \<Rightarrow> (anyhow, 'a) io \<Rightarrow> (anyhow, 'a) io" where
  "context_io c = map_err (\<lambda>e. Text c # e)"

text \<open>A statement: it fails when the next fault says so or when a constraint refuses it.\<close>

definition query :: "(database \<Rightarrow> ('a \<times> database) option) \<Rightarrow> (anyhow, 'a) io" where
  "query q = (\<lambda>w.
     if w_faults w \<noteq> [] \<and> hd (w_faults w)
     then (Inl [External (lit ''database error'')], w\<lparr>w_faults := tl (w_faults w)\<rparr>)
     else (case q (w_db w) of
         None \<Rightarrow> (Inl [External (lit ''constraint failed'')], w\<lparr>w_faults := tl (w_faults w)\<rparr>)
       | Some (x, db) \<Rightarrow> (Inr x, w\<lparr>w_db := db, w_faults := tl (w_faults w)\<rparr>)))"

definition select :: "(database \<Rightarrow> 'a) \<Rightarrow> (anyhow, 'a) io" where
  "select f = query (\<lambda>db. Some (f db, db))"

definition exec :: "(database \<Rightarrow> database option) \<Rightarrow> (anyhow, unit) io" where
  "exec f = query (\<lambda>db. map_option (\<lambda>db'. ((), db')) (f db))"

definition update_db :: "(database \<Rightarrow> database) \<Rightarrow> (anyhow, unit) io" where
  "update_db f = query (\<lambda>db. Some ((), f db))"

definition fs_do :: "(file_system \<Rightarrow> file_system option) \<Rightarrow> (anyhow, unit) io" where
  "fs_do f = (\<lambda>w. case f (w_fs w) of
     None \<Rightarrow> (Inl [Os_Error], w) | Some fs \<Rightarrow> (Inr (), w\<lparr>w_fs := fs\<rparr>))"

definition fs_get :: "(file_system \<Rightarrow> 'a option) \<Rightarrow> (anyhow, 'a) io" where
  "fs_get f = (\<lambda>w. (os (f (w_fs w)), w))"

definition draw :: "(nat \<Rightarrow> 'a) \<Rightarrow> ('e, 'a) io" where
  "draw supply = (\<lambda>w. (Inr (supply (w_ids w)), w\<lparr>w_ids := Suc (w_ids w)\<rparr>))"

definition get_now :: "('e, int) io" where
  "get_now = (\<lambda>w. (Inr (w_now w), w))"

subsection \<open>Reading off a run\<close>

text \<open>The simplification rules and the inversion rules the handlers' proofs share.\<close>

named_theorems io_simps

lemma io_basic [io_simps]:
  "ret x w = (Inr x, w)" "throw e w = (Inl e, w)" "lift_result r w = (r, w)"
  "draw s w = (Inr (s (w_ids w)), w\<lparr>w_ids := Suc (w_ids w)\<rparr>)" "get_now w = (Inr (w_now w), w)"
  by (simp_all add: ret_def throw_def lift_result_def draw_def get_now_def)

lemma bindE_Inr:
  "bindE m f w = (Inr y, w'') \<longleftrightarrow> (\<exists>x w'. m w = (Inr x, w') \<and> f x w' = (Inr y, w''))"
  by (auto simp: bindE_def split: prod.splits sum.splits)

lemma bindE_Inl:
  "bindE m f w = (Inl e, w'') \<longleftrightarrow>
     m w = (Inl e, w'') \<or> (\<exists>x w'. m w = (Inr x, w') \<and> f x w' = (Inl e, w''))"
  by (auto simp: bindE_def split: prod.splits sum.splits)

lemma bindE_eval [io_simps]:
  "m w = (Inr x, w') \<Longrightarrow> bindE m f w = f x w'" "m w = (Inl e, w') \<Longrightarrow> bindE m f w = (Inl e, w')"
  by (simp_all add: bindE_def)

lemma map_err_Inr [simp]: "map_err g m w = (Inr x, w') \<longleftrightarrow> m w = (Inr x, w')"
  by (auto simp: map_err_def split: prod.splits sum.splits)

lemma map_err_Inl [simp]:
  "map_err g m w = (Inl e, w') \<longleftrightarrow> (\<exists>e'. m w = (Inl e', w') \<and> e = g e')"
  by (auto simp: map_err_def split: prod.splits sum.splits)

lemma context_io_Inr [simp]: "context_io c m w = (Inr x, w') \<longleftrightarrow> m w = (Inr x, w')"
  by (simp add: context_io_def)

lemma query_Inr:
  "query q w = (Inr x, w') \<longleftrightarrow>
     \<not> (w_faults w \<noteq> [] \<and> hd (w_faults w)) \<and>
     (\<exists>db. q (w_db w) = Some (x, db) \<and> w' = w\<lparr>w_db := db, w_faults := tl (w_faults w)\<rparr>)"
  by (auto simp: query_def split: option.splits prod.splits)

lemma query_Inl:
  "query q w = (Inl e, w') \<Longrightarrow> w' = w\<lparr>w_faults := tl (w_faults w)\<rparr>"
  by (auto simp: query_def split: option.splits prod.splits if_splits)

lemma fs_do_Inr: "fs_do f w = (Inr x, w') \<longleftrightarrow> (\<exists>fs. f (w_fs w) = Some fs \<and> w' = w\<lparr>w_fs := fs\<rparr>)"
  by (auto simp: fs_do_def split: option.splits)

lemma fs_do_Inl: "fs_do f w = (Inl e, w') \<longleftrightarrow> f (w_fs w) = None \<and> w' = w \<and> e = [Os_Error]"
  by (auto simp: fs_do_def split: option.splits)

lemma fs_get_Inr: "fs_get f w = (Inr x, w') \<longleftrightarrow> f (w_fs w) = Some x \<and> w' = w"
  by (auto simp: fs_get_def)

lemma select_Inr:
  "select f w = (Inr x, w') \<longleftrightarrow> \<not> (w_faults w \<noteq> [] \<and> hd (w_faults w)) \<and> x = f (w_db w) \<and>
     w' = w\<lparr>w_faults := tl (w_faults w)\<rparr>"
  by (auto simp: select_def query_Inr)

lemma update_db_Inr:
  "update_db f w = (Inr x, w') \<longleftrightarrow> \<not> (w_faults w \<noteq> [] \<and> hd (w_faults w)) \<and>
     w' = w\<lparr>w_db := f (w_db w), w_faults := tl (w_faults w)\<rparr>"
  by (auto simp: update_db_def query_Inr)

lemma exec_Inr:
  "exec f w = (Inr x, w') \<longleftrightarrow> \<not> (w_faults w \<noteq> [] \<and> hd (w_faults w)) \<and>
     (\<exists>db. f (w_db w) = Some db \<and> w' = w\<lparr>w_db := db, w_faults := tl (w_faults w)\<rparr>)"
  by (auto simp: exec_def query_Inr)

lemmas io_inv = bindE_Inr select_Inr update_db_Inr exec_Inr query_Inr fs_do_Inr fs_get_Inr

text \<open>A relation between the world before and after that every step of a handler keeps: what
  holds of the single steps holds of their composition.\<close>

definition moves :: "(world \<Rightarrow> world \<Rightarrow> bool) \<Rightarrow> ('e, 'a) io \<Rightarrow> bool" where
  "moves P m \<longleftrightarrow> (\<forall>w. P w (snd (m w)))"

lemma movesD: "moves P m \<Longrightarrow> m w = (r, w') \<Longrightarrow> P w w'"
  unfolding moves_def by (metis snd_conv)

lemma moves_if [intro]: "moves P a \<Longrightarrow> moves P b \<Longrightarrow> moves P (if c then a else b)"
  by simp

lemma moves_option [intro]:
  "moves P a \<Longrightarrow> (\<And>x. moves P (b x)) \<Longrightarrow> moves P (case r of None \<Rightarrow> a | Some x \<Rightarrow> b x)"
  by (cases r) simp_all

lemma moves_sum [intro]:
  "(\<And>x. moves P (a x)) \<Longrightarrow> (\<And>x. moves P (b x)) \<Longrightarrow> moves P (case r of Inl x \<Rightarrow> a x | Inr x \<Rightarrow> b x)"
  by (cases r) simp_all

lemma moves_prod [intro]: "(\<And>a b. moves P (f a b)) \<Longrightarrow> moves P (case r of (a, b) \<Rightarrow> f a b)"
  by (cases r) simp

locale io_frame =
  fixes P :: "world \<Rightarrow> world \<Rightarrow> bool"
  assumes P_refl: "P w w"
    and P_trans: "P u v \<Longrightarrow> P v w \<Longrightarrow> P u w"
    and P_faults: "P w (w\<lparr>w_faults := tl (w_faults w)\<rparr>)"
    and P_ids: "P w (w\<lparr>w_ids := Suc (w_ids w)\<rparr>)"
begin

lemma moves_pure [intro]:
  "moves P (ret x)" "moves P (throw e)" "moves P (lift_result r)" "moves P get_now" "moves P (draw s)"
  by (simp_all add: moves_def io_basic P_refl P_ids)

lemma moves_bind [intro]:
  assumes "moves P m" "\<And>x. moves P (f x)"
  shows "moves P (bindE m f)"
  unfolding moves_def
proof
  fix w
  obtain r w' where m: "m w = (r, w')" by fastforce
  with movesD [OF assms(1) m] show "P w (snd (bindE m f w))"
    using assms(2) by (cases r) (auto simp: bindE_def moves_def intro: P_trans)
qed

lemma moves_map_err [intro]: "moves P m \<Longrightarrow> moves P (map_err g m)"
  by (auto simp: moves_def map_err_def split: prod.splits sum.splits) (metis snd_conv)+

lemma moves_context [intro]: "moves P m \<Longrightarrow> moves P (context_io c m)"
  by (simp add: context_io_def moves_map_err)

lemma moves_fs_get [intro]: "moves P (fs_get g)"
  by (auto simp: moves_def fs_get_def P_refl)

lemma moves_fs_do:
  assumes "\<And>w fs. f (w_fs w) = Some fs \<Longrightarrow> P w (w\<lparr>w_fs := fs\<rparr>)"
  shows "moves P (fs_do f)"
  using assms by (auto simp: moves_def fs_do_def P_refl split: option.splits)

lemma moves_query:
  assumes "\<And>w x db. q (w_db w) = Some (x, db) \<Longrightarrow> P w (w\<lparr>w_db := db\<rparr>)"
  shows "moves P (query q)"
  unfolding moves_def
proof
  fix w
  show "P w (snd (query q w))"
  proof (cases "query q w")
    case (Pair r w')
    have f: "P v (v\<lparr>w_faults := tl (w_faults v)\<rparr>)" for v by (rule P_faults)
    show ?thesis
    proof (cases r)
      case (Inl e)
      with Pair query_Inl [of q w e w'] P_faults show ?thesis by simp
    next
      case (Inr x)
      with Pair query_Inr [of q w x w'] obtain db where
        "q (w_db w) = Some (x, db)" "w' = w\<lparr>w_db := db, w_faults := tl (w_faults w)\<rparr>" by auto
      with assms [of w x db] f [of "w\<lparr>w_db := db\<rparr>"] Pair show ?thesis
        by (auto intro: P_trans)
    qed
  qed
qed

lemma moves_select [intro]: "moves P (select f)"
  unfolding select_def by (rule moves_query) (use P_refl in auto)

lemma moves_update:
  assumes "\<And>w. P w (w\<lparr>w_db := f (w_db w)\<rparr>)"
  shows "moves P (update_db f)"
  unfolding update_db_def by (rule moves_query) (use assms in auto)

lemma moves_exec:
  assumes "\<And>w db. f (w_db w) = Some db \<Longrightarrow> P w (w\<lparr>w_db := db\<rparr>)"
  shows "moves P (exec f)"
  unfolding exec_def by (rule moves_query) (use assms in auto)

lemma ignoring_moves: "moves P m \<Longrightarrow> P w (ignoring m w)"
  by (simp add: ignoring_def moves_def)

end

text \<open>Relations that do not look at the file system.\<close>

locale io_frame_fs = io_frame P for P :: "world \<Rightarrow> world \<Rightarrow> bool" +
  assumes P_fs: "P w (w\<lparr>w_fs := fs\<rparr>)"
begin

lemma moves_fs [intro]: "moves P (fs_do f)" "moves P (fs_get g)"
  using moves_fs_do P_fs by auto

end

lemma fst_result: "fst r = x \<Longrightarrow> r = (x, snd r)"
  by (cases r) simp

text \<open>The basic frame: the clock stands still, faults are only consumed, ids only drawn.\<close>

definition same_clock :: "world \<Rightarrow> world \<Rightarrow> bool" where
  "same_clock w w' \<longleftrightarrow> w_now w' = w_now w \<and> length (w_faults w') \<le> length (w_faults w)
     \<and> w_ids w \<le> w_ids w'"

interpretation clock: io_frame_fs same_clock
  by unfold_locales (auto simp: same_clock_def)

end
