(* ===== verification/Symbols.thy ===== *)
theory Symbols
  imports Decimal Config Regex Database
begin

text \<open>
  crates/ucrs-decoder/src/symbols.rs, first part: the pool of debug symbols. Parameters are
  the object-file parser, the HTTP client, SHA-256 with hex, zstd and the tar reader; what
  unpacking an entry does to the file system is a parameter too. Log lines are left out.
\<close>

definition MAX_TARBALL_SIZE :: nat where
  "MAX_TARBALL_SIZE = 2 * 1024 * 1024 * 1024"

text \<open>What \<open>object\<close> finds in a file, and an HTTP answer with a good status: the announced length,
  the chunks, and the error that ends them, if any.\<close>

record object_file =
  of_build_id :: "ustr option"
  of_symbols :: "(bool \<times> ustr option \<times> u64) list"

record http_body =
  hb_content_length :: "nat option"
  hb_chunks :: "byte list list"
  hb_error :: "ustr option"

type_synonym loader = "u64 \<Rightarrow> (ustr option \<times> u32 option) option"

record 'entry symbols_env =
  sy_object :: "byte list \<Rightarrow> object_file option"
  sy_loader :: "byte list \<Rightarrow> loader option"
  sy_get :: "ustr \<Rightarrow> ustr + http_body"
  sy_get_text :: "ustr \<Rightarrow> ustr + ustr"
  sy_sha_hex :: "byte list \<Rightarrow> ustr"
  sy_lowercase :: "ustr \<Rightarrow> ustr"
  sy_archive :: "byte list \<Rightarrow> ustr + (ustr + 'entry) list"
  sy_entry_path :: "'entry \<Rightarrow> ustr + ustr"
  sy_unpack_in :: "'entry \<Rightarrow> ustr \<Rightarrow> file_system \<Rightarrow> file_system option"
  sy_regex :: regex_engine
  sy_ws :: "uchar \<Rightarrow> bool"

record symbol_pool =
  sp_dir :: ustr
  sp_release_url :: ustr
  sp_snapshot_url :: ustr

definition new_pool :: "config \<Rightarrow> symbol_pool" where
  "new_pool cfg = \<lparr>sp_dir = symbols_dir cfg, sp_release_url = kernel_release (symbols cfg),
     sp_snapshot_url = kernel_snapshot (symbols cfg)\<rparr>"

subsection \<open>Fetching\<close>

definition file_build_id :: "'n symbols_env \<Rightarrow> file_system \<Rightarrow> ustr \<Rightarrow> ustr option" where
  "file_build_id e fs path =
     Option.bind (fs_read fs path) (\<lambda>data. Option.bind (sy_object e data) of_build_id)"

text \<open>The chunks are added up and the size is checked after each.\<close>

fun read_chunks :: "nat \<Rightarrow> byte list \<Rightarrow> byte list list \<Rightarrow> ustr option \<Rightarrow> anyhow + byte list" where
  "read_chunks cap data [] err = (case err of None \<Rightarrow> Inr data | Some t \<Rightarrow> Inl [External t])"
| "read_chunks cap data (c # cs) err =
     (if length (data @ c) > cap then bail (lit ''tarball too large'')
      else read_chunks cap (data @ c) cs err)"

definition download :: "'n symbols_env \<Rightarrow> file_system \<Rightarrow> ustr \<Rightarrow> anyhow + byte list" where
  "download e fs url =
     (case strip_prefix (lit ''file://'') url of
        Some path \<Rightarrow>
          (case fs_read fs path of
             None \<Rightarrow> Inl [Text (lit ''reading '' @ path), Os_Error]
           | Some d \<Rightarrow> if length d > MAX_TARBALL_SIZE then bail (lit ''tarball too large'') else Inr d)
      | None \<Rightarrow>
          (case sy_get e url of
             Inl t \<Rightarrow> Inl [External t]
           | Inr resp \<Rightarrow>
               if (case hb_content_length resp of None \<Rightarrow> 0 | Some n \<Rightarrow> n) > MAX_TARBALL_SIZE
               then bail (lit ''tarball too large'')
               else read_chunks MAX_TARBALL_SIZE [] (hb_chunks resp) (hb_error resp)))"

text \<open>The line of the sums file for a file name: \<open><sha256> *<filename>\<close>.\<close>

fun find_sum :: "(ustr \<Rightarrow> ustr) \<Rightarrow> ustr \<Rightarrow> ustr list \<Rightarrow> ustr option" where
  "find_sum lower file [] = None"
| "find_sum lower file (line # ls) =
     (case split_once [32] line of
        Some (sha, name) \<Rightarrow>
          if dropWhile (\<lambda>c. c = 42) name = file then Some (lower (trim sha)) else find_sum lower file ls
      | None \<Rightarrow> find_sum lower file ls)"

definition fetch_expected_sha256 :: "'n symbols_env \<Rightarrow> ustr \<Rightarrow> anyhow + ustr" where
  "fetch_expected_sha256 e url =
     (case rsplit_once [47] url of
        None \<Rightarrow> bail (lit ''invalid url'')
      | Some (base, file) \<Rightarrow>
          (case sy_get_text e (base @ lit ''/sha256sums'') of
             Inl t \<Rightarrow> Inl [External t]
           | Inr sums \<Rightarrow>
               (case find_sum (sy_lowercase e) file (str_lines sums) of
                  Some sha \<Rightarrow> Inr sha
                | None \<Rightarrow> bail (lit ''no sha256sums entry for '' @ file))))"

subsection \<open>Unpacking\<close>

text \<open>\<open>path.starts_with("debug")\<close>, by components: a relative path whose first one is \<open>debug\<close>.\<close>

definition starts_with_debug :: "ustr \<Rightarrow> bool" where
  "starts_with_debug p \<longleftrightarrow> hd (split_by (\<lambda>c. c = 47) p) = lit ''debug''"

fun unpack_entries :: "'n symbols_env \<Rightarrow> ustr \<Rightarrow> (ustr + 'n) list \<Rightarrow> (anyhow, unit) io" where
  "unpack_entries e dest [] = ret ()"
| "unpack_entries e dest (r # rs) =
     (case r of
        Inl t \<Rightarrow> throw [External t]
      | Inr entry \<Rightarrow>
          (case sy_entry_path e entry of
             Inl t \<Rightarrow> throw [External t]
           | Inr path \<Rightarrow>
               if \<not> starts_with_debug path then unpack_entries e dest rs
               else bindE (fs_do (sy_unpack_in e entry dest)) (\<lambda>_. unpack_entries e dest rs)))"

definition extract_tarball :: "'n symbols_env \<Rightarrow> byte list \<Rightarrow> ustr \<Rightarrow> (anyhow, unit) io" where
  "extract_tarball e data dest =
     bindE (fs_do (\<lambda>fs. fs_create_dir_all fs dest)) (\<lambda>_.
     case sy_archive e data of
       Inl t \<Rightarrow> throw [External t]
     | Inr entries \<Rightarrow> unpack_entries e dest entries)"

text \<open>\<open>canonicalize\<close>: the absolute path behind the links.\<close>

definition canonicalize :: "file_system \<Rightarrow> ustr \<Rightarrow> ustr option" where
  "canonicalize fs p =
     map_option (\<lambda>k. 47 # join_with [47] k) (follow MAX_LINKS fs (path_key fs p))"

fun index_files :: "'n symbols_env \<Rightarrow> ustr \<Rightarrow> ustr list \<Rightarrow> (anyhow, unit) io" where
  "index_files e pool_root [] = ret ()"
| "index_files e pool_root (file # files) = (\<lambda>w.
     case file_build_id e (w_fs w) file of
       None \<Rightarrow> index_files e pool_root files w
     | Some bid \<Rightarrow>
         if str_len bid < 4 then index_files e pool_root files w
         else
           let link_dir = path_join (path_join pool_root (lit ''.build-id'')) (take 2 bid);
               link = path_join link_dir (drop 2 bid @ lit ''.debug'') in
           bindE (fs_do (\<lambda>fs. fs_create_dir_all fs link_dir)) (\<lambda>_ w1.
           bindE (fs_get (\<lambda>fs. canonicalize fs file)) (\<lambda>target.
           bindE (fs_do (\<lambda>fs. fs_symlink fs target link)) (\<lambda>_.
           index_files e pool_root files)) (ignoring (fs_do (\<lambda>fs. fs_remove_file fs link)) w1)) w)"

definition index_build_ids :: "'n symbols_env \<Rightarrow> ustr \<Rightarrow> ustr \<Rightarrow> (anyhow, unit) io" where
  "index_build_ids e dest pool_root = (\<lambda>w.
     index_files e pool_root
       (path_join dest (lit ''debug/vmlinux'') #
        (case fs_read_dir (w_fs w) (path_join dest (lit ''debug/modules'')) of
           None \<Rightarrow> [] | Some fs \<Rightarrow> fs)) w)"

definition stamp_now :: "ustr \<Rightarrow> world \<Rightarrow> world" where
  "stamp_now stamp w =
     ignoring (fs_do (\<lambda>fs. fs_write fs stamp (as_bytes (decimal (nat (w_now w)))))) w"

definition finish_extract :: "'n symbols_env \<Rightarrow> symbol_pool \<Rightarrow> ustr \<Rightarrow> ustr \<Rightarrow> (anyhow, ustr) io" where
  "finish_extract e pool dest stamp = (\<lambda>w.
     if \<not> fs_exists (w_fs w) (path_join dest (lit ''debug/vmlinux''))
     then (bail (lit ''tarball did not contain debug/vmlinux''), w)
     else (Inr dest, stamp_now stamp (ignoring (index_build_ids e dest (sp_dir pool)) w)))"

definition kernel_dest :: "symbol_pool \<Rightarrow> ustr \<Rightarrow> ustr \<Rightarrow> ustr" where
  "kernel_dest pool version target =
     path_join (path_join (path_join (sp_dir pool) (lit ''kernel'')) version) target"

definition artifact_url :: "symbol_pool \<Rightarrow> ustr \<Rightarrow> ustr \<Rightarrow> ustr" where
  "artifact_url pool version target =
     (let template = (if version = lit ''SNAPSHOT'' then sp_snapshot_url pool else sp_release_url pool) in
      replace_all (lit ''{target}'') target (replace_all (lit ''{version}'') version template))"

definition stale_cache :: "'n symbols_env \<Rightarrow> file_system \<Rightarrow> ustr \<Rightarrow> ustr option \<Rightarrow> bool" where
  "stale_cache e fs vmlinux expected_buildid =
     (case (expected_buildid, file_build_id e fs vmlinux) of
        (Some expected, Some got) \<Rightarrow> \<not> eq_ignore_case got expected
      | _ \<Rightarrow> False)"

text \<open>The part of \<open>ensure_kernel\<close> behind the cache: download, check, unpack.\<close>

definition checksum_ok :: "'n symbols_env \<Rightarrow> ustr \<Rightarrow> byte list \<Rightarrow> anyhow + unit" where
  "checksum_ok e url tarball =
     (case fetch_expected_sha256 e url of
        Inr expected \<Rightarrow>
          (let got = sy_sha_hex e tarball in
           if got \<noteq> expected
           then bail (lit ''kernel-debug.tar.zst checksum mismatch (got '' @ got @ lit '', expected '' @ expected @ lit '')'')
           else Inr ())
      | Inl _ \<Rightarrow> Inr ())"

definition fetch_kernel ::
  "'n symbols_env \<Rightarrow> symbol_pool \<Rightarrow> ustr \<Rightarrow> ustr \<Rightarrow> ustr \<Rightarrow> (anyhow, ustr) io" where
  "fetch_kernel e pool url dest stamp = (\<lambda>w.
     bindE (lift_result (download e (w_fs w) url)) (\<lambda>tarball.
     if prefix (lit ''file://'') url
     then bindE (extract_tarball e tarball dest) (\<lambda>_. finish_extract e pool dest stamp)
     else
       bindE (lift_result (checksum_ok e url tarball)) (\<lambda>_.
       bindE (extract_tarball e tarball dest) (\<lambda>_. finish_extract e pool dest stamp))) w)"

definition ensure_kernel ::
  "'n symbols_env \<Rightarrow> symbol_pool \<Rightarrow> ustr \<Rightarrow> ustr \<Rightarrow> ustr option \<Rightarrow> (anyhow, ustr) io" where
  "ensure_kernel e pool version target expected_buildid = (\<lambda>w.
     if sublist (lit ''..'') version \<or> sublist (lit ''..'') target
     then (bail (lit ''invalid version/target''), w)
     else
       let dest = kernel_dest pool version target;
           stamp = path_join dest (lit ''last_used'');
           vmlinux = path_join dest (lit ''debug/vmlinux'');
           url = artifact_url pool version target in
       if fs_exists (w_fs w) vmlinux then
         if \<not> stale_cache e (w_fs w) vmlinux expected_buildid
         then (Inr dest, stamp_now stamp w)
         else fetch_kernel e pool url dest stamp (ignoring (fs_do (\<lambda>fs. fs_remove_dir_all fs dest)) w)
       else fetch_kernel e pool url dest stamp w)"

subsection \<open>Garbage collection\<close>

definition walk_two_levels :: "file_system \<Rightarrow> ustr \<Rightarrow> ustr list" where
  "walk_two_levels fs root =
     (case fs_read_dir fs root of
        None \<Rightarrow> []
      | Some level1 \<Rightarrow> concat (map (\<lambda>l1. case fs_read_dir fs l1 of None \<Rightarrow> [] | Some level2 \<Rightarrow> level2) level1))"

definition tried :: "file_system option \<Rightarrow> file_system \<Rightarrow> file_system" where
  "tried r fs = (case r of None \<Rightarrow> fs | Some fs' \<Rightarrow> fs')"

definition last_used :: "file_system \<Rightarrow> ustr \<Rightarrow> int" where
  "last_used fs target_dir =
     (case Option.bind (read_to_string fs (path_join target_dir (lit ''last_used'')))
             (\<lambda>s. parse_i64 (trim s)) of
        None \<Rightarrow> 0 | Some n \<Rightarrow> n)"

definition gc_trees :: "int \<Rightarrow> ustr list \<Rightarrow> file_system \<Rightarrow> file_system" where
  "gc_trees cutoff dirs fs =
     foldl (\<lambda>fs d. if last_used fs d < cutoff then tried (fs_remove_dir_all fs d) fs else fs) fs dirs"

definition gc_links :: "ustr list \<Rightarrow> file_system \<Rightarrow> file_system" where
  "gc_links links fs =
     foldl (\<lambda>fs l. if fs_is_symlink fs l \<and> \<not> fs_exists fs l then tried (fs_remove_file fs l) fs else fs)
       fs links"

definition gc_cutoff :: "int \<Rightarrow> u32 \<Rightarrow> int" where
  "gc_cutoff now weeks = now - uint weeks * 7 * 86400"

definition gc :: "symbol_pool \<Rightarrow> u32 \<Rightarrow> int \<Rightarrow> file_system \<Rightarrow> file_system" where
  "gc pool weeks now fs =
     (let snapshot_dir = path_join (path_join (sp_dir pool) (lit ''kernel'')) (lit ''SNAPSHOT'');
          fs1 = gc_trees (gc_cutoff now weeks) (walk_two_levels fs snapshot_dir) fs;
          buildid_dir = path_join (sp_dir pool) (lit ''.build-id'') in
      gc_links (walk_two_levels fs1 buildid_dir) fs1)"

subsection \<open>What the cache and the checksum guarantee\<close>






subsection \<open>What the garbage collection touches\<close>

text \<open>Keys made of file names.\<close>

definition fs_ok :: "file_system \<Rightarrow> bool" where
  "fs_ok fs \<longleftrightarrow> (\<forall>e\<in>set (fs_nodes fs). list_all plain_name (fst e))"

lemma read_dir_entry:
  assumes "fs_ok fs" "p \<noteq> []" "fs_read_dir fs p = Some l" "q \<in> set l"
  shows "\<exists>n. plain_name n \<and> q = path_join p n \<and> path_key fs q = path_key fs p @ [n] \<and> q \<noteq> []"
proof -
  from assms(3,4) obtain k m where e: "(k, m) \<in> set (fs_nodes fs)" "k \<noteq> []" "q = path_join p (last k)"
    by (auto simp: fs_read_dir_def split: option.splits if_splits)
  then have "plain_name (last k)"
    using assms(1) by (fastforce simp: fs_ok_def list_all_iff)
  moreover from this have "q \<noteq> []" using e(3) by (auto simp: path_join_def plain_name_def)
  ultimately show ?thesis using e(3) path_key_join_plain [OF _ assms(2)] by blast
qed

lemma walk_entry:
  assumes "fs_ok fs" "root \<noteq> []" "d \<in> set (walk_two_levels fs root)"
  shows "\<exists>a b. plain_name a \<and> plain_name b \<and> d = path_join (path_join root a) b
    \<and> path_key fs d = path_key fs root @ [a, b] \<and> d \<noteq> []"
proof -
  obtain l1s where r0: "fs_read_dir fs root = Some l1s"
    using assms(3) by (cases "fs_read_dir fs root") (simp_all add: walk_two_levels_def)
  with assms(3) obtain l1 where r1: "l1 \<in> set l1s"
    "d \<in> set (case fs_read_dir fs l1 of None \<Rightarrow> [] | Some l2 \<Rightarrow> l2)"
    by (auto simp: walk_two_levels_def)
  then obtain l2s where "fs_read_dir fs l1 = Some l2s" "d \<in> set l2s"
    by (cases "fs_read_dir fs l1") simp_all
  note r = r0 r1(1) this
  from read_dir_entry [OF assms(1,2) r(1,2)] obtain a where
    a: "plain_name a" "l1 = path_join root a" "path_key fs l1 = path_key fs root @ [a]" "l1 \<noteq> []" by blast
  from read_dir_entry [OF assms(1) a(4) r(3,4)] a show ?thesis by auto
qed

lemma tried_frame [simp]:
  "fs_cwd (tried (fs_remove_dir_all fs d) fs) = fs_cwd fs"
  "fs_denied (tried (fs_remove_dir_all fs d) fs) = fs_denied fs"
  "fs_cwd (tried (fs_remove_file fs d) fs) = fs_cwd fs"
  "fs_denied (tried (fs_remove_file fs d) fs) = fs_denied fs"
  by (auto simp: tried_def fs_remove_dir_all_def fs_remove_file_def Let_def split: option.splits)

lemma map_of_filter_prefix:
  "map_of (filter (\<lambda>e. \<not> prefix k (fst e)) xs) k' = (if prefix k k' then None else map_of xs k')"
  by (induction xs) auto

lemma node_at_tried_dir:
  "node_at (tried (fs_remove_dir_all fs d) fs) k =
     (if path_key fs d \<noteq> [] \<and> node_at fs (path_key fs d) = Some Dir \<and> \<not> fs_denied fs (path_key fs d)
         \<and> prefix (path_key fs d) k then None else node_at fs k)"
  by (auto simp: tried_def fs_remove_dir_all_def Let_def node_at_def map_of_filter_prefix split: option.splits)

lemma node_at_tried_file:
  "node_at (tried (fs_remove_file fs l) fs) k = node_at fs k \<or> k = path_key fs l \<and> node_at (tried (fs_remove_file fs l) fs) k = None"
  by (auto simp: tried_def fs_remove_file_def Let_def split: option.splits)

lemma read_to_string_cong:
  assumes "fs_cwd fs' = fs_cwd fs" "plain_at fs (path_key fs p)"
    "node_at fs' (path_key fs p) = node_at fs (path_key fs p)"
  shows "read_to_string fs' p = read_to_string fs p"
proof -
  have "path_key fs' p = path_key fs p" using assms(1) by (rule path_key_cwd)
  moreover have "plain_at fs' (path_key fs p)" using assms(2,3) by (simp add: plain_at_def)
  ultimately show ?thesis using assms(2,3) by (simp add: read_to_string_def fs_read_plain)
qed

text \<open>The trees of the snapshot directory by their two names, the ones that have expired, and
  the state of a run of \<open>gc_trees\<close> over it.\<close>

definition tree :: "ustr \<Rightarrow> ustr \<Rightarrow> ustr \<Rightarrow> ustr" where
  "tree root a b = path_join (path_join root a) b"

definition expired_at :: "file_system \<Rightarrow> int \<Rightarrow> ustr \<Rightarrow> ustr list \<Rightarrow> bool" where
  "expired_at fs cutoff root k \<longleftrightarrow>
     (\<exists>a b rest. k = path_key fs root @ [a, b] @ rest \<and> last_used fs (tree root a b) < cutoff)"

definition gc_inv :: "file_system \<Rightarrow> int \<Rightarrow> ustr \<Rightarrow> file_system \<Rightarrow> bool" where
  "gc_inv fs0 cutoff root fs \<longleftrightarrow> fs_cwd fs = fs_cwd fs0 \<and> fs_denied fs = fs_denied fs0 \<and>
     (\<forall>k. node_at fs k = node_at fs0 k \<or> expired_at fs0 cutoff root k \<and> node_at fs k = None)"

definition stamps_plain :: "file_system \<Rightarrow> ustr \<Rightarrow> bool" where
  "stamps_plain fs root \<longleftrightarrow> (\<forall>a b. plain_at fs (path_key fs root @ [a, b, lit ''last_used'']))"

lemma plain_last_used [simp]: "plain_name (lit ''last_used'')"
  by (simp add: plain_name_def)

lemma stamp_key:
  assumes "d \<noteq> []" "path_key fs d = path_key fs root @ [a, b]"
  shows "path_key fs (path_join d (lit ''last_used'')) = path_key fs root @ [a, b, lit ''last_used'']"
  using path_key_join_plain [OF plain_last_used assms(1), of fs] assms(2) by simp

lemma last_used_cong:
  assumes "stamps_plain fs0 root" "d \<noteq> []" "path_key fs0 d = path_key fs0 root @ [a, b]"
    and "fs_cwd fs = fs_cwd fs0"
    and "node_at fs (path_key fs0 root @ [a, b, lit ''last_used'']) =
      node_at fs0 (path_key fs0 root @ [a, b, lit ''last_used''])"
  shows "last_used fs d = last_used fs0 d"
proof -
  have "read_to_string fs (path_join d (lit ''last_used'')) = read_to_string fs0 (path_join d (lit ''last_used''))"
    using assms(1,4,5) by (intro read_to_string_cong)
      (simp_all only: stamp_key [OF assms(2,3)] stamps_plain_def)
  then show ?thesis by (simp only: last_used_def)
qed

lemma gc_step_inv:
  assumes inv: "gc_inv fs0 cutoff root fs" and st: "stamps_plain fs0 root"
    and d: "d = tree root a b" "d \<noteq> []" "path_key fs0 d = path_key fs0 root @ [a, b]"
  shows "gc_inv fs0 cutoff root (if last_used fs d < cutoff then tried (fs_remove_dir_all fs d) fs else fs)"
proof (cases "last_used fs0 d < cutoff")
  case True
  have key: "path_key fs d = path_key fs0 root @ [a, b]"
    using inv d(3) path_key_cwd [of fs fs0 d] by (simp add: gc_inv_def)
  have ex: "expired_at fs0 cutoff root k" if "prefix (path_key fs0 root @ [a, b]) k" for k
    using that True d(1) by (auto simp: expired_at_def prefix_def)
  then have "node_at (tried (fs_remove_dir_all fs d) fs) k = node_at fs0 k
      \<or> expired_at fs0 cutoff root k \<and> node_at (tried (fs_remove_dir_all fs d) fs) k = None" for k
    using inv unfolding node_at_tried_dir key gc_inv_def by auto
  with inv show ?thesis by (simp add: gc_inv_def)
next
  case False
  have "\<not> expired_at fs0 cutoff root (path_key fs0 root @ [a, b, lit ''last_used''])"
    using False d(1) by (auto simp: expired_at_def simp del: lit_Cons)
  with inv have "last_used fs d = last_used fs0 d"
    by (intro last_used_cong [OF st d(2,3)]) (auto simp: gc_inv_def)
  with False inv show ?thesis by simp
qed

definition is_tree :: "file_system \<Rightarrow> ustr \<Rightarrow> ustr \<Rightarrow> bool" where
  "is_tree fs root d \<longleftrightarrow> (\<exists>a b. d = tree root a b \<and> d \<noteq> [] \<and> path_key fs d = path_key fs root @ [a, b])"

lemma walk_is_tree:
  "fs_ok fs \<Longrightarrow> root \<noteq> [] \<Longrightarrow> d \<in> set (walk_two_levels fs root) \<Longrightarrow> is_tree fs root d"
  using walk_entry [of fs root d] by (auto simp: is_tree_def tree_def)

lemma gc_trees_inv:
  assumes "stamps_plain fs0 root"
  shows "gc_inv fs0 cutoff root fs \<Longrightarrow> \<forall>d\<in>set dirs. is_tree fs0 root d \<Longrightarrow>
    gc_inv fs0 cutoff root (gc_trees cutoff dirs fs)"
proof (induction dirs arbitrary: fs)
  case (Cons d dirs)
  from Cons.prems(2) obtain a b where "d = tree root a b" "d \<noteq> []" "path_key fs0 d = path_key fs0 root @ [a, b]"
    by (auto simp: is_tree_def)
  from gc_step_inv [OF Cons.prems(1) assms this] Cons show ?case by (simp add: gc_trees_def)
qed (simp add: gc_trees_def)

lemma gc_inv_refl: "gc_inv fs cutoff root fs"
  by (simp add: gc_inv_def)

text \<open>An expired tree that can be removed is removed when its turn comes, and stays so.\<close>

lemma gc_trees_gone:
  "(\<forall>k. prefix k0 k \<longrightarrow> node_at fs k = None) \<Longrightarrow>
     (\<forall>k. prefix k0 k \<longrightarrow> node_at (gc_trees cutoff dirs fs) k = None)"
proof (induction dirs arbitrary: fs)
  case (Cons d dirs)
  let ?fs = "if last_used fs d < cutoff then tried (fs_remove_dir_all fs d) fs else fs"
  have "\<forall>k. prefix k0 k \<longrightarrow> node_at ?fs k = None"
    using Cons.prems by (simp add: node_at_tried_dir)
  from Cons.IH [OF this] show ?case by (simp add: gc_trees_def)
qed (simp add: gc_trees_def)

definition same_tree :: "file_system \<Rightarrow> file_system \<Rightarrow> ustr list \<Rightarrow> bool" where
  "same_tree fs fs' k0 \<longleftrightarrow> fs_cwd fs' = fs_cwd fs \<and> fs_denied fs' = fs_denied fs \<and>
     (\<forall>k. prefix k0 k \<longrightarrow> node_at fs' k = node_at fs k)"

lemma gc_trees_removes:
  assumes st: "stamps_plain fs0 root"
    and d: "d = tree root a b" "d \<noteq> []" "path_key fs0 d = path_key fs0 root @ [a, b]"
    and dir: "node_at fs0 (path_key fs0 d) = Some Dir" "\<not> fs_denied fs0 (path_key fs0 d)"
    and old: "last_used fs0 d < cutoff"
  shows "same_tree fs0 fs (path_key fs0 d) \<Longrightarrow> \<forall>x\<in>set dirs. is_tree fs0 root x \<Longrightarrow> d \<in> set dirs \<Longrightarrow>
    \<forall>k. prefix (path_key fs0 d) k \<longrightarrow> node_at (gc_trees cutoff dirs fs) k = None"
proof (induction dirs arbitrary: fs)
  case (Cons x dirs)
  let ?fs = "if last_used fs x < cutoff then tried (fs_remove_dir_all fs x) fs else fs"
  have step: "gc_trees cutoff (x # dirs) fs = gc_trees cutoff dirs ?fs" by (simp add: gc_trees_def)
  from Cons.prems(2) obtain a' b' where x: "x = tree root a' b'"
    "path_key fs0 x = path_key fs0 root @ [a', b']" by (auto simp: is_tree_def)
  have key: "path_key fs x = path_key fs0 x" for x
    using Cons.prems(1) by (intro path_key_cwd) (simp add: same_tree_def)
  show ?case
  proof (cases "path_key fs0 x = path_key fs0 d")
    case True
    with x d have "x = d" by simp
    have "node_at fs (path_key fs0 root @ [a, b, lit ''last_used'']) =
        node_at fs0 (path_key fs0 root @ [a, b, lit ''last_used''])" "fs_cwd fs = fs_cwd fs0"
      using Cons.prems(1) d(3) by (simp_all add: same_tree_def)
    then have "last_used fs d = last_used fs0 d"
      by (intro last_used_cong [OF st d(2,3)])
    moreover have "path_key fs0 d \<noteq> []" using d(3) by simp
    moreover have "node_at fs (path_key fs0 d) = Some Dir" "\<not> fs_denied fs (path_key fs0 d)"
      using Cons.prems(1) dir by (simp_all add: same_tree_def)
    ultimately have "\<forall>k. prefix (path_key fs0 d) k \<longrightarrow> node_at ?fs k = None"
      using old by (simp add: \<open>x = d\<close> node_at_tried_dir key)
    from gc_trees_gone [OF this] show ?thesis by (simp add: step)
  next
    case False
    then have "d \<in> set dirs" using Cons.prems(3) by auto
    have "\<not> (prefix (path_key fs0 x) k \<and> prefix (path_key fs0 d) k)" for k
      using False x(2) d(3) by (auto simp: prefix_def)
    then have "same_tree fs0 ?fs (path_key fs0 d)"
      using Cons.prems(1) by (auto simp: same_tree_def node_at_tried_dir key)
    from Cons.IH [OF this _ \<open>d \<in> set dirs\<close>] Cons.prems(2) show ?thesis by (simp add: step)
  qed
qed simp

text \<open>The second pass removes links of the index only.\<close>

lemma gc_links_frame:
  "node_at (gc_links links fs) k = node_at fs k \<or>
     node_at (gc_links links fs) k = None \<and> (\<exists>l\<in>set links. k = path_key fs l)"
proof (induction links arbitrary: fs)
  case (Cons l links)
  let ?fs = "if fs_is_symlink fs l \<and> \<not> fs_exists fs l then tried (fs_remove_file fs l) fs else fs"
  have step: "gc_links (l # links) fs = gc_links links ?fs" by (simp add: gc_links_def)
  have key: "path_key ?fs x = path_key fs x" for x by (rule path_key_cwd) simp
  from node_at_tried_file [of fs l k] have
    "node_at ?fs k = node_at fs k \<or> k = path_key fs l \<and> node_at ?fs k = None" by auto
  with Cons.IH [of ?fs] show ?case unfolding step key by auto
qed (simp add: gc_links_def)

lemma names_plain [simp]: "plain_name (lit ''kernel'')" "plain_name (lit ''SNAPSHOT'')"
  by (simp_all add: plain_name_def)

definition snapshot_root :: "symbol_pool \<Rightarrow> ustr" where
  "snapshot_root pool = path_join (path_join (sp_dir pool) (lit ''kernel'')) (lit ''SNAPSHOT'')"

definition index_root :: "symbol_pool \<Rightarrow> ustr" where
  "index_root pool = path_join (sp_dir pool) (lit ''.build-id'')"

lemma roots_nonempty [simp]: "snapshot_root pool \<noteq> []" "index_root pool \<noteq> []"
  by (simp_all add: snapshot_root_def index_root_def path_join_def is_absolute_def)

lemma gc_alt:
  "gc pool weeks now fs =
     (let fs1 = gc_trees (gc_cutoff now weeks) (walk_two_levels fs (snapshot_root pool)) fs in
      gc_links (walk_two_levels fs1 (index_root pool)) fs1)"
  by (simp add: gc_def snapshot_root_def index_root_def Let_def)

lemma fs_ok_sub: "fs_ok fs \<Longrightarrow> set (fs_nodes fs') \<subseteq> set (fs_nodes fs) \<Longrightarrow> fs_ok fs'"
  by (auto simp: fs_ok_def)

lemma gc_trees_sub: "set (fs_nodes (gc_trees cutoff dirs fs)) \<subseteq> set (fs_nodes fs)"
proof (induction dirs arbitrary: fs)
  case (Cons d dirs)
  let ?fs = "if last_used fs d < cutoff then tried (fs_remove_dir_all fs d) fs else fs"
  have "set (fs_nodes ?fs) \<subseteq> set (fs_nodes fs)"
    by (auto simp: tried_def fs_remove_dir_all_def Let_def split: option.splits if_splits)
  with Cons.IH [of ?fs] show ?case by (simp add: gc_trees_def)
qed (simp add: gc_trees_def)

lemma gc_frame:
  assumes ok: "fs_ok fs" and st: "stamps_plain fs (snapshot_root pool)"
  shows "node_at (gc pool weeks now fs) k = node_at fs k
    \<or> node_at (gc pool weeks now fs) k = None \<and>
      (expired_at fs (gc_cutoff now weeks) (snapshot_root pool) k
       \<or> (\<exists>a b. k = path_key fs (index_root pool) @ [a, b]))"
proof -
  define fs1 where "fs1 = gc_trees (gc_cutoff now weeks) (walk_two_levels fs (snapshot_root pool)) fs"
  have "\<forall>d\<in>set (walk_two_levels fs (snapshot_root pool)). is_tree fs (snapshot_root pool) d"
    using walk_is_tree [OF ok roots_nonempty(1)] by blast
  from gc_trees_inv [OF st gc_inv_refl this]
  have inv: "gc_inv fs (gc_cutoff now weeks) (snapshot_root pool) fs1" unfolding fs1_def .
  have ok1: "fs_ok fs1" unfolding fs1_def by (rule fs_ok_sub [OF ok gc_trees_sub])
  have key: "path_key fs1 p = path_key fs p" for p
    using inv by (intro path_key_cwd) (simp add: gc_inv_def)
  have "\<exists>a b. path_key fs1 l = path_key fs (index_root pool) @ [a, b]"
    if "l \<in> set (walk_two_levels fs1 (index_root pool))" for l
    using walk_entry [OF ok1 roots_nonempty(2) that] key by auto
  with gc_links_frame [of "walk_two_levels fs1 (index_root pool)" fs1 k] inv
  show ?thesis unfolding gc_alt Let_def fs1_def [symmetric] gc_inv_def by metis
qed

lemma gc_gone:
  assumes ok: "fs_ok fs" and st: "stamps_plain fs (snapshot_root pool)"
    and d: "d \<in> set (walk_two_levels fs (snapshot_root pool))"
    and dir: "node_at fs (path_key fs d) = Some Dir" "\<not> fs_denied fs (path_key fs d)"
    and old: "last_used fs d < gc_cutoff now weeks" and k: "prefix (path_key fs d) k"
  shows "node_at (gc pool weeks now fs) k = None"
proof -
  from walk_is_tree [OF ok roots_nonempty(1) d] obtain a b where
    t: "d = tree (snapshot_root pool) a b" "d \<noteq> []" "path_key fs d = path_key fs (snapshot_root pool) @ [a, b]"
    by (auto simp: is_tree_def)
  have "\<forall>x\<in>set (walk_two_levels fs (snapshot_root pool)). is_tree fs (snapshot_root pool) x"
    using walk_is_tree [OF ok roots_nonempty(1)] by blast
  from gc_trees_removes [OF st t dir old _ this d, of fs] k
  have "node_at (gc_trees (gc_cutoff now weeks) (walk_two_levels fs (snapshot_root pool)) fs) k = None"
    by (simp add: same_tree_def)
  with gc_links_frame show ?thesis unfolding gc_alt Let_def by metis
qed

subsection \<open>Properties of the pool\<close>

lemma sp_keys:
  assumes "sp_dir pool \<noteq> []"
  shows "path_key fs (snapshot_root pool) = path_key fs (sp_dir pool) @ [lit ''kernel'', lit ''SNAPSHOT'']"
    and "path_key fs (index_root pool) = path_key fs (sp_dir pool) @ [lit ''.build-id'']"
proof -
  have "path_join (sp_dir pool) (lit ''kernel'') \<noteq> []" by (simp add: path_join_def is_absolute_def)
  from path_key_join_plain [OF names_plain(2) this] path_key_join_plain [OF names_plain(1) assms]
  show "path_key fs (snapshot_root pool) = path_key fs (sp_dir pool) @ [lit ''kernel'', lit ''SNAPSHOT'']"
    by (simp add: snapshot_root_def)
  have "plain_name (lit ''.build-id'')" by (simp add: plain_name_def)
  from path_key_join_plain [OF this assms]
  show "path_key fs (index_root pool) = path_key fs (sp_dir pool) @ [lit ''.build-id'']"
    by (simp add: index_root_def)
qed

theorem gc_spares:
  assumes "fs_ok fs" "stamps_plain fs (snapshot_root pool)" "sp_dir pool \<noteq> []"
  shows "(last_used fs (tree (snapshot_root pool) a b) \<ge> gc_cutoff now weeks \<longrightarrow>
      node_at (gc pool weeks now fs) (path_key fs (snapshot_root pool) @ [a, b] @ rest) =
      node_at fs (path_key fs (snapshot_root pool) @ [a, b] @ rest))
    \<and> (version \<noteq> lit ''SNAPSHOT'' \<longrightarrow>
      node_at (gc pool weeks now fs) (path_key fs (sp_dir pool) @ [lit ''kernel'', version] @ rest) =
      node_at fs (path_key fs (sp_dir pool) @ [lit ''kernel'', version] @ rest))"
proof -
  note fr = gc_frame [OF assms(1,2), of weeks now]
  note keys = sp_keys [OF assms(3), of fs]
  have "\<not> expired_at fs (gc_cutoff now weeks) (snapshot_root pool) (path_key fs (snapshot_root pool) @ [a, b] @ rest)"
    if "last_used fs (tree (snapshot_root pool) a b) \<ge> gc_cutoff now weeks"
    using that by (auto simp: expired_at_def)
  moreover have "\<not> expired_at fs (gc_cutoff now weeks) (snapshot_root pool)
      (path_key fs (sp_dir pool) @ [lit ''kernel'', version] @ rest)" if "version \<noteq> lit ''SNAPSHOT''"
    using that by (auto simp: expired_at_def keys simp del: lit_Cons)
  moreover have "path_key fs (snapshot_root pool) @ [a, b] @ rest \<noteq> path_key fs (index_root pool) @ [a', b']"
    "path_key fs (sp_dir pool) @ [lit ''kernel'', version] @ rest \<noteq> path_key fs (index_root pool) @ [a', b']"
    for a' b' by (simp_all add: keys)
  ultimately show ?thesis
    using fr [of "path_key fs (snapshot_root pool) @ [a, b] @ rest"]
      fr [of "path_key fs (sp_dir pool) @ [lit ''kernel'', version] @ rest"] by blast
qed

theorem gc_removes_expired:
  assumes "fs_ok fs" "stamps_plain fs (snapshot_root pool)"
    and "d \<in> set (walk_two_levels fs (snapshot_root pool))"
    and "node_at fs (path_key fs d) = Some Dir" "\<not> fs_denied fs (path_key fs d)"
    and "last_used fs d < now - uint weeks * 7 * 86400"
  shows "node_at (gc pool weeks now fs) (path_key fs d @ rest) = None"
  by (rule gc_gone [OF assms(1-5)]) (use assms(6) in \<open>simp_all add: gc_cutoff_def\<close>)

text \<open>C33. \<open>gc\<close> removes every expired snapshot tree it may remove, with all its files, and
  nothing else but entries of the build-id index: a snapshot tree whose stamp lies in the
  retention window keeps every file, and the trees of releases are pinned.\<close>

theorem gc_exact:
  assumes "fs_ok fs" "stamps_plain fs (snapshot_root pool)" "sp_dir pool \<noteq> []"
  shows "(last_used fs (tree (snapshot_root pool) a b) \<ge> now - uint weeks * 7 * 86400 \<longrightarrow>
      node_at (gc pool weeks now fs) (path_key fs (snapshot_root pool) @ [a, b] @ rest) =
      node_at fs (path_key fs (snapshot_root pool) @ [a, b] @ rest))
    \<and> (version \<noteq> lit ''SNAPSHOT'' \<longrightarrow>
      node_at (gc pool weeks now fs) (path_key fs (sp_dir pool) @ [lit ''kernel'', version] @ rest) =
      node_at fs (path_key fs (sp_dir pool) @ [lit ''kernel'', version] @ rest))
    \<and> (d \<in> set (walk_two_levels fs (snapshot_root pool)) \<and> node_at fs (path_key fs d) = Some Dir
        \<and> \<not> fs_denied fs (path_key fs d) \<and> last_used fs d < now - uint weeks * 7 * 86400 \<longrightarrow>
      node_at (gc pool weeks now fs) (path_key fs d @ rest) = None)"
  using gc_spares [OF assms] gc_removes_expired [OF assms(1,2)] unfolding gc_cutoff_def by blast



lemma stale_refetch_lost:
  assumes v: "\<not> sublist (lit ''..'') version" "\<not> sublist (lit ''..'') target"
    and x: "fs_exists (w_fs w) (path_join (kernel_dest pool version target) (lit ''debug/vmlinux''))"
    and st: "stale_cache e (w_fs w) (path_join (kernel_dest pool version target) (lit ''debug/vmlinux'')) expected"
    and dir: "fs_remove_dir_all (w_fs w) (kernel_dest pool version target) = Some fs'"
    and dl: "download e fs' (artifact_url pool version target) = Inl err"
  shows "ensure_kernel e pool version target expected w = (Inl err, w\<lparr>w_fs := fs'\<rparr>)"
    and "node_at fs' (path_key (w_fs w) (kernel_dest pool version target) @ rest) = None"
proof -
  have "ignoring (fs_do (\<lambda>fs. fs_remove_dir_all fs (kernel_dest pool version target))) w = w\<lparr>w_fs := fs'\<rparr>"
    using dir by (simp add: ignoring_def fs_do_def)
  moreover have "fetch_kernel e pool (artifact_url pool version target) d s (w\<lparr>w_fs := fs'\<rparr>) =
      (Inl err, w\<lparr>w_fs := fs'\<rparr>)" for d s
    using dl by (simp add: fetch_kernel_def bindE_def lift_result_def)
  ultimately show "ensure_kernel e pool version target expected w = (Inl err, w\<lparr>w_fs := fs'\<rparr>)"
    using v x st by (simp only: ensure_kernel_def Let_def if_True if_False not_True_eq_False simp_thms)
  show "node_at fs' (path_key (w_fs w) (kernel_dest pool version target) @ rest) = None"
    using dir by (auto simp: fs_remove_dir_all_def Let_def node_at_def map_of_filter_prefix split: if_splits)
qed

text \<open>One report is enough to lose cached symbols: when the build-id it claims differs from
  the cached one, the tree of that version is removed before anything is fetched, and it stays
  lost when the download fails. This holds for the pinned trees of releases, too.\<close>

theorem mismatch_loses_tree:
  assumes "\<not> sublist (lit ''..'') version" "\<not> sublist (lit ''..'') target"
    and "fs_exists (w_fs w) (path_join (kernel_dest pool version target) (lit ''debug/vmlinux''))"
    and "file_build_id e (w_fs w) (path_join (kernel_dest pool version target) (lit ''debug/vmlinux'')) = Some got"
    and "\<not> eq_ignore_case got claimed"
    and "fs_remove_dir_all (w_fs w) (kernel_dest pool version target) = Some fs'"
    and "download e fs' (artifact_url pool version target) = Inl err"
  shows "ensure_kernel e pool version target (Some claimed) w = (Inl err, w\<lparr>w_fs := fs'\<rparr>)
    \<and> node_at fs' (path_key (w_fs w) (kernel_dest pool version target) @ rest) = None"
proof -
  have "stale_cache e (w_fs w) (path_join (kernel_dest pool version target) (lit ''debug/vmlinux'')) (Some claimed)"
    using assms(4,5) by (simp only: stale_cache_def prod.case option.case simp_thms)
  from stale_refetch_lost [OF assms(1-3) this assms(6,7)] show ?thesis by blast
qed

text \<open>C32. The guard against \<open>..\<close> does not keep the pool closed: joining an absolute target (or
  version) discards the pool directory, so that a report with the target \<open>/d\<close> has the
  directory \<open>/d\<close> treated as its symbol tree, and removed when the build-id differs.\<close>

theorem absolute_target_escapes:
  assumes "is_absolute target" "\<not> sublist (lit ''..'') version" "\<not> sublist (lit ''..'') target"
    and "fs_exists (w_fs w) (path_join target (lit ''debug/vmlinux''))"
    and "file_build_id e (w_fs w) (path_join target (lit ''debug/vmlinux'')) = Some got"
    and "\<not> eq_ignore_case got claimed"
    and "fs_remove_dir_all (w_fs w) target = Some fs'"
    and "download e fs' (artifact_url pool version target) = Inl err"
  shows "ensure_kernel e pool version target (Some claimed) w = (Inl err, w\<lparr>w_fs := fs'\<rparr>)
    \<and> node_at fs' (components target @ rest) = None"
proof -
  have d: "kernel_dest pool version target = target"
    using assms(1) by (simp add: kernel_dest_def join_absolute)
  have "stale_cache e (w_fs w) (path_join target (lit ''debug/vmlinux'')) (Some claimed)"
    using assms(5,6) by (simp only: stale_cache_def prod.case option.case simp_thms)
  moreover have "path_key (w_fs w) target = components target" using assms(1) by (simp add: path_key_def)
  ultimately show ?thesis
    using stale_refetch_lost [of version target w pool e "Some claimed" fs' err] assms(2-8)
    unfolding d by simp
qed

subsection \<open>A demo pool\<close>

text \<open>For the witnesses: files are their own build-id, the network is down, an archive is a
  list of one entry.\<close>

definition demo_env :: "ustr symbols_env" where
  "demo_env = \<lparr>sy_object = (\<lambda>d. Some \<lparr>of_build_id = Some (map uint d), of_symbols = []\<rparr>),
     sy_loader = (\<lambda>d. None), sy_get = (\<lambda>u. Inl (lit ''offline'')), sy_get_text = (\<lambda>u. Inl (lit ''offline'')),
     sy_sha_hex = map uint, sy_lowercase = map ascii_lower, sy_archive = (\<lambda>d. Inr []),
     sy_entry_path = Inr, sy_unpack_in = (\<lambda>t p fs. Some fs), sy_regex = backtracking ascii_word,
     sy_ws = is_ws\<rparr>"

definition demo_pool_dir :: symbol_pool where
  "demo_pool_dir = \<lparr>sp_dir = lit ''s'', sp_release_url = lit ''http://r/{version}/{target}.zst'',
     sp_snapshot_url = lit ''http://s/{target}.zst''\<rparr>"

definition keys_of :: "(string list \<times> node) list \<Rightarrow> (ustr list \<times> node) list" where
  "keys_of = map (\<lambda>(k, n). (map lit k, n))"

definition demo_tree :: file_system where
  "demo_tree = \<lparr>fs_cwd = [], fs_nodes = keys_of
     [([''s''], Dir), ([''s'', ''kernel''], Dir),
      ([''s'', ''kernel'', ''25''], Dir), ([''s'', ''kernel'', ''25'', ''x86''], Dir),
      ([''s'', ''kernel'', ''25'', ''x86'', ''debug''], Dir),
      ([''s'', ''kernel'', ''25'', ''x86'', ''debug'', ''vmlinux''], File [97, 98]),
      ([''s'', ''kernel'', ''SNAPSHOT''], Dir), ([''s'', ''kernel'', ''SNAPSHOT'', ''ath79''], Dir),
      ([''s'', ''kernel'', ''SNAPSHOT'', ''ath79'', ''tiny''], Dir),
      ([''s'', ''kernel'', ''SNAPSHOT'', ''ath79'', ''tiny'', ''last_used''], File (as_bytes (lit ''12''))),
      ([''d''], Dir), ([''d'', ''debug''], Dir), ([''d'', ''debug'', ''vmlinux''], File [97])],
     fs_denied = (\<lambda>_. False)\<rparr>"

definition demo_sym_world :: world where
  "demo_sym_world = \<lparr>w_db = \<lparr>db_devices = [], db_groups = [], db_reports = [], db_users = [],
     db_tokens = [], db_sessions = [], db_jobs = []\<rparr>, w_fs = demo_tree, w_now = 50, w_ids = 0,
     w_faults = []\<rparr>"

definition without :: "string list \<Rightarrow> file_system \<Rightarrow> file_system" where
  "without k fs = fs\<lparr>fs_nodes := filter (\<lambda>e. \<not> prefix (map lit k) (fst e)) (fs_nodes fs)\<rparr>"

lemma demo_removed:
  "fs_remove_dir_all demo_tree (kernel_dest demo_pool_dir (lit ''25'') (lit ''x86'')) =
     Some (without [''s'', ''kernel'', ''25'', ''x86''] demo_tree)"
  "fs_remove_dir_all demo_tree (lit ''/d'') = Some (without [''d''] demo_tree)"
proof -
  have k: "path_key demo_tree (kernel_dest demo_pool_dir (lit ''25'') (lit ''x86'')) = map lit [''s'', ''kernel'', ''25'', ''x86'']"
    "path_key demo_tree (lit ''/d'') = map lit [''d'']" by code_simp+
  have n: "node_at demo_tree (map lit [''s'', ''kernel'', ''25'', ''x86'']) = Some Dir"
    "node_at demo_tree (map lit [''d'']) = Some Dir" by code_simp+
  show "fs_remove_dir_all demo_tree (kernel_dest demo_pool_dir (lit ''25'') (lit ''x86'')) =
     Some (without [''s'', ''kernel'', ''25'', ''x86''] demo_tree)"
    "fs_remove_dir_all demo_tree (lit ''/d'') = Some (without [''d''] demo_tree)"
    unfolding fs_remove_dir_all_def Let_def k n without_def
    by (simp_all add: demo_tree_def)
qed

theorem mismatch_loses_tree_witness:
  "\<exists>w'. ensure_kernel demo_env demo_pool_dir (lit ''25'') (lit ''x86'') (Some (lit ''ff'')) demo_sym_world
      = (Inl [External (lit ''offline'')], w') \<and>
    node_at (w_fs w') (map lit [''s'', ''kernel'', ''25'', ''x86'', ''debug'', ''vmlinux'']) = None"
proof -
  have w: "w_fs demo_sym_world = demo_tree" by (simp add: demo_sym_world_def)
  have a: "\<not> sublist (lit ''..'') (lit ''25'')" "\<not> sublist (lit ''..'') (lit ''x86'')" by code_simp+
  have b: "fs_exists demo_tree (path_join (kernel_dest demo_pool_dir (lit ''25'') (lit ''x86'')) (lit ''debug/vmlinux''))"
    "file_build_id demo_env demo_tree (path_join (kernel_dest demo_pool_dir (lit ''25'') (lit ''x86'')) (lit ''debug/vmlinux'')) = Some (lit ''ab'')"
    "\<not> eq_ignore_case (lit ''ab'') (lit ''ff'')"
    "download demo_env (without [''s'', ''kernel'', ''25'', ''x86''] demo_tree)
       (artifact_url demo_pool_dir (lit ''25'') (lit ''x86'')) = Inl [External (lit ''offline'')]"
    "path_key demo_tree (kernel_dest demo_pool_dir (lit ''25'') (lit ''x86'')) = map lit [''s'', ''kernel'', ''25'', ''x86'']"
    by code_simp+
  from mismatch_loses_tree [of _ _ demo_sym_world, unfolded w, OF a b(1-3) demo_removed(1) b(4), of "map lit [''debug'', ''vmlinux'']"]
  show ?thesis unfolding b(5) by auto
qed

theorem absolute_target_escapes_witness:
  "\<exists>w'. ensure_kernel demo_env demo_pool_dir (lit ''25'') (lit ''/d'') (Some (lit ''ff'')) demo_sym_world
      = (Inl [External (lit ''offline'')], w') \<and>
    node_at (w_fs w') (map lit [''d'', ''debug'', ''vmlinux'']) = None"
proof -
  have w: "w_fs demo_sym_world = demo_tree" by (simp add: demo_sym_world_def)
  have a: "is_absolute (lit ''/d'')" "\<not> sublist (lit ''..'') (lit ''25'')" "\<not> sublist (lit ''..'') (lit ''/d'')"
    by code_simp+
  have b: "fs_exists demo_tree (path_join (lit ''/d'') (lit ''debug/vmlinux''))"
    "file_build_id demo_env demo_tree (path_join (lit ''/d'') (lit ''debug/vmlinux'')) = Some (lit ''a'')"
    "\<not> eq_ignore_case (lit ''a'') (lit ''ff'')"
    "download demo_env (without [''d''] demo_tree) (artifact_url demo_pool_dir (lit ''25'') (lit ''/d'')) =
       Inl [External (lit ''offline'')]"
    "components (lit ''/d'') = map lit [''d'']"
    by code_simp+
  from absolute_target_escapes [of _ _ demo_sym_world, unfolded w, OF a b(1-3) demo_removed(2) b(4), of "map lit [''debug'', ''vmlinux'']"]
  show ?thesis unfolding b(5) by auto
qed

lemma no_links_plain:
  "list_all (\<lambda>e. case snd e of Symlink _ \<Rightarrow> False | _ \<Rightarrow> True) (fs_nodes fs) \<Longrightarrow> plain_at fs k"
  by (auto simp: plain_at_def node_at_def list_all_iff split: option.split node.splits dest!: map_of_SomeD)

lemma demo_stamps: "stamps_plain demo_tree root"
proof -
  have "list_all (\<lambda>e. case snd e of Symlink _ \<Rightarrow> False | _ \<Rightarrow> True) (fs_nodes demo_tree)" by code_simp
  from no_links_plain [OF this] show ?thesis by (simp add: stamps_plain_def)
qed

lemma demo_fs_ok: "fs_ok demo_tree"
  by code_simp

theorem gc_exact_witness:
  "node_at (gc demo_pool_dir 4 5000000 demo_tree)
      (map lit [''s'', ''kernel'', ''25'', ''x86'', ''debug'', ''vmlinux'']) = Some (File [97, 98])
   \<and> node_at (gc demo_pool_dir 4 5000000 demo_tree)
      (map lit [''s'', ''kernel'', ''SNAPSHOT'', ''ath79'', ''tiny'', ''last_used'']) = None"
proof -
  let ?d = "lit ''s/kernel/SNAPSHOT/ath79/tiny''"
  have n: "sp_dir demo_pool_dir \<noteq> []" "lit ''25'' \<noteq> lit ''SNAPSHOT''" by code_simp+
  have k: "path_key demo_tree (sp_dir demo_pool_dir) @ [lit ''kernel'', lit ''25''] @ map lit [''x86'', ''debug'', ''vmlinux'']
      = map lit [''s'', ''kernel'', ''25'', ''x86'', ''debug'', ''vmlinux'']"
    "node_at demo_tree (map lit [''s'', ''kernel'', ''25'', ''x86'', ''debug'', ''vmlinux'']) = Some (File [97, 98])"
    by code_simp+
  have w: "walk_two_levels demo_tree (snapshot_root demo_pool_dir) = [?d]" by code_simp
  have a: "path_key demo_tree ?d @ [lit ''last_used''] = map lit [''s'', ''kernel'', ''SNAPSHOT'', ''ath79'', ''tiny'', ''last_used'']"
    "node_at demo_tree (path_key demo_tree ?d) = Some Dir" "\<not> fs_denied demo_tree (path_key demo_tree ?d)"
    "last_used demo_tree ?d < 5000000 - uint (4 :: u32) * 7 * 86400"
    by code_simp+
  note exact = gc_exact [OF demo_fs_ok demo_stamps n(1), where weeks = 4 and now = 5000000]
  have "node_at (gc demo_pool_dir 4 5000000 demo_tree)
      (map lit [''s'', ''kernel'', ''25'', ''x86'', ''debug'', ''vmlinux'']) = Some (File [97, 98])"
    using exact [where rest = "map lit [''x86'', ''debug'', ''vmlinux'']" and version = "lit ''25''"] n(2)
    unfolding k by blast
  moreover have "?d \<in> set (walk_two_levels demo_tree (snapshot_root demo_pool_dir))" unfolding w by simp
  then have "node_at (gc demo_pool_dir 4 5000000 demo_tree) (path_key demo_tree ?d @ [lit ''last_used'']) = None"
    using exact [where rest = "[lit ''last_used'']" and d = ?d] a(2-4) by blast
  ultimately show ?thesis unfolding a(1) by blast
qed


end
