(* ===== verification/Symbolizer.thy ===== *)
theory Symbolizer
  imports Symbols
begin

text \<open>
  crates/ucrs-decoder/src/symbols.rs, second part: the symbolizer of one job and the
  annotation of a trace. The module cache is part of the state; it is proved to be
  transparent, so that annotating a line does not depend on the lines before it.
\<close>

record binary =
  bn_syms :: "(ustr \<times> u64) list"
  bn_build_id :: "ustr option"
  bn_loader :: loader

text \<open>Inserting into the map of symbols: the last definition of a name counts.\<close>

fun collect_syms :: "(ustr \<times> u64) list \<Rightarrow> (bool \<times> ustr option \<times> u64) list \<Rightarrow> (ustr \<times> u64) list" where
  "collect_syms m [] = m"
| "collect_syms m ((definition, name, addr) # syms) =
     (if \<not> definition then collect_syms m syms
      else (case name of
          Some n \<Rightarrow> collect_syms ((n, addr) # m) syms
        | None \<Rightarrow> collect_syms m syms))"

definition load_binary :: "'n symbols_env \<Rightarrow> file_system \<Rightarrow> ustr \<Rightarrow> anyhow + binary" where
  "load_binary e fs path =
     and_then (os (fs_read fs path)) (\<lambda>data.
     case sy_object e data of
       None \<Rightarrow> Inl [External (lit ''not an object file'')]
     | Some obj \<Rightarrow>
         (case sy_loader e data of
            None \<Rightarrow> Inl [External (lit ''loading '' @ path)]
          | Some l \<Rightarrow> Inr \<lparr>bn_syms = collect_syms [] (of_symbols obj), bn_build_id = of_build_id obj,
              bn_loader = l\<rparr>))"

definition checked_add :: "u64 \<Rightarrow> u64 \<Rightarrow> u64 option" where
  "checked_add a b = (if uint a + uint b < 2 ^ 64 then Some (a + b) else None)"

text \<open>The path behind \<open>/linux-<version>/\<close>, if the file has one.\<close>

definition strip_build_prefix :: "ustr \<Rightarrow> ustr" where
  "strip_build_prefix file =
     (case Option.bind (rsplit_once (lit ''/linux-'') file)
             (\<lambda>(_, rest). map_option snd (split_once [47] rest)) of
        None \<Rightarrow> file | Some p \<Rightarrow> p)"

definition find_location :: "binary \<Rightarrow> ustr \<Rightarrow> u64 \<Rightarrow> ustr option" where
  "find_location bin symbol offset =
     Option.bind (Option.bind (map_of (bn_syms bin) symbol) (\<lambda>a. checked_add a offset)) (\<lambda>addr.
     Option.bind (bn_loader bin addr) (\<lambda>(loc_file, loc_line).
     Option.bind loc_file (\<lambda>file0.
     let file = strip_build_prefix file0 in
     case loc_line of
       Some line \<Rightarrow> Some (file @ [58] @ decimal (unat line))
     | None \<Rightarrow> Some file)))"

record symbolizer =
  sz_vmlinux :: "binary option"
  sz_modules_dir :: ustr
  sz_modules :: "(ustr \<times> binary option) list"

definition new_symbolizer ::
  "'n symbols_env \<Rightarrow> file_system \<Rightarrow> ustr option \<Rightarrow> ustr option \<Rightarrow> symbolizer" where
  "new_symbolizer e fs symbol_dir expected_buildid =
     (let (vmlinux, modules_dir) =
        (case symbol_dir of
           Some dir \<Rightarrow> (ok (load_binary e fs (path_join dir (lit ''debug/vmlinux''))),
             path_join dir (lit ''debug/modules''))
         | None \<Rightarrow> (None, []));
        vmlinux =
          (case (vmlinux, expected_buildid) of
             (Some bin, Some expected) \<Rightarrow>
               (case bn_build_id bin of
                  Some got \<Rightarrow> if eq_ignore_case got expected then vmlinux else None
                | None \<Rightarrow> None)
           | _ \<Rightarrow> vmlinux) in
      \<lparr>sz_vmlinux = vmlinux, sz_modules_dir = modules_dir, sz_modules = []\<rparr>)"

definition have_symbols :: "symbolizer \<Rightarrow> bool" where
  "have_symbols sz \<longleftrightarrow> sz_vmlinux sz \<noteq> None"

definition load_module :: "'n symbols_env \<Rightarrow> file_system \<Rightarrow> ustr \<Rightarrow> ustr \<Rightarrow> binary option" where
  "load_module e fs modules_dir name =
     (let path = path_join modules_dir (name @ lit ''.ko'') in
      if fs_exists fs path then ok (load_binary e fs path) else None)"

definition module :: "'n symbols_env \<Rightarrow> file_system \<Rightarrow> symbolizer \<Rightarrow> ustr \<Rightarrow> binary option \<times> symbolizer" where
  "module e fs sz name =
     (let sz = (if map_of (sz_modules sz) name = None
        then sz\<lparr>sz_modules := (name, load_module e fs (sz_modules_dir sz) name) # sz_modules sz\<rparr>
        else sz) in
      (Option.bind (map_of (sz_modules sz) name) (\<lambda>b. b), sz))"

definition resolve_symbol ::
  "'n symbols_env \<Rightarrow> file_system \<Rightarrow> symbolizer \<Rightarrow> ustr \<Rightarrow> u64 \<Rightarrow> ustr option \<Rightarrow> ustr option \<times> symbolizer" where
  "resolve_symbol e fs sz symbol offset m =
     (case m of
        Some name \<Rightarrow>
          (case module e fs sz name of (b, sz') \<Rightarrow>
             (Option.bind b (\<lambda>bin. find_location bin symbol offset), sz'))
      | None \<Rightarrow> (Option.bind (sz_vmlinux sz) (\<lambda>bin. find_location bin symbol offset), sz))"

subsection \<open>Annotation\<close>

definition symbol_char :: "uchar \<Rightarrow> bool" where
  "symbol_char c \<longleftrightarrow> 65 \<le> c \<and> c \<le> 90 \<or> 97 \<le> c \<and> c \<le> 122 \<or> is_ascii_digit c \<or> c = 95 \<or> c = 46"

definition module_char :: "uchar \<Rightarrow> bool" where
  "module_char c \<longleftrightarrow> 65 \<le> c \<and> c \<le> 90 \<or> 97 \<le> c \<and> c \<le> 122 \<or> is_ascii_digit c \<or> c = 95 \<or> c = 45"

definition hex_number :: re where
  "hex_number = RCat [RChr 48, RChr 120, RPlus (RCls is_ascii_hexdigit)]"

definition frame_re :: "(uchar \<Rightarrow> bool) \<Rightarrow> re" where
  "frame_re ws = RCat [RGroup 1 (RPlus (RCls symbol_char)), RChr 43, RGroup 2 hex_number, RChr 47,
     hex_number,
     ROpt (RCat [RPlus (RCls ws), RChr 91, RGroup 3 (RPlus (RCls module_char)), RChr 93])]"

definition group_text :: "ustr \<Rightarrow> captures \<Rightarrow> nat \<Rightarrow> ustr option" where
  "group_text s c n = map_option (\<lambda>(a, b). take (b - a) (drop a s)) (map_of c n)"

text \<open>\<open>trim_start_matches("0x")\<close> and \<open>u64::from_str_radix(.., 16).unwrap_or(0)\<close>.\<close>

function trim_0x :: "ustr \<Rightarrow> ustr" where
  "trim_0x s = (if prefix (lit ''0x'') s then trim_0x (drop 2 s) else s)"
  by pat_completeness auto
termination
  by (relation "measure length") (auto simp: prefix_def)

declare trim_0x.simps [simp del]

definition radix16 :: "ustr \<Rightarrow> u64" where
  "radix16 s = (if s \<noteq> [] \<and> list_all is_ascii_hexdigit s \<and> hex_value s < 2 ^ 64
     then word_of_int (hex_value s) else 0)"

definition frame_of_line :: "'n symbols_env \<Rightarrow> ustr \<Rightarrow> (ustr \<times> u64 \<times> ustr option) option" where
  "frame_of_line e line =
     (case re_captures (sy_regex e) (frame_re (sy_ws e)) line of
        None \<Rightarrow> None
      | Some (a, b, c) \<Rightarrow>
          (case (group_text line c 1, group_text line c 2) of
             (Some symbol, Some off) \<Rightarrow> Some (symbol, radix16 (trim_0x off), group_text line c 3)
           | _ \<Rightarrow> None))"

fun annotate_lines ::
  "'n symbols_env \<Rightarrow> file_system \<Rightarrow> symbolizer \<Rightarrow> ustr list \<Rightarrow> ustr \<times> symbolizer" where
  "annotate_lines e fs sz [] = ([], sz)"
| "annotate_lines e fs sz (line # ls) =
     (let (note_text, sz) =
        (case frame_of_line e line of
           None \<Rightarrow> ([], sz)
         | Some (symbol, offset, m) \<Rightarrow>
             (case resolve_symbol e fs sz symbol offset m of
                (Some loc, sz) \<Rightarrow> (lit '' ('' @ loc @ lit '')'', sz)
              | (None, sz) \<Rightarrow> ([], sz)));
        (rest, sz) = annotate_lines e fs sz ls in
      (line @ note_text @ [10] @ rest, sz))"

definition annotate :: "'n symbols_env \<Rightarrow> file_system \<Rightarrow> ustr \<Rightarrow> symbolizer \<Rightarrow> ustr \<times> symbolizer" where
  "annotate e fs text sz = annotate_lines e fs sz (str_lines text)"

subsection \<open>The cache is transparent\<close>

definition cache_ok :: "'n symbols_env \<Rightarrow> file_system \<Rightarrow> symbolizer \<Rightarrow> bool" where
  "cache_ok e fs sz \<longleftrightarrow>
     (\<forall>name b. map_of (sz_modules sz) name = Some b \<longrightarrow> b = load_module e fs (sz_modules_dir sz) name)"

text \<open>Where a frame is, read from the files directly.\<close>

definition locate ::
  "'n symbols_env \<Rightarrow> file_system \<Rightarrow> binary option \<Rightarrow> ustr \<Rightarrow> ustr \<Rightarrow> ustr option" where
  "locate e fs vmlinux modules_dir line =
     Option.bind (frame_of_line e line) (\<lambda>(symbol, offset, m).
       Option.bind (case m of None \<Rightarrow> vmlinux | Some name \<Rightarrow> load_module e fs modules_dir name)
         (\<lambda>bin. find_location bin symbol offset))"

definition annotated_line ::
  "'n symbols_env \<Rightarrow> file_system \<Rightarrow> binary option \<Rightarrow> ustr \<Rightarrow> ustr \<Rightarrow> ustr" where
  "annotated_line e fs vmlinux modules_dir line =
     line @ (case locate e fs vmlinux modules_dir line of None \<Rightarrow> [] | Some loc \<Rightarrow> lit '' ('' @ loc @ lit '')'') @ [10]"

lemma module_cached:
  assumes "cache_ok e fs sz" "module e fs sz name = (b, sz')"
  shows "b = load_module e fs (sz_modules_dir sz) name \<and> cache_ok e fs sz' \<and>
    sz_vmlinux sz' = sz_vmlinux sz \<and> sz_modules_dir sz' = sz_modules_dir sz"
proof (cases "map_of (sz_modules sz) name")
  case None
  then show ?thesis using assms by (auto simp: module_def cache_ok_def Let_def split: if_splits)
next
  case (Some x)
  then have "x = load_module e fs (sz_modules_dir sz) name" using assms(1) by (simp add: cache_ok_def)
  with Some show ?thesis using assms by (auto simp: module_def Let_def)
qed

lemma resolve_cached:
  assumes "cache_ok e fs sz" "resolve_symbol e fs sz symbol offset m = (r, sz')"
  shows "r = Option.bind (case m of None \<Rightarrow> sz_vmlinux sz | Some name \<Rightarrow> load_module e fs (sz_modules_dir sz) name)
      (\<lambda>bin. find_location bin symbol offset) \<and> cache_ok e fs sz' \<and>
    sz_vmlinux sz' = sz_vmlinux sz \<and> sz_modules_dir sz' = sz_modules_dir sz"
  using assms by (auto simp: resolve_symbol_def dest: module_cached split: option.splits prod.splits)

lemma annotate_lines_cached:
  "cache_ok e fs sz \<Longrightarrow>
     fst (annotate_lines e fs sz ls) =
       concat (map (annotated_line e fs (sz_vmlinux sz) (sz_modules_dir sz)) ls)"
proof (induction ls arbitrary: sz)
  case (Cons line ls)
  show ?case
  proof (cases "frame_of_line e line")
    case None
    obtain t sz1 where t: "annotate_lines e fs sz ls = (t, sz1)" by fastforce
    with Cons.IH [OF Cons.prems] have
      "t = concat (map (annotated_line e fs (sz_vmlinux sz) (sz_modules_dir sz)) ls)" by simp
    with None t show ?thesis by (simp add: annotated_line_def [of _ _ _ _ line] locate_def)
  next
    case (Some f)
    obtain symbol offset m where f: "f = (symbol, offset, m)" by (cases f)
    obtain r sz' where r: "resolve_symbol e fs sz symbol offset m = (r, sz')" by fastforce
    note rc = resolve_cached [OF Cons.prems r]
    obtain t sz1 where t: "annotate_lines e fs sz' ls = (t, sz1)" by fastforce
    with Cons.IH [of sz'] rc have
      "t = concat (map (annotated_line e fs (sz_vmlinux sz) (sz_modules_dir sz)) ls)" by simp
    moreover have "locate e fs (sz_vmlinux sz) (sz_modules_dir sz) line = r"
      using rc Some f by (simp add: locate_def)
    ultimately show ?thesis using Some f r t
      by (cases r) (simp_all add: annotated_line_def [of _ _ _ _ line] Let_def)
  qed
qed simp

lemma annotate_eq:
  "fst (annotate e fs text (new_symbolizer e fs dir expected)) =
     concat (map (annotated_line e fs (sz_vmlinux (new_symbolizer e fs dir expected))
       (sz_modules_dir (new_symbolizer e fs dir expected))) (str_lines text))"
  unfolding annotate_def
  by (rule annotate_lines_cached) (simp add: cache_ok_def new_symbolizer_def Let_def split: prod.splits)

subsection \<open>Properties\<close>

text \<open>C34. \<open>annotate\<close> keeps every line and only appends: each line of the text comes out as
  itself, followed by \<open> (file:line)\<close> where the frame on it can be located, and a line end. The
  module cache plays no role: each location is what the files say.\<close>

theorem annotate_appends_locations:
  "fst (annotate e fs log (new_symbolizer e fs dir expected)) =
     concat (map (\<lambda>line. line @
       (case locate e fs (sz_vmlinux (new_symbolizer e fs dir expected))
               (sz_modules_dir (new_symbolizer e fs dir expected)) line of
          None \<Rightarrow> [] | Some loc \<Rightarrow> lit '' ('' @ loc @ lit '')'') @ [10]) (str_lines log))"
  unfolding annotate_eq annotated_line_def ..

lemma new_symbolizer_vmlinux:
  "sz_vmlinux (new_symbolizer e fs symbol_dir expected) = Some bin \<longleftrightarrow>
     (\<exists>dir. symbol_dir = Some dir \<and> load_binary e fs (path_join dir (lit ''debug/vmlinux'')) = Inr bin) \<and>
     (\<forall>x. expected = Some x \<longrightarrow> (\<exists>got. bn_build_id bin = Some got \<and> eq_ignore_case got x))"
  by (auto simp: new_symbolizer_def Let_def simp del: lit_Cons split: option.splits)

text \<open>Wrong symbols are never used for the kernel image: when the device sent a build-id,
  the symbolizer has symbols exactly when the image loads and carries that very build-id, up to
  letter case; an image without a build-id is discarded.\<close>

theorem symbolizer_build_id:
  "have_symbols (new_symbolizer e fs symbol_dir (Some x)) \<longleftrightarrow>
     (\<exists>dir bin got. symbol_dir = Some dir
        \<and> load_binary e fs (path_join dir (lit ''debug/vmlinux'')) = Inr bin
        \<and> bn_build_id bin = Some got \<and> eq_ignore_case got x)"
  unfolding have_symbols_def using new_symbolizer_vmlinux [of e fs symbol_dir "Some x"] by auto

text \<open>An address is the symbol's plus the offset, without wrap-around: a frame whose offset
  leaves the 64-bit address space has no location, and any location printed comes from the
  debug information at exactly that address.\<close>

theorem find_location_no_wrap:
  "find_location bin symbol offset = Some t \<longleftrightarrow>
     (\<exists>a file line. map_of (bn_syms bin) symbol = Some a \<and> uint a + uint offset < 2 ^ 64
        \<and> uint (a + offset) = uint a + uint offset
        \<and> bn_loader bin (a + offset) = Some (Some file, line)
        \<and> t = strip_build_prefix file @ (case line of None \<Rightarrow> [] | Some n \<Rightarrow> [58] @ decimal (unat n)))"
proof -
  have "uint a + uint offset < 2 ^ 64 \<Longrightarrow> uint (a + offset) = uint a + uint offset" for a
    using uint_plus_if' [of a offset] by simp
  then show ?thesis
    by (auto simp: find_location_def checked_add_def bind_eq_Some_conv Let_def
        split: option.split_asm if_splits)
qed

end
