(* ===== verification/Scrub.thy ===== *)
theory Scrub
  imports Regex
begin

text \<open>
  crates/ucrs-decoder/src/scrub.rs: the three patterns and the three replacement passes over
  the decoded text. The lemmas follow a match of the output back to a match of the input, so
  that what a pass has removed is not brought back by a later pass.
\<close>

subsection \<open>The patterns\<close>

abbreviation is_hex :: "uchar \<Rightarrow> bool" where
  "is_hex \<equiv> is_ascii_hexdigit"

definition hex_pair :: re where
  "hex_pair = RSeq (RCls is_hex) (RCls is_hex)"

definition mac_re :: re where
  "mac_re = RCat [RBound,
     RGroup 1 (RCat [hex_pair, RChr 58, hex_pair, RChr 58, hex_pair]),
     RChr 58, hex_pair, RChr 58, hex_pair, RChr 58, hex_pair, RBound]"

definition ipv4_octet :: "(uchar \<Rightarrow> bool) \<Rightarrow> re" where
  "ipv4_octet d =
     RAlt (RCat [RChr 50, RChr 53, RCls (\<lambda>c. 48 \<le> c \<and> c \<le> 53)])
       (RAlt (RCat [RChr 50, RCls (\<lambda>c. 48 \<le> c \<and> c \<le> 52), RCls d])
         (RCat [ROpt (RChr 49), ROpt (RCls d), RCls d]))"

definition ipv4_re :: "(uchar \<Rightarrow> bool) \<Rightarrow> re" where
  "ipv4_re d = RCat [RBound, RGroup 1 (ipv4_octet d), RChr 46, RGroup 2 (ipv4_octet d), RChr 46,
     RGroup 3 (ipv4_octet d), RChr 46, RGroup 4 (ipv4_octet d), RBound]"

definition ipv6_group :: re where
  "ipv6_group = RBetween 1 4 (RCls is_hex)"

definition ipv6_re :: re where
  "ipv6_re =
     RAlt
       (RCat [RBound, RBetween 5 7 (RSeq ipv6_group (RChr 58)), ipv6_group, RBound])
       (RCat [RBound, ipv6_group, RChr 58, RStar (RSeq ipv6_group (RChr 58)), RChr 58,
          ROpt (RSeq ipv6_group (RStar (RSeq (RChr 58) ipv6_group))), RBound])"

subsection \<open>The replacements\<close>

definition span :: "ustr \<Rightarrow> nat \<Rightarrow> nat \<Rightarrow> ustr" where
  "span s a b = take (b - a) (drop a s)"

definition capture_text :: "ustr \<Rightarrow> captures \<Rightarrow> nat \<Rightarrow> ustr" where
  "capture_text s c n = (case map_of c n of None \<Rightarrow> [] | Some (a, b) \<Rightarrow> span s a b)"

definition mac_mask :: "ustr \<Rightarrow> re_hit \<Rightarrow> ustr" where
  "mac_mask s = (\<lambda>(a, b, c). capture_text s c 1 @ lit '':xx:xx:xx'')"

definition ipv4_kept :: "ustr \<Rightarrow> bool" where
  "ipv4_kept ip \<longleftrightarrow> ip = lit ''0.0.0.0'' \<or> prefix (lit ''127.'') ip \<or> ip = lit ''255.255.255.255''"

definition ipv4_mask :: "ustr \<Rightarrow> re_hit \<Rightarrow> ustr" where
  "ipv4_mask s = (\<lambda>(a, b, c). let ip = span s a b in
     if ipv4_kept ip then ip else lit ''x.x.x.x'')"

definition ipv6_mask :: "ustr \<Rightarrow> re_hit \<Rightarrow> ustr" where
  "ipv6_mask s = (\<lambda>(a, b, c). let ip = span s a b in
     if ip = lit ''::'' \<or> ip = lit ''::1'' then ip else lit ''x:x::x'')"

definition mac_pass :: "regex_engine \<Rightarrow> ustr \<Rightarrow> ustr" where
  "mac_pass eng s = re_replace_all eng mac_re (mac_mask s) s"

definition ipv4_pass :: "regex_engine \<Rightarrow> (uchar \<Rightarrow> bool) \<Rightarrow> ustr \<Rightarrow> ustr" where
  "ipv4_pass eng d s = re_replace_all eng (ipv4_re d) (ipv4_mask s) s"

definition ipv6_pass :: "regex_engine \<Rightarrow> ustr \<Rightarrow> ustr" where
  "ipv6_pass eng s = re_replace_all eng ipv6_re (ipv6_mask s) s"

definition scrub :: "regex_engine \<Rightarrow> (uchar \<Rightarrow> bool) \<Rightarrow> ustr \<Rightarrow> ustr" where
  "scrub eng d text = ipv6_pass eng (ipv4_pass eng d (mac_pass eng text))"

subsection \<open>Following a match back through a pass\<close>

text \<open>A pattern that matches whole words free of the mask letter, and a mask text: mask letters
  at both ends and no other word character.\<close>

definition delimited :: "(uchar \<Rightarrow> bool) \<Rightarrow> re \<Rightarrow> bool" where
  "delimited w r \<longleftrightarrow> (\<forall>s i j c. re_match w s r i j c \<longrightarrow>
     i < j \<and> w (s ! i) \<and> at_boundary w s i \<and> at_boundary w s j \<and>
     (\<forall>k. i \<le> k \<and> k < j \<longrightarrow> s ! k \<noteq> 120))"

definition mask_text :: "(uchar \<Rightarrow> bool) \<Rightarrow> ustr \<Rightarrow> bool" where
  "mask_text w m \<longleftrightarrow> m \<noteq> [] \<and> hd m = 120 \<and> last m = 120 \<and> (\<forall>x\<in>set m. w x \<longrightarrow> x = 120)"

definition hit_ok :: "(uchar \<Rightarrow> bool) \<Rightarrow> ustr \<Rightarrow> (re_hit \<Rightarrow> ustr) \<Rightarrow> nat \<Rightarrow> re_hit \<Rightarrow> bool" where
  "hit_ok w s f pos = (\<lambda>(a, b, c). pos \<le> a \<and> a < b \<and> b \<le> length s \<and> w (s ! a) \<and>
     (f (a, b, c) = span s a b \<or> mask_text w (f (a, b, c))))"

definition clear_of :: "ustr \<Rightarrow> (re_hit \<Rightarrow> ustr) \<Rightarrow> nat \<Rightarrow> nat \<Rightarrow> re_hit \<Rightarrow> bool" where
  "clear_of s f i j = (\<lambda>(a, b, c). f (a, b, c) = span s a b \<or> j \<le> a \<or> b \<le> i)"

lemma delimitedD:
  assumes "delimited w r" "re_match w s r i j c"
  shows "i < j" "w (s ! i)" "at_boundary w s i" "at_boundary w s j"
    "i \<le> k \<Longrightarrow> k < j \<Longrightarrow> s ! k \<noteq> 120"
  using assms unfolding delimited_def by blast+

lemma take_span: "a \<le> b \<Longrightarrow> take a s @ span s a b = take b s"
  unfolding span_def by (metis le_add_diff_inverse take_add)

text \<open>Around a mask: a match of the new text lies wholly before it or wholly behind it, and
  has its counterpart in the old text.\<close>

lemma match_before_mask:
  assumes d: "delimited w r" and w: "w 120"
    and m: "re_match w (take a s @ R @ rest) r i j c" and R: "mask_text w R"
    and a: "a < length s" "w (s ! a)" and i: "i < a"
  shows "\<exists>c'. re_match w s r i j c' \<and> j \<le> a"
proof -
  let ?t = "take a s @ R @ rest"
  have x: "?t ! a = 120" using R a by (auto simp: mask_text_def nth_append hd_conv_nth)
  have "j \<le> a"
  proof (rule ccontr)
    assume "\<not> j \<le> a"
    then show False using delimitedD(5) [OF d m, of a] i x by simp
  qed
  moreover have nth: "?t ! k = s ! k" if "k < a" for k
    using that a by (simp add: nth_append)
  moreover have "at_boundary w ?t k = at_boundary w s k" if "k \<le> a" for k
  proof -
    have "a < length ?t" using a R by (auto simp: mask_text_def)
    moreover have "w (?t ! k) = w (s ! k)"
      using that x nth a w by (cases "k = a") auto
    moreover have "k < length ?t" "k < length s" using that a \<open>a < length ?t\<close> by linarith+
    ultimately show ?thesis using that nth [of "k - 1"]
      unfolding at_boundary_def by (cases k) simp_all
  qed
  ultimately show ?thesis
    using re_match_shift [OF m, of s 0 0] a(1) by auto
qed

lemma match_after_mask:
  assumes d: "delimited w r" and w: "w 120"
    and m: "re_match w (u @ R @ rest) r i j c" and R: "mask_text w R"
    and i: "length u \<le> i" and b: "b \<le> length s"
  shows "\<exists>i' j' c'. re_match w (take b s @ rest) r i' j' c' \<and> b < i'"
proof -
  let ?t = "u @ R @ rest" let ?n = "length u + length R" let ?t' = "take b s @ rest"
  have jt: "j \<le> length ?t" using re_match_bounds [OF m] by simp
  have "?n \<le> i"
  proof (rule ccontr)
    assume "\<not> ?n \<le> i"
    then have "?t ! i \<in> set R" using i by (simp add: nth_append less_diff_conv2 add.commute)
    with R delimitedD(2) [OF d m] have "?t ! i = 120" by (auto simp: mask_text_def)
    with delimitedD(1) [OF d m] delimitedD(5) [OF d m, of i] show False by simp
  qed
  moreover have "i \<noteq> ?n"
  proof
    assume i: "i = ?n"
    have "R \<noteq> []" using R by (simp add: mask_text_def)
    then obtain n where n: "length R = Suc n" by (cases R) auto
    have "?t ! (i - 1) = last R" using i n \<open>R \<noteq> []\<close>
      by (simp add: nth_append last_conv_nth)
    then have "?t ! (i - 1) = 120" "0 < i" using R i by (auto simp: mask_text_def)
    with delimitedD(1-3) [OF d m] jt w show False by (auto simp: at_boundary_def)
  qed
  ultimately have i: "?n < i" by simp
  have nth: "?t ! k = ?t' ! (k - ?n + b)" if nk: "?n \<le> k" for k
  proof -
    obtain l where k: "k = ?n + l" using le_Suc_ex [OF nk] by (elim exE)
    have "?t ! k = rest ! l"
      using nth_append_length_plus [of "u @ R" rest l] by (simp add: k add.assoc)
    moreover have "?t' ! (l + b) = rest ! l"
      using nth_append_length_plus [of "take b s" rest l] b by (simp add: min_absorb2 add.commute)
    ultimately show ?thesis by (simp add: k)
  qed
  have bd: "at_boundary w ?t k = at_boundary w ?t' (k - ?n + b)" if "?n < k" for k
  proof -
    have "k - 1 - ?n + b = k - ?n + b - 1" "0 < k" "0 < k - ?n + b" using that by auto
    moreover have "k < length ?t \<longleftrightarrow> k - ?n + b < length ?t'" using that b by auto
    ultimately show ?thesis
      using nth [of "k - 1"] nth [of k] that by (simp add: at_boundary_def)
  qed
  have "\<exists>c'. re_match w ?t' r (i - ?n + b) (j - ?n + b) c'"
    by (rule re_match_shift [OF m]) (use nth bd i jt b in auto)
  then show ?thesis using i by (metis less_add_same_cancel2 zero_less_diff)
qed

lemma match_unmasked:
  assumes d: "delimited w r" and w: "w 120"
  shows "re_match w (take pos s @ replace_spans s pos hs f) r i j c \<Longrightarrow>
    sorted_wrt hit_before hs \<Longrightarrow> \<forall>h\<in>set hs. hit_ok w s f pos h \<Longrightarrow>
    \<exists>i' j' c'. re_match w s r i' j' c' \<and> min i pos \<le> i' \<and> (\<forall>h\<in>set hs. clear_of s f i' j' h)"
proof (induction hs arbitrary: pos i j c)
  case Nil
  then have "re_match w s r i j c" by simp
  moreover have "min i pos \<le> i" by simp
  ultimately show ?case by (metis empty_iff list.set(1))
next
  case (Cons h hs)
  obtain a b c0 where h: "h = (a, b, c0)" by (cases h)
  from Cons.prems(3) h have ab: "pos \<le> a" "a < b" "b \<le> length s" "w (s ! a)"
    and fh: "f h = span s a b \<or> mask_text w (f h)" by (auto simp: hit_ok_def)
  have after: "b \<le> a'" if "(a', b', c') \<in> set hs" for a' b' c'
    using Cons.prems(2) h that by (fastforce simp: hit_before_def)
  have ok: "\<forall>h\<in>set hs. hit_ok w s f b h"
    using Cons.prems(3) after by (auto simp: hit_ok_def)
  have srt: "sorted_wrt hit_before hs" using Cons.prems(2) by simp
  let ?rest = "replace_spans s b hs f"
  have t: "take pos s @ replace_spans s pos (h # hs) f = take a s @ f h @ ?rest"
    using ab(1) take_span [of pos a s] by (simp add: h span_def flip: append_assoc)
  note m = Cons.prems(1) [unfolded t]
  from fh consider (kept) "f h = span s a b" | (mask) "f h \<noteq> span s a b" "mask_text w (f h)"
    by blast
  then show ?case
  proof cases
    case kept
    have "take a s @ f h @ ?rest = take b s @ ?rest"
      using kept take_span [of a b s] ab by (simp flip: append_assoc)
    with Cons.IH [OF _ srt ok] m obtain i' j' c' where
      "re_match w s r i' j' c'" "min i b \<le> i'" "\<forall>h\<in>set hs. clear_of s f i' j' h"
      by metis
    moreover have "clear_of s f i' j' h" using kept by (simp add: clear_of_def h)
    moreover have "min i pos \<le> i'" using \<open>min i b \<le> i'\<close> ab by linarith
    ultimately show ?thesis by auto
  next
    case mask
    show ?thesis
    proof (cases "i < a")
      case True
      with match_before_mask [OF d w m mask(2)] ab obtain c' where
        "re_match w s r i j c'" "j \<le> a" by auto
      moreover have "clear_of s f i j g" if "g \<in> set (h # hs)" for g
      proof -
        obtain a' b' c'' where g: "g = (a', b', c'')" by (cases g)
        then have "a \<le> a'" using that h after ab by fastforce
        with \<open>j \<le> a\<close> g show ?thesis by (simp add: clear_of_def)
      qed
      ultimately show ?thesis by (meson min.cobounded1)
    next
      case False
      with match_after_mask [OF d w m mask(2), of b s] ab obtain i1 j1 c1 where
        "re_match w (take b s @ ?rest) r i1 j1 c1" "b < i1" by auto
      from Cons.IH [OF this(1) srt ok] this(2) obtain i' j' c' where
        m': "re_match w s r i' j' c'" "b \<le> i'" "\<forall>h\<in>set hs. clear_of s f i' j' h" by auto
      moreover have "clear_of s f i' j' h" using m'(2) by (simp add: clear_of_def h)
      moreover have "min i pos \<le> i'" using m'(2) ab by linarith
      ultimately show ?thesis by auto
    qed
  qed
qed

subsection \<open>The three patterns under any engine\<close>

lemma list_all2_spans:
  assumes "\<forall>x. R x x"
  shows "sorted_wrt hit_before hs \<Longrightarrow>
    \<forall>(a, b, c)\<in>set hs. pos \<le> a \<and> a \<le> b \<and> b \<le> length s \<and> list_all2 R (span s a b) (f (a, b, c)) \<Longrightarrow>
    list_all2 R (drop pos s) (replace_spans s pos hs f)"
proof (induction hs arbitrary: pos)
  case Nil
  then show ?case using assms by (simp add: list_all2_refl)
next
  case (Cons h hs)
  obtain a b c where h: "h = (a, b, c)" by (cases h)
  have ab: "pos \<le> a" "a \<le> b" "b \<le> length s" "list_all2 R (span s a b) (f (a, b, c))"
    using Cons.prems(2) h by auto
  have "list_all2 R (drop b s) (replace_spans s b hs f)"
    using Cons.prems h by (intro Cons.IH) (fastforce simp: hit_before_def)+
  moreover have "drop pos s = take (a - pos) (drop pos s) @ span s a b @ drop b s"
    using ab by (metis (no_types) append_take_drop_id drop_drop le_add_diff_inverse2 span_def)
  moreover have "list_all2 R (take (a - pos) (drop pos s)) (take (a - pos) (drop pos s))"
    using assms by (simp add: list_all2_refl)
  ultimately show ?case using ab(4) unfolding h
    by (metis (no_types, lifting) list_all2_appendI replace_spans.simps(2))
qed

lemma replace_spans_at:
  "sorted_wrt hit_before hs \<Longrightarrow>
    \<forall>(a, b, c)\<in>set hs. pos \<le> a \<and> a \<le> b \<and> b \<le> length s \<and> length (f (a, b, c)) = b - a \<Longrightarrow>
    (a, b, c) \<in> set hs \<Longrightarrow>
    \<exists>u v. replace_spans s pos hs f = u @ f (a, b, c) @ v \<and> length u = a - pos"
proof (induction hs arbitrary: pos)
  case (Cons h hs)
  obtain a0 b0 c0 where h: "h = (a0, b0, c0)" by (cases h)
  have ab: "pos \<le> a0" "a0 \<le> b0" "b0 \<le> length s" "length (f (a0, b0, c0)) = b0 - a0"
    using Cons.prems(2) h by auto
  have len: "length (take (a0 - pos) (drop pos s)) = a0 - pos" using ab by simp
  show ?case
  proof (cases "(a, b, c) = h")
    case True
    then show ?thesis using len unfolding h by (metis prod.inject replace_spans.simps(2))
  next
    case False
    then have m: "(a, b, c) \<in> set hs" using Cons.prems(3) by simp
    then have "b0 \<le> a" using Cons.prems(1) h by (fastforce simp: hit_before_def)
    have "\<exists>u v. replace_spans s b0 hs f = u @ f (a, b, c) @ v \<and> length u = a - b0"
      using Cons.prems h m by (intro Cons.IH) (fastforce simp: hit_before_def)+
    then obtain u v where "replace_spans s b0 hs f = u @ f (a, b, c) @ v" "length u = a - b0" by auto
    then have "replace_spans s pos (h # hs) f =
        (take (a0 - pos) (drop pos s) @ f h @ u) @ f (a, b, c) @ v" by (simp add: h)
    moreover have "length (take (a0 - pos) (drop pos s) @ f h @ u) = a - pos"
      using len ab \<open>b0 \<le> a\<close> \<open>length u = a - b0\<close> h by simp
    ultimately show ?thesis by blast
  qed
qed simp

lemma ipv6_group_char: "re_match w s ipv6_group i j c \<Longrightarrow> is_hex (s ! i) \<and> i < j"
  unfolding ipv6_group_def RBetween_def by (auto dest: re_match_bounds)

lemma mac_match:
  assumes "re_match w s mac_re i j c"
  shows "j = i + 17 \<and> c = [(1, i, i + 8)] \<and> at_boundary w s i \<and> at_boundary w s j \<and>
    j \<le> length s \<and> is_hex (s ! i)"
  using assms unfolding mac_re_def hex_pair_def by auto

lemma lit_mask_free:
  "120 \<notin> set (lit ''127.'')" "120 \<notin> set (lit ''0.0.0.0'')" "120 \<notin> set (lit ''255.255.255.255'')"
  by simp_all

lemma mac_match_tail:
  assumes "re_match w s mac_re i j c"
  shows "s ! (i + 8) = 58 \<and> is_hex (s ! (i + 9)) \<and> is_hex (s ! (i + 10)) \<and>
    s ! (i + 11) = 58 \<and> is_hex (s ! (i + 12)) \<and> is_hex (s ! (i + 13)) \<and>
    s ! (i + 14) = 58 \<and> is_hex (s ! (i + 15)) \<and> is_hex (s ! (i + 16))"
  using assms unfolding mac_re_def hex_pair_def by (auto simp: eval_nat_numeral)

lemma mac_tail:
  assumes "re_match w s mac_re i j c"
  shows "span s (i + 8) (i + 17) = [s ! (i + 8), s ! (i + 9), s ! (i + 10), s ! (i + 11),
    s ! (i + 12), s ! (i + 13), s ! (i + 14), s ! (i + 15), s ! (i + 16)]"
proof -
  from mac_match [OF assms] have "i + 17 \<le> length s" by simp
  then have "span s (i + 8) (i + 17) = map (\<lambda>k. s ! (i + 8 + k)) [0..<9]"
    by (intro nth_equalityI) (auto simp: span_def)
  moreover have "[0..<9] = [0, 1, 2, 3, 4, 5, 6, 7, 8::nat]" by (simp add: upt_rec)
  ultimately show ?thesis by (simp add: add.commute)
qed

context regex_crate begin

lemma word_char:
  "0 \<le> x \<Longrightarrow> x < 128 \<Longrightarrow> ascii_word x \<Longrightarrow> w x"
  "0 \<le> x \<Longrightarrow> x < 128 \<Longrightarrow> \<not> ascii_word x \<Longrightarrow> \<not> w x"
  using word_ascii by auto

lemma hex_word: "is_hex x \<Longrightarrow> w x"
  by (rule word_char) (auto simp: is_ascii_hexdigit_def is_ascii_digit_def ascii_word_def)

lemma word_x: "w 120"
  by (rule word_char) (simp_all add: ascii_word_def)

lemma delimitedI:
  assumes "\<not> re_chars r 120" "re_nonempty r"
    and "\<And>s i j c. re_match w s r i j c \<Longrightarrow>
      at_boundary w s i \<and> at_boundary w s j \<and> w (s ! i)"
  shows "delimited w r"
  unfolding delimited_def using assms re_nonempty_match re_match_chars by metis

lemma delimited_mac: "delimited w mac_re"
proof (rule delimitedI)
  show "\<not> re_chars mac_re 120" "re_nonempty mac_re"
    by (simp_all add: mac_re_def hex_pair_def RChr_def is_ascii_hexdigit_def is_ascii_digit_def)
qed (use mac_match hex_word in blast)

lemma re_chars_group: "re_chars ipv6_group x \<longleftrightarrow> is_hex x"
  by (simp add: ipv6_group_def RBetween_def ROpt_def numeral_eq_Suc)

lemma delimited_ipv6: "delimited w ipv6_re"
proof (rule delimitedI)
  show "\<not> re_chars ipv6_re 120"
    by (simp add: ipv6_re_def RChr_def ROpt_def RBetween_def re_chars_group numeral_eq_Suc
        is_ascii_hexdigit_def is_ascii_digit_def)
  show "re_nonempty ipv6_re" by (simp add: ipv6_re_def RChr_def ipv6_group_def RBetween_def)
next
  fix s i j c assume m: "re_match w s ipv6_re i j c"
  then have "at_boundary w s i \<and> at_boundary w s j"
    unfolding ipv6_re_def by auto
  moreover from m have "is_hex (s ! i)"
    unfolding ipv6_re_def RBetween_def
    by (auto simp: numeral_eq_Suc simp del: RUpto.simps dest!: ipv6_group_char)
  ultimately show "at_boundary w s i \<and> at_boundary w s j \<and> w (s ! i)" using hex_word by blast
qed

lemma octet_first: "re_match w s (ipv4_octet d) i j c \<Longrightarrow> w (s ! i)"
  unfolding ipv4_octet_def
  by (auto intro: digit_word simp: word_ascii ascii_word_def is_ascii_digit_def)

lemma delimited_ipv4: "delimited w (ipv4_re d)"
proof (rule delimitedI)
  show "\<not> re_chars (ipv4_re d) 120" "re_nonempty (ipv4_re d)"
    by (simp_all add: ipv4_re_def ipv4_octet_def RChr_def ROpt_def digit_ascii is_ascii_digit_def)
next
  fix s i j c assume "re_match w s (ipv4_re d) i j c"
  then show "at_boundary w s i \<and> at_boundary w s j \<and> w (s ! i)"
    unfolding ipv4_re_def using octet_first by auto
qed

lemma pass_hits_ok:
  assumes "delimited w r" and "\<And>h. f h = span s (fst h) (fst (snd h)) \<or> mask_text w (f h)"
  shows "\<forall>h\<in>set (re_matches eng r s). hit_ok w s f 0 h"
proof (clarsimp simp: hit_ok_def)
  fix a b c assume "(a, b, c) \<in> set (re_matches eng r s)"
  then have m: "re_match w s r a b c" by (rule matches_sound)
  then show "a < b \<and> b \<le> length s \<and> w (s ! a) \<and> (f (a, b, c) = span s a b \<or> mask_text w (f (a, b, c)))"
    using delimitedD [OF assms(1) m] re_match_bounds [OF m] assms(2) [of "(a, b, c)"] by auto
qed

lemma pass_unmasked:
  assumes "delimited w r" "delimited w q"
    and "\<And>h. f h = span s (fst h) (fst (snd h)) \<or> mask_text w (f h)"
    and "re_match w (re_replace_all eng r f s) q i j c"
  shows "\<exists>i' j' c'. re_match w s q i' j' c' \<and>
    (\<forall>h\<in>set (re_matches eng r s). clear_of s f i' j' h)"
  using match_unmasked [OF assms(2) word_x, of 0 s "re_matches eng r s" f i j c]
    assms(4) matches_order pass_hits_ok [OF assms(1,3)] by (auto simp: replace_all_spans)

lemma pass_preserves:
  assumes "delimited w r" "delimited w q"
    and "\<And>h. f h = span s (fst h) (fst (snd h)) \<or> mask_text w (f h)" and "no_match w s q"
  shows "no_match w (re_replace_all eng r f s) q"
  using pass_unmasked [OF assms(1-3)] assms(4) unfolding no_match_iff by blast

lemma pass_clears:
  assumes r: "delimited w r" "re_nonempty r"
    and f: "\<And>a b c. f (a, b, c) = span s a b \<or> mask_text w (f (a, b, c))"
    and n: "\<And>a b c. (a, b, c) \<in> set (re_matches eng r s) \<Longrightarrow> f (a, b, c) \<noteq> span s a b"
  shows "no_match w (re_replace_all eng r f s) r"
  unfolding no_match_iff
proof (intro allI notI)
  fix i j c assume m: "re_match w (re_replace_all eng r f s) r i j c"
  have "f h = span s (fst h) (fst (snd h)) \<or> mask_text w (f h)" for h using f by (cases h) simp
  from pass_unmasked [OF r(1) r(1) this m] obtain i' j' c' where
    m': "re_match w s r i' j' c'" and cl: "\<forall>h\<in>set (re_matches eng r s). clear_of s f i' j' h" by blast
  from matches_leftmost [OF m' r(2)] obtain a b c0 where
    h: "(a, b, c0) \<in> set (re_matches eng r s)" "a \<le> i'" "a = i' \<or> i' < b" by blast
  have "i' < j'" "a < b"
    using re_nonempty_match [OF m' r(2)] re_nonempty_match [OF matches_sound [OF h(1)] r(2)] .
  with cl h n [OF h(1)] show False by (fastforce simp: clear_of_def)
qed

subsection \<open>What each pass leaves\<close>

lemma mac_mask_eq:
  "re_match w s mac_re a b c \<Longrightarrow> mac_mask s (a, b, c) = span s a (a + 8) @ lit '':xx:xx:xx''"
  using mac_match [of w s a b c] by (simp add: mac_mask_def capture_text_def)

lemma mac_hits:
  assumes "(a, b, c) \<in> set (re_matches eng mac_re s)"
  shows "b = a + 17" "b \<le> length s" "mac_mask s (a, b, c) = span s a (a + 8) @ lit '':xx:xx:xx''"
    "re_match w s mac_re a b c"
  using mac_match [OF matches_sound [OF assms]] mac_mask_eq [OF matches_sound [OF assms]]
    matches_sound [OF assms] by auto

lemma mac_pass_relates:
  "list_all2 (\<lambda>x y. y = x \<or> y = 120 \<and> w x) s (mac_pass eng s)"
proof -
  let ?R = "\<lambda>x y. y = x \<or> y = 120 \<and> w x"
  have "list_all2 ?R (span s a b) (mac_mask s (a, b, c))"
    if h: "(a, b, c) \<in> set (re_matches eng mac_re s)" for a b c
  proof -
    note m = mac_hits [OF h]
    have "span s a b = span s a (a + 8) @ span s (a + 8) b"
      using m(1) take_add [of 8 9 "drop a s"] by (simp add: span_def add.commute)
    moreover have "list_all2 ?R (span s a (a + 8)) (span s a (a + 8))" by (simp add: list_all2_refl)
    moreover have "list_all2 ?R (span s (a + 8) b) (lit '':xx:xx:xx'')"
      unfolding m(1) mac_tail [OF m(4)] using mac_match_tail [OF m(4)] by (simp add: hex_word)
    ultimately show ?thesis unfolding m(3) by (simp only: list_all2_appendI)
  qed
  moreover have "\<forall>(a, b, c)\<in>set (re_matches eng mac_re s). a \<le> b \<and> b \<le> length s"
    using hit_span by blast
  ultimately have "\<forall>(a, b, c)\<in>set (re_matches eng mac_re s).
      0 \<le> a \<and> a \<le> b \<and> b \<le> length s \<and> list_all2 ?R (span s a b) (mac_mask s (a, b, c))" by blast
  from list_all2_spans [OF _ matches_order this] show ?thesis
    by (simp add: mac_pass_def replace_all_spans)
qed

lemma mac_pass_x:
  assumes h: "(a, b, c) \<in> set (re_matches eng mac_re s)"
  shows "mac_pass eng s ! (a + 16) = 120 \<and> mac_pass eng s ! (a + 9) = 120"
proof -
  have "\<forall>(a, b, c)\<in>set (re_matches eng mac_re s). 0 \<le> a \<and> a \<le> b \<and> b \<le> length s \<and>
      length (mac_mask s (a, b, c)) = b - a"
  proof clarify
    fix a b c assume "(a, b, c) \<in> set (re_matches eng mac_re s)"
    from mac_hits(1-3) [OF this]
    show "0 \<le> a \<and> a \<le> b \<and> b \<le> length s \<and> length (mac_mask s (a, b, c)) = b - a"
      by (simp add: span_def)
  qed
  from replace_spans_at [OF matches_order this h] obtain u v where
    "mac_pass eng s = u @ mac_mask s (a, b, c) @ v" "length u = a"
    by (auto simp: mac_pass_def replace_all_spans)
  moreover have "length (span s a (a + 8)) = 8" using mac_hits [OF h] by (simp add: span_def)
  ultimately show ?thesis using mac_hits(3) [OF h] by (simp add: nth_append)
qed

lemma mac_pass_clears: "no_match w (mac_pass eng s) mac_re"
  unfolding no_match_iff
proof (intro allI notI)
  let ?t = "mac_pass eng s"
  have len: "length ?t = length s" using list_all2_lengthD [OF mac_pass_relates] by simp
  have eq: "?t ! k = s ! k \<or> ?t ! k = 120 \<and> w (s ! k)" if "k < length s" for k
    using list_all2_nthD [OF mac_pass_relates that] by simp
  have weq: "w (?t ! k) = w (s ! k)" if "k < length s" for k
    using eq [OF that] word_x by auto
  fix i j c assume m: "re_match w ?t mac_re i j c"
  note mm = mac_match [OF m]
  have nx: "?t ! k \<noteq> 120" if "i \<le> k" "k < j" for k
    using delimitedD(5) [OF delimited_mac m] that by blast
  have "\<exists>c'. re_match w s mac_re (i - 0 + 0) (j - 0 + 0) c'"
  proof (rule re_match_shift [OF m])
    show "\<forall>k. i \<le> k \<and> k < j \<longrightarrow> ?t ! k = s ! (k - 0 + 0)"
    proof (intro allI impI)
      fix k assume "i \<le> k \<and> k < j"
      with eq [of k] nx [of k] mm len show "?t ! k = s ! (k - 0 + 0)" by auto
    qed
    show "\<forall>k. i \<le> k \<and> k \<le> j \<longrightarrow> at_boundary w ?t k = at_boundary w s (k - 0 + 0)"
    proof (intro allI impI)
      fix k assume "i \<le> k \<and> k \<le> j"
      with mm len have "k \<le> length s" by simp
      then show "at_boundary w ?t k = at_boundary w s (k - 0 + 0)"
        using weq [of k] weq [of "k - 1"] len by (cases k) (auto simp: at_boundary_def)
    qed
  qed (use mm len in auto)
  then obtain c' where "re_match w s mac_re i j c'" by auto
  moreover have "re_nonempty mac_re" by (simp add: mac_re_def RChr_def)
  ultimately obtain a b c0 where h: "(a, b, c0) \<in> set (re_matches eng mac_re s)" "a \<le> i" "a = i \<or> i < b"
    using matches_leftmost by blast
  from mac_hits(1) [OF h(1)] h(2,3) mm mac_pass_x [OF h(1)] nx [of "a + 9"] nx [of "a + 16"]
  show False by auto
qed

lemma no_x_ipv4: "re_match w s (ipv4_re d) a b c \<Longrightarrow> 120 \<notin> set (span s a b)"
  using delimitedD [OF delimited_ipv4] re_match_bounds
  by (fastforce simp: span_def in_set_conv_nth)

lemma ipv6_mask_x:
  assumes "(a, b, c) \<in> set (re_matches eng ipv6_re s)"
  shows "ipv6_mask s (a, b, c) = lit ''x:x::x'' \<and> 120 \<notin> set (span s a b)"
proof -
  note m = matches_sound [OF assms]
  have f: "is_hex (s ! a)" "a < b" "b \<le> length s"
    using m re_match_bounds [OF m] delimitedD(1) [OF delimited_ipv6 m] unfolding ipv6_re_def RBetween_def
    by (auto simp: numeral_eq_Suc simp del: RUpto.simps dest!: ipv6_group_char)
  then have "span s a b ! 0 = s ! a" "span s a b \<noteq> []" by (simp_all add: span_def)
  then have "span s a b \<noteq> lit ''::''" "span s a b \<noteq> lit ''::1''"
    using f(1) by (auto simp: is_ascii_hexdigit_def is_ascii_digit_def)
  moreover have "120 \<notin> set (span s a b)"
    using delimitedD(5) [OF delimited_ipv6 m] f by (auto simp: span_def in_set_conv_nth)
  ultimately show ?thesis by (simp add: ipv6_mask_def)
qed

text \<open>What the passes keep: texts without the exempted addresses.\<close>

lemma mask_texts: "mask_text w (lit ''x.x.x.x'')" "mask_text w (lit ''x:x::x'')"
  using word_char(2) [of 46] word_char(2) [of 58]
  by (auto simp: mask_text_def ascii_word_def is_ascii_digit_def)

lemma ipv4_mask_cases:
  "ipv4_mask s h = span s (fst h) (fst (snd h)) \<or> mask_text w (ipv4_mask s h)"
  using mask_texts by (cases h) (simp add: ipv4_mask_def Let_def)

lemma ipv6_mask_cases:
  "ipv6_mask s h = span s (fst h) (fst (snd h)) \<or> mask_text w (ipv6_mask s h)"
  using mask_texts by (cases h) (simp add: ipv6_mask_def Let_def)

lemma mac_pass_sublist:
  assumes "sublist m (mac_pass eng s)" "120 \<notin> set m"
  shows "sublist m s"
proof -
  from assms(1) obtain u v where "mac_pass eng s = u @ m @ v" by (auto simp: sublist_def)
  with mac_pass_relates [of s] obtain u' m' v' where s: "s = u' @ m' @ v'"
    and m: "list_all2 (\<lambda>x y. y = x \<or> y = 120 \<and> w x) m' m"
    by (auto simp: list_all2_append2)
  have "m' = m" using m assms(2)
    by (induction rule: list_all2_induct) auto
  with s show ?thesis by (auto simp: sublist_def)
qed

end

definition no_exempt_ipv4 :: "ustr \<Rightarrow> bool" where
  "no_exempt_ipv4 s \<longleftrightarrow> \<not> sublist (lit ''127.'') s \<and> \<not> sublist (lit ''0.0.0.0'') s \<and>
     \<not> sublist (lit ''255.255.255.255'') s"

context regex_crate begin

lemma ipv4_pass_clears:
  assumes "no_exempt_ipv4 s"
  shows "no_match w (ipv4_pass eng d s) (ipv4_re d)"
  unfolding ipv4_pass_def
proof (rule pass_clears [OF delimited_ipv4])
  show "re_nonempty (ipv4_re d)" by (simp add: ipv4_re_def RChr_def)
next
  fix a b c
  show "ipv4_mask s (a, b, c) = span s a b \<or> mask_text w (ipv4_mask s (a, b, c))"
    using ipv4_mask_cases [of s "(a, b, c)"] by simp
next
  fix a b c assume "(a, b, c) \<in> set (re_matches eng (ipv4_re d) s)"
  then have x: "120 \<notin> set (span s a b)" using matches_sound no_x_ipv4 by blast
  have sl: "sublist (span s a b) s"
    unfolding span_def by (meson sublist_drop sublist_order.order.trans sublist_take)
  have "\<not> ipv4_kept (span s a b)"
  proof
    assume "ipv4_kept (span s a b)"
    then obtain m where "m \<in> {lit ''0.0.0.0'', lit ''127.'', lit ''255.255.255.255''}"
      "prefix m (span s a b)" unfolding ipv4_kept_def by blast
    from this(1) sublist_order.order.trans [OF prefix_imp_sublist [OF this(2)] sl] assms
    show False unfolding no_exempt_ipv4_def by blast
  qed
  then have "ipv4_mask s (a, b, c) = lit ''x.x.x.x''" by (simp add: ipv4_mask_def Let_def)
  moreover have "120 \<in> set (lit ''x.x.x.x'')" by simp
  ultimately show "ipv4_mask s (a, b, c) \<noteq> span s a b" using x by metis
qed

lemma ipv6_pass_clears: "no_match w (ipv6_pass eng s) ipv6_re"
  unfolding ipv6_pass_def
proof (rule pass_clears [OF delimited_ipv6])
  show "re_nonempty ipv6_re" by (simp add: ipv6_re_def RChr_def ipv6_group_def RBetween_def)
next
  fix a b c
  show "ipv6_mask s (a, b, c) = span s a b \<or> mask_text w (ipv6_mask s (a, b, c))"
    using ipv6_mask_cases [of s "(a, b, c)"] by simp
next
  fix a b c assume "(a, b, c) \<in> set (re_matches eng ipv6_re s)"
  note x = ipv6_mask_x [OF this]
  have "120 \<in> set (lit ''x:x::x'')" by simp
  with x show "ipv6_mask s (a, b, c) \<noteq> span s a b" by metis
qed

lemma ipv4_pass_preserves:
  "delimited w q \<Longrightarrow> no_match w s q \<Longrightarrow> no_match w (ipv4_pass eng d s) q"
  unfolding ipv4_pass_def by (rule pass_preserves [OF delimited_ipv4 _ ipv4_mask_cases])

lemma ipv6_pass_preserves:
  "delimited w q \<Longrightarrow> no_match w s q \<Longrightarrow> no_match w (ipv6_pass eng s) q"
  unfolding ipv6_pass_def by (rule pass_preserves [OF delimited_ipv6 _ ipv6_mask_cases])

lemma scrub_mac: "no_match w (scrub eng d s) mac_re"
  unfolding scrub_def
  by (intro ipv6_pass_preserves ipv4_pass_preserves delimited_mac mac_pass_clears)

lemma scrub_ipv6: "no_match w (scrub eng d s) ipv6_re"
  unfolding scrub_def by (rule ipv6_pass_clears)

lemma scrub_ipv4: "no_exempt_ipv4 s \<Longrightarrow> no_match w (scrub eng d s) (ipv4_re d)"
  unfolding scrub_def
proof (intro ipv6_pass_preserves delimited_ipv4 ipv4_pass_clears)
  assume "no_exempt_ipv4 s"
  then show "no_exempt_ipv4 (mac_pass eng s)"
    unfolding no_exempt_ipv4_def
    using mac_pass_sublist [OF _ lit_mask_free(1)] mac_pass_sublist [OF _ lit_mask_free(2)]
      mac_pass_sublist [OF _ lit_mask_free(3)] by blast
qed

end

lemma replace_spans_cong:
  "\<forall>h\<in>set hs. f h = g h \<Longrightarrow> replace_spans s pos hs f = replace_spans s pos hs g"
  by (induction s pos hs f rule: replace_spans.induct) auto

subsection \<open>Properties\<close>

text \<open>C28. After \<open>scrub\<close> no MAC address and no IPv6 address of the patterns' form is left, and
  no IPv4 address either unless the text has one of the exempted ones. In particular, no pass
  brings back what an earlier pass removed.\<close>

theorem scrub_removes_addresses:
  assumes "regex_crate eng w d"
  shows "no_match w (scrub eng d text) mac_re \<and> no_match w (scrub eng d text) ipv6_re \<and>
    (no_exempt_ipv4 text \<longrightarrow> no_match w (scrub eng d text) (ipv4_re d))"
  using regex_crate.scrub_mac [OF assms] regex_crate.scrub_ipv6 [OF assms]
    regex_crate.scrub_ipv4 [OF assms] by blast

definition demo_text :: ustr where
  "demo_text = lit ''eth0 94:83:c4:12:34:56 at 192.168.1.42 and fe80::1a2b:3c4d''"

theorem scrub_removes_addresses_witness:
  "no_match ascii_word (scrub (backtracking ascii_word) is_ascii_digit demo_text) mac_re \<and>
   no_match ascii_word (scrub (backtracking ascii_word) is_ascii_digit demo_text) (ipv4_re is_ascii_digit) \<and>
   scrub (backtracking ascii_word) is_ascii_digit demo_text =
     lit ''eth0 94:83:c4:xx:xx:xx at x.x.x.x and x:x::x''"
proof -
  have "no_exempt_ipv4 demo_text" by code_simp
  moreover have "scrub (backtracking ascii_word) is_ascii_digit demo_text =
     lit ''eth0 94:83:c4:xx:xx:xx at x.x.x.x and x:x::x''" by code_simp
  ultimately show ?thesis
    using scrub_removes_addresses [OF bt.regex_crate_axioms, of demo_text] by blast
qed

text \<open>The exemption of \<open>::\<close> and \<open>::1\<close> never applies: every hit of the IPv6 pattern starts
  with a hexadecimal digit and is replaced, so the pass replaces all hits alike.\<close>

theorem ipv6_exemption_dead:
  assumes "regex_crate eng w d"
  shows "ipv6_pass eng text = re_replace_all eng ipv6_re (\<lambda>_. lit ''x:x::x'') text"
proof -
  have "ipv6_mask text h = lit ''x:x::x''" if "h \<in> set (re_matches eng ipv6_re text)" for h
    using regex_crate.ipv6_mask_x [OF assms, of "fst h" "fst (snd h)" "snd (snd h)" "text"] that by simp
  then show ?thesis
    unfolding ipv6_pass_def regex_crate.replace_all_spans [OF assms]
    by (intro replace_spans_cong ballI)
qed

theorem ipv6_exemption_dead_witness:
  "ipv6_pass (backtracking ascii_word) (lit ''a 1::1 b'') = lit ''a x:x::x b''"
  unfolding ipv6_exemption_dead [OF bt.regex_crate_axioms] by code_simp

text \<open>What the patterns do not reach: an IPv6 address that begins with two colons, one
  that ends with them, and a private IPv4 address written behind \<open>127.\<close> pass unchanged.\<close>

theorem scrub_misses:
  "scrub (backtracking ascii_word) is_ascii_digit (lit ''peer ::ffff:c0a8:12a up'') =
     lit ''peer ::ffff:c0a8:12a up'' \<and>
   scrub (backtracking ascii_word) is_ascii_digit (lit ''route 2001:db8:: via'') =
     lit ''route 2001:db8:: via'' \<and>
   scrub (backtracking ascii_word) is_ascii_digit (lit ''id 127.192.168.1.42'') =
     lit ''id 127.192.168.1.42''"
  by code_simp

end
