(* ===== verification/Payload.thy ===== *)
theory Payload
  imports Errors Utf8 Report_Types
begin

text \<open>
  crates/ucrs-decoder/src/payload.rs: decompression with a cap. A reader is the bytes it
  yields and the error, if any, it ends in; the decompressors of flate2 and zstd are
  parameters that turn a payload into a reader (zstd may already fail on construction).
\<close>

definition MAX_DECODED_SIZE :: nat where
  "MAX_DECODED_SIZE = 4 * 1024 * 1024"

type_synonym reader = "byte list \<times> ustr option"

record decompressors =
  gz_decoder :: "byte list \<Rightarrow> reader"
  zlib_decoder :: "byte list \<Rightarrow> reader"
  zstd_decoder :: "byte list \<Rightarrow> ustr + reader"

text \<open>\<open>read_to_end\<close> of a reader cut off with \<open>take\<close>: an error behind the cut is never met.\<close>

definition take_reader :: "nat \<Rightarrow> reader \<Rightarrow> reader" where
  "take_reader n r = (if n \<le> length (fst r) then (take n (fst r), None) else r)"

definition read_to_end :: "reader \<Rightarrow> anyhow + byte list" where
  "read_to_end r = (case snd r of None \<Rightarrow> Inr (fst r) | Some e \<Rightarrow> Inl [External e])"

definition read_capped :: "reader \<Rightarrow> anyhow + byte list" where
  "read_capped r =
     and_then (with_context (lit ''decompressing payload'')
         (read_to_end (take_reader (MAX_DECODED_SIZE + 1) r)))
       (\<lambda>buf. if length buf > MAX_DECODED_SIZE
              then bail (lit ''decompressed payload exceeds 4194304 bytes'')
              else Inr buf)"

definition decode :: "decompressors \<Rightarrow> byte list \<Rightarrow> payload_encoding \<Rightarrow> anyhow + ustr" where
  "decode z raw encoding =
     and_then
       (case encoding of
          Enc_None \<Rightarrow> read_capped (raw, None)
        | Gzip \<Rightarrow> read_capped (gz_decoder z raw)
        | Zlib \<Rightarrow> read_capped (zlib_decoder z raw)
        | Zstd \<Rightarrow> (case zstd_decoder z raw of
            Inl e \<Rightarrow> Inl [External e] | Inr r \<Rightarrow> read_capped r))
       (\<lambda>data. Inr (from_utf8_lossy data))"

subsection \<open>Nothing is cut off\<close>

lemma read_capped_Inr:
  "read_capped r = Inr d \<longleftrightarrow> r = (d, None) \<and> length d \<le> MAX_DECODED_SIZE"
proof
  assume "read_capped r = Inr d"
  then show "r = (d, None) \<and> length d \<le> MAX_DECODED_SIZE"
    by (cases r) (auto simp: read_capped_def read_to_end_def take_reader_def and_then_Inr
        split: option.splits if_splits)
next
  assume "r = (d, None) \<and> length d \<le> MAX_DECODED_SIZE"
  then show "read_capped r = Inr d"
    by (simp add: read_capped_def read_to_end_def take_reader_def)
qed

text \<open>For evaluation: the cap compared as an integer.\<close>

lemma read_capped_code [code]:
  "read_capped r =
     (if int (length (fst r)) > 4194304 then bail (lit ''decompressed payload exceeds 4194304 bytes'')
      else with_context (lit ''decompressing payload'') (read_to_end r))"
proof (cases "length (fst r) \<le> MAX_DECODED_SIZE")
  case True
  then show ?thesis
    by (cases r, cases "snd r")
      (auto simp: read_capped_def take_reader_def read_to_end_def MAX_DECODED_SIZE_def and_then_def with_context_def
        simp del: lit_Cons)
next
  case False
  then show ?thesis
    by (simp add: read_capped_def take_reader_def read_to_end_def MAX_DECODED_SIZE_def del: lit_Cons)
qed

lemma read_capped_bomb:
  "MAX_DECODED_SIZE < length (fst r) \<Longrightarrow>
     read_capped r = bail (lit ''decompressed payload exceeds 4194304 bytes'')"
  by (simp add: read_capped_def read_to_end_def take_reader_def)

text \<open>The reader a payload is read with.\<close>

definition payload_reader :: "decompressors \<Rightarrow> byte list \<Rightarrow> payload_encoding \<Rightarrow> ustr + reader" where
  "payload_reader z raw encoding =
     (case encoding of
        Enc_None \<Rightarrow> Inr (raw, None)
      | Gzip \<Rightarrow> Inr (gz_decoder z raw)
      | Zlib \<Rightarrow> Inr (zlib_decoder z raw)
      | Zstd \<Rightarrow> zstd_decoder z raw)"

lemma decode_reader:
  "decode z raw encoding =
     (case payload_reader z raw encoding of
        Inl e \<Rightarrow> Inl [External e]
      | Inr r \<Rightarrow> and_then (read_capped r) (\<lambda>d. Inr (from_utf8_lossy d)))"
  by (cases encoding) (auto simp: decode_def payload_reader_def split: sum.splits)

lemma decode_Inr:
  "decode z raw encoding = Inr t \<longleftrightarrow>
     (\<exists>d. payload_reader z raw encoding = Inr (d, None) \<and> length d \<le> MAX_DECODED_SIZE
        \<and> t = from_utf8_lossy d)"
  by (auto simp: decode_reader read_capped_Inr and_then_Inr split: sum.splits)

lemma decode_bounds:
  "decode z raw encoding = Inr t \<Longrightarrow> length t \<le> MAX_DECODED_SIZE \<and> list_all scalar t"
  by (auto simp: decode_Inr from_utf8_lossy_scalar intro: order_trans [OF length_from_utf8_lossy])

text \<open>C29. \<open>decode\<close> succeeds exactly when the decompressor ends without an error within 4 MiB,
  and then yields the whole output as text, never a part of it: at most as many characters as
  bytes, all of them Unicode scalar values.\<close>

theorem decode_all_or_nothing:
  "(decode z raw encoding = Inr t \<longleftrightarrow>
     (\<exists>d. payload_reader z raw encoding = Inr (d, None) \<and> length d \<le> 4194304
        \<and> t = from_utf8_lossy d \<and> length t \<le> length d \<and> list_all scalar t))"
  using length_from_utf8_lossy from_utf8_lossy_scalar
  by (auto simp: decode_Inr MAX_DECODED_SIZE_def)

text \<open>A decompression bomb is rejected: more than 4 MiB of output is an error whatever
  follows, even when the stream is damaged behind that point.\<close>

theorem decode_rejects_bomb:
  assumes "payload_reader z raw encoding = Inr r" "4194304 < length (fst r)"
  shows "decode z raw encoding = Inl [Text (lit ''decompressed payload exceeds 4194304 bytes'')]"
  using assms read_capped_bomb [of r]
  by (simp add: decode_reader MAX_DECODED_SIZE_def bail_def)

definition demo_bomb :: decompressors where
  "demo_bomb = \<lparr>gz_decoder = (\<lambda>raw. (replicate 4194305 0, Some (lit ''corrupt''))),
     zlib_decoder = (\<lambda>raw. (raw, None)), zstd_decoder = (\<lambda>raw. Inl (lit ''bad magic''))\<rparr>"

theorem decode_rejects_bomb_witness:
  "decode demo_bomb [31, 139] Gzip =
     Inl [Text (lit ''decompressed payload exceeds 4194304 bytes'')]"
  by (rule decode_rejects_bomb [of _ _ _ "(replicate 4194305 0, Some (lit ''corrupt''))"])
    (simp_all add: payload_reader_def demo_bomb_def)

end
