(* ===== verification/Decode.thy ===== *)
theory Decode
  imports Symbolizer Scrub Payload Signature
begin

text \<open>
  crates/ucrs-decoder/src/decode.rs and the main loop of the decoder: the queue of decode
  jobs, the pipeline of one report (read, decompress, symbolize, scrub, store, group, delete
  the raw payload) and the retention of raw payloads of failed reports. The server's part of
  the queue is the insert of a pending job. Log lines are left out.
\<close>

definition MAX_ATTEMPTS :: int where
  "MAX_ATTEMPTS = 3"

record 'n decoder_env =
  de_cfg :: config
  de_pool :: symbol_pool
  de_sym :: "'n symbols_env"
  de_payload :: decompressors
  de_digit :: "uchar \<Rightarrow> bool"
  de_sha :: "byte list \<Rightarrow> ustr"
  de_id_at :: "nat \<Rightarrow> ustr"

record job =
  jo_id :: ustr
  jo_report_id :: ustr
  jo_attempts :: int

subsection \<open>Retention of raw payloads\<close>

definition failed_raw :: "int \<Rightarrow> database \<Rightarrow> ustr list" where
  "failed_raw cutoff db =
     map rp_id (filter (\<lambda>r. rp_state r = Report_Failed \<and> rp_raw_deleted_at r = None
       \<and> rp_received_at r < cutoff) (db_reports db))"

definition mark_raw_deleted :: "int \<Rightarrow> ustr \<Rightarrow> database \<Rightarrow> database" where
  "mark_raw_deleted ts rid db =
     db\<lparr>db_reports := update_where (\<lambda>r. rp_id r = rid) (\<lambda>r. r\<lparr>rp_raw_deleted_at := Some ts\<rparr>) (db_reports db)\<rparr>"

fun drop_raw :: "config \<Rightarrow> ustr list \<Rightarrow> world \<Rightarrow> world" where
  "drop_raw cfg [] w = w"
| "drop_raw cfg (rid # ids) w =
     drop_raw cfg ids
       (ignoring (update_db (mark_raw_deleted (w_now w) rid))
         (ignoring (fs_do (\<lambda>fs. fs_remove_file fs (path_join (raw_dir cfg) rid))) w))"

definition gc_failed_raw :: "config \<Rightarrow> world \<Rightarrow> world" where
  "gc_failed_raw cfg w =
     (let cutoff = w_now w - uint (raw_failed_retention_days cfg) * 86400 in
      case select (failed_raw cutoff) w of
        (Inl _, w1) \<Rightarrow> w1
      | (Inr ids, w1) \<Rightarrow> drop_raw cfg ids w1)"

subsection \<open>The queue\<close>

text \<open>The pending job with the smallest id, as \<open>ORDER BY id LIMIT 1\<close> has it.\<close>

definition next_pending :: "job_row list \<Rightarrow> job_row option" where
  "next_pending jobs =
     (case sort_key jb_id (filter (\<lambda>j. jb_state j = Pending) jobs) of [] \<Rightarrow> None | j # _ \<Rightarrow> Some j)"

definition claim_statement :: "database \<Rightarrow> (job option \<times> database) option" where
  "claim_statement db =
     (case next_pending (db_jobs db) of
        None \<Rightarrow> Some (None, db)
      | Some j \<Rightarrow> Some
          (Some \<lparr>jo_id = jb_id j, jo_report_id = jb_report_id j, jo_attempts = jb_attempts j + 1\<rparr>,
           db\<lparr>db_jobs := update_where (\<lambda>r. jb_id r = jb_id j)
             (\<lambda>r. r\<lparr>jb_state := Running, jb_attempts := jb_attempts r + 1\<rparr>) (db_jobs db)\<rparr>))"

definition claim_job :: "(anyhow, job option) io" where
  "claim_job = query claim_statement"

definition set_job_done :: "ustr \<Rightarrow> database \<Rightarrow> database" where
  "set_job_done jid db =
     db\<lparr>db_jobs := update_where (\<lambda>r. jb_id r = jid) (\<lambda>r. r\<lparr>jb_state := Done\<rparr>) (db_jobs db)\<rparr>"

definition set_job_error :: "job_state \<Rightarrow> anyhow \<Rightarrow> ustr \<Rightarrow> database \<Rightarrow> database" where
  "set_job_error st err jid db =
     db\<lparr>db_jobs := update_where (\<lambda>r. jb_id r = jid)
       (\<lambda>r. r\<lparr>jb_state := st, jb_last_error := Some err\<rparr>) (db_jobs db)\<rparr>"

definition set_report_failed :: "ustr \<Rightarrow> database \<Rightarrow> database" where
  "set_report_failed rid db =
     db\<lparr>db_reports := update_where (\<lambda>r. rp_id r = rid) (\<lambda>r. r\<lparr>rp_state := Report_Failed\<rparr>) (db_reports db)\<rparr>"

definition set_report_decoded :: "ustr \<Rightarrow> int \<Rightarrow> ustr \<Rightarrow> database \<Rightarrow> database option" where
  "set_report_decoded gid ts rid db =
     (if references rp_id rid (db_reports db) \<and> \<not> references cg_id gid (db_groups db) then None
      else Some (db\<lparr>db_reports := update_where (\<lambda>r. rp_id r = rid)
       (\<lambda>r. r\<lparr>rp_state := Decoded, rp_group_id := Some gid, rp_raw_deleted_at := Some ts\<rparr>) (db_reports db)\<rparr>))"

subsection \<open>The pipeline of a report\<close>

definition fetch_one :: "(database \<Rightarrow> 'a option) \<Rightarrow> (anyhow, 'a) io" where
  "fetch_one f = bindE (select f) (\<lambda>r. case r of
     None \<Rightarrow> throw [External (lit ''no rows returned'')] | Some x \<Rightarrow> ret x)"

definition attempt :: "('e, 'a) io \<Rightarrow> ('f, 'e + 'a) io" where
  "attempt m = (\<lambda>w. case m w of (r, w') \<Rightarrow> (Inr r, w'))"

text \<open>The synchronous section: from the text of the payload to the decoded text and its
  signature.\<close>

definition decoded_text ::
  "'n decoder_env \<Rightarrow> file_system \<Rightarrow> ustr option \<Rightarrow> ustr option \<Rightarrow> ustr \<Rightarrow> ustr" where
  "decoded_text e fs symbol_dir kernel_buildid text =
     (let sz = new_symbolizer (de_sym e) fs symbol_dir kernel_buildid;
          annotated = (if have_symbols sz then fst (annotate (de_sym e) fs text sz) else text) in
      scrub (sy_regex (de_sym e)) (de_digit e) annotated)"

definition classify :: "'n decoder_env \<Rightarrow> ustr \<Rightarrow> ustr \<Rightarrow> crash_signature" where
  "classify e kind decoded =
     (case parse_oops decoded of
        Some (exc, frames) \<Rightarrow> compute (de_sha e) kind exc frames
      | None \<Rightarrow> compute (de_sha e) kind (lit ''unclassified'') [])"

definition parse_encoding :: "ustr \<Rightarrow> anyhow + payload_encoding" where
  "parse_encoding s = (case payload_encoding_from_str s of Inl m \<Rightarrow> Inl [Text m] | Inr x \<Rightarrow> Inr x)"

definition new_group :: "ustr \<Rightarrow> crash_signature \<Rightarrow> ustr \<Rightarrow> int \<Rightarrow> ustr \<Rightarrow> group_row" where
  "new_group gid sig kind ts version =
     \<lparr>cg_id = gid, cg_signature = cs_signature sig, cg_kind = kind, cg_title = cs_title sig,
      cg_modules = Some (join_with [32] (cs_modules sig)), cg_first_seen = ts, cg_last_seen = ts,
      cg_first_seen_version = Some version, cg_issue_url = None, cg_state = lit ''new''\<rparr>"

text \<open>The second half: store the text, group the report, delete the raw payload.\<close>

definition store_decoded ::
  "'n decoder_env \<Rightarrow> ustr \<Rightarrow> report_row \<Rightarrow> ustr \<Rightarrow> crash_signature \<Rightarrow> (anyhow, ustr) io" where
  "store_decoded e rid report decoded sig =
     bindE (fs_do (\<lambda>fs. fs_create_dir_all fs (decoded_dir (de_cfg e)))) (\<lambda>_.
     bindE (context_io (lit ''writing decoded text'')
       (fs_do (\<lambda>fs. fs_write fs (path_join (decoded_dir (de_cfg e)) rid) (as_bytes decoded)))) (\<lambda>_.
     bindE get_now (\<lambda>ts.
     bindE (draw (de_id_at e)) (\<lambda>new_id.
     bindE (context_io (lit ''upserting crash group'')
       (query (upsert_group (new_group new_id sig (rp_kind report) ts (rp_version report))))) (\<lambda>gid.
     bindE (exec (set_report_decoded gid ts rid)) (\<lambda>_.
     bindE (context_io (lit ''deleting raw payload'')
       (fs_do (\<lambda>fs. fs_remove_file fs (path_join (raw_dir (de_cfg e)) rid)))) (\<lambda>_.
     ret gid)))))))"

definition decode_report :: "'n decoder_env \<Rightarrow> ustr \<Rightarrow> (anyhow, ustr) io" where
  "decode_report e rid =
     bindE (context_io (lit ''loading report'')
       (fetch_one (\<lambda>db. lookup_by rp_id rid (db_reports db)))) (\<lambda>report.
     bindE (context_io (lit ''reading raw payload'')
       (fs_get (\<lambda>fs. fs_read fs (path_join (raw_dir (de_cfg e)) rid)))) (\<lambda>raw.
     bindE (lift_result (parse_encoding (rp_payload_encoding report))) (\<lambda>encoding.
     bindE (lift_result (Payload.decode (de_payload e) raw encoding)) (\<lambda>text.
     bindE (attempt (ensure_kernel (de_sym e) (de_pool e) (rp_version report) (rp_target report)
         (rp_kernel_buildid report))) (\<lambda>dir w.
     let decoded = decoded_text e (w_fs w) (ok dir) (rp_kernel_buildid report) text;
         sig = classify e (rp_kind report) decoded in
     store_decoded e rid report decoded sig w)))))"

definition process_job :: "'n decoder_env \<Rightarrow> job \<Rightarrow> world \<Rightarrow> world" where
  "process_job e job w =
     (case decode_report e (jo_report_id job) w of
        (Inr group_id, w1) \<Rightarrow> ignoring (update_db (set_job_done (jo_id job))) w1
      | (Inl err, w1) \<Rightarrow>
          (let st = (if jo_attempts job \<ge> MAX_ATTEMPTS then Job_Failed else Pending);
               w2 = ignoring (update_db (set_job_error st err (jo_id job))) w1 in
           if st = Job_Failed
           then ignoring (update_db (set_report_failed (jo_report_id job))) w2
           else w2))"

subsection \<open>The main loop, one-shot\<close>

text \<open>\<open>--once\<close>: claim and process until there is no pending job; a failed claim is tried again.\<close>

partial_function (option) drain :: "'n decoder_env \<Rightarrow> world \<Rightarrow> world option" where
  "drain e w =
     (case claim_job w of
        (Inl _, w1) \<Rightarrow> drain e w1
      | (Inr None, w1) \<Rightarrow> Some w1
      | (Inr (Some job), w1) \<Rightarrow> drain e (process_job e job w1))"

subsection \<open>Frames of the symbol pool\<close>

text \<open>The pool touches the file system only: a relation that does not look at it is kept.\<close>

context io_frame_fs begin

lemma moves_unpack: "moves P (unpack_entries e dest rs)"
  by (induction e dest rs rule: unpack_entries.induct) (auto split: sum.splits)

lemma moves_extract: "moves P (extract_tarball e data dest)"
  unfolding extract_tarball_def by (auto intro: moves_unpack split: sum.splits)

lemma fs_ignored_P: "P w (ignoring (fs_do f) w)"
  by (rule ignoring_moves) auto

lemma moves_index: "moves P (index_files e root files)"
proof (induction files)
  case (Cons f0 files)
  show ?case unfolding moves_def
  proof
    fix w
    let ?tail = "\<lambda>link. bindE (fs_get (\<lambda>fs. canonicalize fs f0)) (\<lambda>target.
        bindE (fs_do (\<lambda>fs. fs_symlink fs target link)) (\<lambda>_. index_files e root files))"
    have tail: "moves P (?tail link)" for link using Cons by auto
    have "P w1 (snd (?tail link (ignoring (fs_do f) w1)))" for link f w1
      using tail [of link] fs_ignored_P [of w1 f] P_trans unfolding moves_def by blast
    then have "moves P (\<lambda>w1. ?tail link (ignoring (fs_do f) w1))" for link f
      by (simp add: moves_def)
    then have "moves P (bindE (fs_do g) (\<lambda>_ w1. ?tail link (ignoring (fs_do f) w1)))" for g link f
      by auto
    then show "P w (snd (index_files e root (f0 # files) w))"
      using Cons by (auto simp: moves_def Let_def simp del: lit_Cons split: option.split)
  qed
qed auto

lemma stamp_P: "P w (stamp_now stamp w)"
  unfolding stamp_now_def by (rule fs_ignored_P)

lemma moves_finish: "moves P (finish_extract e pool dest stamp)"
proof -
  have "moves P (index_build_ids e dest root)" for root
    using moves_index [of e root] by (simp add: index_build_ids_def moves_def del: index_files.simps lit_Cons)
  then have "P w (stamp_now stamp (ignoring (index_build_ids e dest root) w))" for w root
    using ignoring_moves stamp_P P_trans by blast
  then show ?thesis by (auto simp: moves_def finish_extract_def bail_def P_refl)
qed

lemma moves_fetch: "moves P (fetch_kernel e pool url dest stamp)"
proof -
  have "moves P (bindE (lift_result r) (\<lambda>tarball.
      if prefix (lit ''file://'') url
      then bindE (extract_tarball e tarball dest) (\<lambda>_. finish_extract e pool dest stamp)
      else bindE (lift_result (checksum_ok e url tarball)) (\<lambda>_.
        bindE (extract_tarball e tarball dest) (\<lambda>_. finish_extract e pool dest stamp))))" for r
    by (intro moves_bind moves_pure moves_if moves_extract moves_finish)
  then show ?thesis by (simp add: moves_def fetch_kernel_def del: lit_Cons)
qed

lemma moves_ensure: "moves P (ensure_kernel e pool v t x)"
proof -
  have "P w (snd (fetch_kernel e pool url dest stamp (ignoring (fs_do f) w)))" for w url dest stamp f
    using moves_fetch [of e pool url dest stamp] fs_ignored_P [of w f] P_trans
    unfolding moves_def by blast
  then show ?thesis using moves_fetch [of e pool] stamp_P
    by (auto simp: moves_def ensure_kernel_def Let_def bail_def P_refl simp del: lit_Cons)
qed

end

subsection \<open>Frames of the pipeline\<close>

lemma moves_attempt: "moves P m \<Longrightarrow> moves P (attempt m)"
  by (auto simp: moves_def attempt_def split: prod.splits) (metis snd_conv)

text \<open>The statements of the pipeline, and those around it.\<close>

locale decoder_frame = io_frame_fs P for P :: "world \<Rightarrow> world \<Rightarrow> bool" +
  assumes P_group: "upsert_group g (w_db w) = Some (x, db) \<Longrightarrow> P w (w\<lparr>w_db := db\<rparr>)"
    and P_decoded: "set_report_decoded gid ts rid (w_db w) = Some db \<Longrightarrow> P w (w\<lparr>w_db := db\<rparr>)"
begin

lemma moves_store_decoded: "moves P (store_decoded e rid report decoded sig)"
  unfolding store_decoded_def
  by (intro moves_bind moves_context moves_pure moves_fs moves_query P_group moves_exec P_decoded)

lemma moves_decode: "moves P (decode_report e rid)"
  unfolding decode_report_def fetch_one_def Let_def
proof (intro moves_bind moves_context moves_select moves_pure moves_fs moves_attempt moves_ensure)
  fix x :: "report_row option"
  show "moves P (case x of None \<Rightarrow> throw [External (lit ''no rows returned'')] | Some x \<Rightarrow> ret x)"
    by (intro moves_option moves_pure)
next
  fix report encoding and t :: ustr and dir :: "anyhow + ustr"
  show "moves P (\<lambda>w. store_decoded e rid report
      (decoded_text e (w_fs w) (ok dir) (rp_kernel_buildid report) t)
      (classify e (rp_kind report) (decoded_text e (w_fs w) (ok dir) (rp_kernel_buildid report) t)) w)"
    using moves_store_decoded [of e rid report] by (simp add: moves_def)
qed

end

locale decoder_frame_all = decoder_frame +
  assumes P_claim: "claim_statement (w_db w) = Some (x, db) \<Longrightarrow> P w (w\<lparr>w_db := db\<rparr>)"
    and P_done: "P w (w\<lparr>w_db := set_job_done jid (w_db w)\<rparr>)"
    and P_error: "P w (w\<lparr>w_db := set_job_error st err jid (w_db w)\<rparr>)"
    and P_failed: "P w (w\<lparr>w_db := set_report_failed rid (w_db w)\<rparr>)"
    and P_marked: "P w (w\<lparr>w_db := mark_raw_deleted ts rid (w_db w)\<rparr>)"
begin

lemma moves_claim: "moves P claim_job"
  unfolding claim_job_def by (intro moves_query P_claim)

lemma moves_process: "P w (process_job e job w)"
proof -
  have ign: "P v (ignoring (update_db (set_job_done jid)) v)"
    "P v (ignoring (update_db (set_job_error st err jid)) v)"
    "P v (ignoring (update_db (set_report_failed rid)) v)" for v jid st err rid
    by (intro ignoring_moves moves_update P_done P_error P_failed)+
  obtain r w1 where d: "decode_report e (jo_report_id job) w = (r, w1)" by fastforce
  from movesD [OF moves_decode d] have w1: "P w w1" .
  have "P w (ignoring (update_db (set_job_error st err jid)) w1)" for st err jid
    using P_trans [OF w1 ign(2)] .
  moreover from this have "P w (ignoring (update_db (set_report_failed rid)) (ignoring (update_db (set_job_error st err jid)) w1))"
    for st err jid rid using P_trans ign(3) by blast
  moreover have "P w (ignoring (update_db (set_job_done jid)) w1)" for jid
    using P_trans [OF w1 ign(1)] .
  ultimately show ?thesis using d by (cases r) (auto simp: process_job_def Let_def)
qed

lemma moves_drop_raw: "P w (drop_raw cfg ids w)"
proof (induction cfg ids w rule: drop_raw.induct)
  case (2 cfg rid ids w)
  have "P v (ignoring (update_db (mark_raw_deleted ts rid)) v)" for v ts
    by (intro ignoring_moves moves_update P_marked)
  then have "P w (ignoring (update_db (mark_raw_deleted (w_now w) rid))
      (ignoring (fs_do (\<lambda>fs. fs_remove_file fs (path_join (raw_dir cfg) rid))) w))"
    using fs_ignored_P P_trans by blast
  with 2 show ?case unfolding drop_raw.simps using P_trans by blast
qed (simp add: P_refl)

lemma moves_gc: "P w (gc_failed_raw cfg w)"
proof -
  obtain r w1 where s: "select (failed_raw (w_now w - uint (raw_failed_retention_days cfg) * 86400)) w = (r, w1)"
    by fastforce
  from movesD [OF moves_select s] have "P w w1" .
  with s moves_drop_raw P_trans show ?thesis
    by (cases r) (auto simp: gc_failed_raw_def Let_def)
qed

end

subsection \<open>The jobs under the pipeline\<close>

text \<open>The pipeline itself leaves the queue alone.\<close>

definition same_jobs :: "world \<Rightarrow> world \<Rightarrow> bool" where
  "same_jobs w w' \<longleftrightarrow> db_jobs (w_db w') = db_jobs (w_db w) \<and> same_clock w w'"

lemma upsert_group_jobs: "upsert_group r db = Some (x, db') \<Longrightarrow> db_jobs db' = db_jobs db"
  by (auto simp: upsert_group_def split: option.splits if_splits)

interpretation jobs: decoder_frame same_jobs
  by unfold_locales
    (auto simp: same_jobs_def same_clock_def set_report_decoded_def dest: upsert_group_jobs split: if_splits)

end
