(* ===== verification/Decode_Queue.thy ===== *)
theory Decode_Queue
  imports Decode
begin

text \<open>
  The queue of decode jobs under the worker of the decoder's main loop: the states a job goes
  through, the bound on its attempts, the end of a one-shot run, and what a crash leaves. The
  contract between the loop and the queue is the locale \<open>worklist\<close>: a round keeps an
  invariant and lowers a weight; the model's rounds interpret it.
\<close>

subsection \<open>The contract of a work list\<close>

locale worklist =
  fixes inv :: "'s \<Rightarrow> bool" and step :: "'s \<Rightarrow> 's option" and weight :: "'s \<Rightarrow> nat"
  assumes step_inv: "inv s \<Longrightarrow> step s = Some s' \<Longrightarrow> inv s'"
    and step_less: "inv s \<Longrightarrow> step s = Some s' \<Longrightarrow> weight s' < weight s"
begin

lemma rounds_induct [consumes 1, case_names round]:
  assumes "inv s" and "\<And>s. inv s \<Longrightarrow> (\<And>s'. step s = Some s' \<Longrightarrow> inv s' \<Longrightarrow> P s') \<Longrightarrow> P s"
  shows "P s"
  using assms(1)
proof (induction "weight s" arbitrary: s rule: less_induct)
  case less
  show ?case by (rule assms(2)) (use less step_inv step_less in blast)+
qed

end

subsection \<open>One round of the worker\<close>

definition work_round :: "'n decoder_env \<Rightarrow> world \<Rightarrow> world option" where
  "work_round e w =
     (case claim_job w of
        (Inl _, w1) \<Rightarrow> Some w1
      | (Inr None, w1) \<Rightarrow> None
      | (Inr (Some job), w1) \<Rightarrow> Some (process_job e job w1))"

abbreviation the_jobs :: "world \<Rightarrow> job_row list" where
  "the_jobs w \<equiv> db_jobs (w_db w)"

lemma next_pending_None: "next_pending jobs = None \<longleftrightarrow> (\<forall>j\<in>set jobs. jb_state j \<noteq> Pending)"
proof -
  have "sort_key jb_id (filter (\<lambda>j. jb_state j = Pending) jobs) = [] \<longleftrightarrow>
      (\<forall>j\<in>set jobs. jb_state j \<noteq> Pending)"
    by (metis (mono_tags) filter_empty_conv set_empty set_sort)
  then show ?thesis by (auto simp: next_pending_def split: list.splits)
qed

lemma next_pending_Some:
  assumes "next_pending jobs = Some j"
  shows "j \<in> set jobs \<and> jb_state j = Pending \<and> (\<forall>i\<in>set jobs. jb_state i = Pending \<longrightarrow> jb_id j \<le> jb_id i)"
proof -
  let ?p = "filter (\<lambda>j. jb_state j = Pending) jobs"
  from assms obtain js where s: "sort_key jb_id ?p = j # js"
    by (auto simp: next_pending_def split: list.splits)
  have "sorted (map jb_id (j # js))" unfolding s [symmetric] by simp
  moreover have "set (j # js) = set ?p" unfolding s [symmetric] by simp
  ultimately show ?thesis by auto
qed

lemma claim_some:
  assumes "claim_job w = (Inr (Some job), w1)"
  obtains j where "next_pending (the_jobs w) = Some j" "jo_id job = jb_id j"
    "jo_report_id job = jb_report_id j" "jo_attempts job = jb_attempts j + 1"
    "w1 = w\<lparr>w_db := (w_db w)\<lparr>db_jobs := update_where (\<lambda>r. jb_id r = jb_id j)
       (\<lambda>r. r\<lparr>jb_state := Running, jb_attempts := jb_attempts r + 1\<rparr>) (the_jobs w)\<rparr>,
       w_faults := tl (w_faults w)\<rparr>"
  using assms by (auto simp: claim_job_def query_Inr claim_statement_def split: option.splits)

lemma claim_none:
  "claim_job w = (Inr None, w1) \<longleftrightarrow> next_pending (the_jobs w) = None \<and>
     \<not> (w_faults w \<noteq> [] \<and> hd (w_faults w)) \<and> w1 = w\<lparr>w_faults := tl (w_faults w)\<rparr>"
  by (auto simp: claim_job_def query_Inr claim_statement_def split: option.splits)

lemma claim_error:
  "claim_job w = (Inl err, w1) \<Longrightarrow> w_faults w \<noteq> [] \<and> w1 = w\<lparr>w_faults := tl (w_faults w)\<rparr>"
  by (auto simp: claim_job_def query_def claim_statement_def split: option.splits if_splits)

text \<open>What a job's row becomes: claimed, then left, done, failed, or pending again.\<close>

definition outcome :: "job \<Rightarrow> job_state \<Rightarrow> bool" where
  "outcome job st \<longleftrightarrow> st = Running \<or> st = Done \<or> st = Job_Failed \<and> MAX_ATTEMPTS \<le> jo_attempts job
     \<or> st = Pending \<and> jo_attempts job < MAX_ATTEMPTS"

definition rejobbed :: "job \<Rightarrow> job_row list \<Rightarrow> job_row list \<Rightarrow> bool" where
  "rejobbed job js js' \<longleftrightarrow> js' = js \<or>
     (\<exists>st g. outcome job st \<and> st \<noteq> Running \<and> (\<forall>r. jb_id (g r) = jb_id r \<and> jb_report_id (g r) = jb_report_id r \<and>
        jb_attempts (g r) = jb_attempts r \<and> jb_state (g r) = st \<and> (st = Job_Failed \<longrightarrow> jb_last_error (g r) \<noteq> None))
        \<and> js' = update_where (\<lambda>r. jb_id r = jo_id job) g js)"

lemma ignored_update:
  "w_db (ignoring (update_db f) w) = w_db w \<or> w_db (ignoring (update_db f) w) = f (w_db w)"
  "w_fs (ignoring (update_db f) w) = w_fs w" "w_now (ignoring (update_db f) w) = w_now w"
  "same_clock w (ignoring (update_db f) w)"
  by (auto simp: ignoring_def update_db_def query_def same_clock_def)

lemma process_job_jobs:
  "rejobbed job (the_jobs w) (the_jobs (process_job e job w)) \<and> same_clock w (process_job e job w)"
proof -
  obtain r w1 where d: "decode_report e (jo_report_id job) w = (r, w1)" by fastforce
  have j: "the_jobs w1 = the_jobs w" "same_clock w w1"
    using movesD [OF jobs.moves_decode d] by (simp_all add: same_jobs_def)
  show ?thesis
  proof (cases r)
    case (Inr gid)
    let ?w = "ignoring (update_db (set_job_done (jo_id job))) w1"
    have p: "process_job e job w = ?w" using d Inr by (simp add: process_job_def)
    have "rejobbed job (the_jobs w1) (the_jobs ?w)"
    proof (rule disjE [OF ignored_update(1) [of "set_job_done (jo_id job)" w1]])
      assume "w_db ?w = set_job_done (jo_id job) (w_db w1)"
      then show ?thesis unfolding rejobbed_def
        by (intro disjI2 exI [of _ Done] exI [of _ "\<lambda>r. r\<lparr>jb_state := Done\<rparr>"])
          (simp add: set_job_done_def outcome_def)
    qed (simp add: rejobbed_def)
    with clock.P_trans [OF j(2) ignored_update(4)] show ?thesis unfolding p j(1) by blast
  next
    case (Inl err)
    let ?st = "if jo_attempts job \<ge> MAX_ATTEMPTS then Job_Failed else Pending"
    let ?w = "ignoring (update_db (set_job_error ?st err (jo_id job))) w1"
    let ?v = "if ?st = Job_Failed then ignoring (update_db (set_report_failed (jo_report_id job))) ?w else ?w"
    have p: "process_job e job w = ?v" using d Inl by (simp add: process_job_def Let_def)
    have "rejobbed job (the_jobs w1) (the_jobs ?w)"
    proof (rule disjE [OF ignored_update(1) [of "set_job_error ?st err (jo_id job)" w1]])
      assume "w_db ?w = set_job_error ?st err (jo_id job) (w_db w1)"
      then show ?thesis unfolding rejobbed_def
        by (intro disjI2 exI [of _ ?st] exI [of _ "\<lambda>r. r\<lparr>jb_state := ?st, jb_last_error := Some err\<rparr>"])
          (simp add: set_job_error_def outcome_def)
    qed (simp add: rejobbed_def)
    moreover have "the_jobs ?v = the_jobs ?w"
      using ignored_update(1) [of "set_report_failed (jo_report_id job)" ?w] by (auto simp: set_report_failed_def)
    moreover have "same_clock w1 ?v"
      using ignored_update(4) clock.P_trans [OF ignored_update(4) ignored_update(4)] by simp
    ultimately show ?thesis using clock.P_trans [OF j(2), of ?v] unfolding p j(1) by simp
  qed
qed

subsection \<open>The life of a job\<close>

definition job_ok :: "job_row \<Rightarrow> bool" where
  "job_ok j \<longleftrightarrow> 0 \<le> jb_attempts j \<and> jb_attempts j \<le> MAX_ATTEMPTS \<and>
     (case jb_state j of
        Pending \<Rightarrow> jb_attempts j < MAX_ATTEMPTS
      | Job_Failed \<Rightarrow> jb_attempts j = MAX_ATTEMPTS \<and> jb_last_error j \<noteq> None
      | _ \<Rightarrow> 1 \<le> jb_attempts j)"

definition jobs_ok :: "job_row list \<Rightarrow> bool" where
  "jobs_ok js \<longleftrightarrow> keyed jb_id js \<and> (\<forall>j\<in>set js. job_ok j)"

definition job_weight :: "job_row \<Rightarrow> nat" where
  "job_weight j = (if jb_state j = Pending then Suc (nat (MAX_ATTEMPTS - jb_attempts j)) else 0)"

definition queue_weight :: "world \<Rightarrow> nat" where
  "queue_weight w = sum_list (map job_weight (the_jobs w)) + length (w_faults w)"

lemma sum_list_map_less:
  fixes f :: "'a \<Rightarrow> nat"
  assumes "\<And>x. x \<in> set xs \<Longrightarrow> f (g x) \<le> f x" "y \<in> set xs" "f (g y) < f y"
  shows "sum_list (map f (map g xs)) < sum_list (map f xs)"
  using assms
proof (induction xs)
  case (Cons x xs)
  have le: "sum_list (map f (map g xs)) \<le> sum_list (map f xs)"
    using Cons.prems(1) by (simp add: comp_def) (metis sum_list_mono)
  show ?case
  proof (cases "y = x")
    case True
    with Cons.prems le show ?thesis by simp
  next
    case False
    with Cons show ?thesis by (simp add: add_le_less_mono)
  qed
qed simp

text \<open>A claim and what becomes of it, row by row.\<close>

lemma round_rows:
  assumes k: "keyed jb_id js" and n: "next_pending js = Some j"
    and job: "jo_id job = jb_id j" "jo_attempts job = jb_attempts j + 1"
    and r: "rejobbed job (update_where (\<lambda>r. jb_id r = jb_id j)
       (\<lambda>r. r\<lparr>jb_state := Running, jb_attempts := jb_attempts r + 1\<rparr>) js) js'"
  obtains g where "js' = map g js" "\<And>x. jb_id (g x) = jb_id x" "\<And>x. x \<in> set js \<Longrightarrow> x \<noteq> j \<Longrightarrow> g x = x"
    "outcome job (jb_state (g j))" "jb_attempts (g j) = jb_attempts j + 1"
    "jb_state (g j) = Job_Failed \<longrightarrow> jb_last_error (g j) \<noteq> None"
proof -
  define c where "c = (\<lambda>r :: job_row. if jb_id r = jb_id j then r\<lparr>jb_state := Running, jb_attempts := jb_attempts r + 1\<rparr> else r)"
  have uniq: "jb_id x = jb_id j \<Longrightarrow> x \<in> set js \<Longrightarrow> x = j" for x
    using k next_pending_Some [OF n] by (auto simp: keyed_def distinct_map inj_on_def)
  have r': "rejobbed job (map c js) js'" using r by (simp add: update_where_def c_def)
  from r' [unfolded rejobbed_def] consider "js' = map c js"
    | st f where "outcome job st" "\<forall>r. jb_id (f r) = jb_id r \<and> jb_report_id (f r) = jb_report_id r \<and>
        jb_attempts (f r) = jb_attempts r \<and> jb_state (f r) = st \<and> (st = Job_Failed \<longrightarrow> jb_last_error (f r) \<noteq> None)"
        "js' = update_where (\<lambda>r. jb_id r = jo_id job) f (map c js)"
    by blast
  then show ?thesis
  proof cases
    case 1
    show ?thesis by (rule that [of c]) (use 1 uniq in \<open>auto simp: c_def outcome_def\<close>)
  next
    case 2
    let ?g = "\<lambda>x. if jb_id x = jb_id j then f (c x) else x"
    have "js' = map ?g js" using 2(3) job(1) by (simp add: update_where_def c_def)
    then show ?thesis
      by (rule that [of ?g]) (use 2(1,2) uniq in \<open>auto simp: c_def\<close>)
  qed
qed

lemma round_ok:
  assumes ok: "jobs_ok (the_jobs w)" and s: "work_round e w = Some w'"
  shows "jobs_ok (the_jobs w') \<and> queue_weight w' < queue_weight w"
proof -
  from s consider (err) err w1 where "claim_job w = (Inl err, w1)" "w' = w1"
    | (job) job w1 where "claim_job w = (Inr (Some job), w1)" "w' = process_job e job w1"
    by (auto simp: work_round_def split: prod.splits sum.splits option.splits)
  then show ?thesis
  proof cases
    case err
    from claim_error [OF err(1)] ok err(2) show ?thesis by (simp add: queue_weight_def)
  next
    case job
    from claim_some [OF job(1)] obtain j where n: "next_pending (the_jobs w) = Some j"
      and jj: "jo_id job = jb_id j" "jo_attempts job = jb_attempts j + 1"
      and w1: "the_jobs w1 = update_where (\<lambda>r. jb_id r = jb_id j)
         (\<lambda>r. r\<lparr>jb_state := Running, jb_attempts := jb_attempts r + 1\<rparr>) (the_jobs w)"
        "length (w_faults w1) \<le> length (w_faults w)" by force
    have p: "rejobbed job (the_jobs w1) (the_jobs w')" "length (w_faults w') \<le> length (w_faults w1)"
      using process_job_jobs [of job w1 e] job(2) by (simp_all add: same_clock_def)
    have k: "keyed jb_id (the_jobs w)" using ok by (simp add: jobs_ok_def)
    from round_rows [OF k n jj p(1) [unfolded w1(1)]] obtain g where
      g: "the_jobs w' = map g (the_jobs w)" "\<And>x. jb_id (g x) = jb_id x"
        "\<And>x. x \<in> set (the_jobs w) \<Longrightarrow> x \<noteq> j \<Longrightarrow> g x = x" "outcome job (jb_state (g j))"
        "jb_attempts (g j) = jb_attempts j + 1" "jb_state (g j) = Job_Failed \<longrightarrow> jb_last_error (g j) \<noteq> None"
      by metis
    have jp: "j \<in> set (the_jobs w)" "jb_state j = Pending" using next_pending_Some [OF n] by auto
    then have "job_ok j" using ok by (simp add: jobs_ok_def)
    then have gj: "job_ok (g j)" "job_weight (g j) < job_weight j"
      using g(4-6) jp(2) jj(2)
      by (auto simp: job_ok_def outcome_def job_weight_def MAX_ATTEMPTS_def split: job_state.splits)
    have "jobs_ok (the_jobs w')"
      using ok g(1-3) gj(1) by (fastforce simp: jobs_ok_def keyed_def comp_def)
    moreover have "sum_list (map job_weight (map g (the_jobs w))) < sum_list (map job_weight (the_jobs w))"
      by (rule sum_list_map_less [where f = job_weight and g = g, OF _ jp(1) gj(2)]) (use g(3) gj(2) in \<open>metis less_imp_le order_refl\<close>)
    ultimately show ?thesis using p(2) w1(2) g(1) by (simp add: queue_weight_def)
  qed
qed

interpretation work: worklist "\<lambda>w. jobs_ok (the_jobs w)" "work_round e" queue_weight for e
  by unfold_locales (use round_ok in blast)+

lemma drain_round:
  "drain e w = (case work_round e w of None \<Rightarrow> Some (snd (claim_job w)) | Some w' \<Rightarrow> drain e w')"
  by (subst drain.simps) (auto simp: work_round_def split: prod.splits sum.splits option.splits)

lemma work_round_None:
  "work_round e w = None \<longleftrightarrow> (\<exists>w1. claim_job w = (Inr None, w1))"
  by (auto simp: work_round_def split: prod.splits sum.splits option.splits)

lemma drain_returns:
  "jobs_ok (the_jobs w) \<Longrightarrow>
     \<exists>w'. drain e w = Some w' \<and> jobs_ok (the_jobs w') \<and> next_pending (the_jobs w') = None"
proof (induction w rule: work.rounds_induct [where e = e])
  case (round w)
  show ?case
  proof (cases "work_round e w")
    case None
    then obtain w1 where c: "claim_job w = (Inr None, w1)" using work_round_None by blast
    then have "next_pending (the_jobs w) = None" "the_jobs w1 = the_jobs w" by (auto simp: claim_none)
    with round(1) None c show ?thesis by (subst drain_round) simp
  next
    case (Some w')
    from round(2) [OF Some] round_ok [OF round(1) Some] Some show ?thesis by (subst drain_round) simp
  qed
qed

subsection \<open>Everything that happens to the queue\<close>

text \<open>The steps of a deployment that concern the decoder: a round of the worker; the worker
  dying right after a claim or after the pipeline; the server queueing a job; the retention
  tasks; time passing and the database becoming (un)reliable.\<close>

inductive decoder_step :: "'n decoder_env \<Rightarrow> world \<Rightarrow> world \<Rightarrow> bool" for e where
  work: "work_round e w = Some w' \<Longrightarrow> decoder_step e w w'"
| crash_claimed: "claim_job w = (Inr (Some job), w') \<Longrightarrow> decoder_step e w w'"
| crash_decoded: "claim_job w = (Inr (Some job), w1) \<Longrightarrow>
    decode_report e (jo_report_id job) w1 = (r, w') \<Longrightarrow> decoder_step e w w'"
| enqueue: "insert_job \<lparr>jb_id = jid, jb_report_id = rid, jb_state = Pending, jb_attempts = 0,
      jb_last_error = None\<rparr> (w_db w) = Some db \<Longrightarrow> decoder_step e w (w\<lparr>w_db := db\<rparr>)"
| retention: "decoder_step e w (gc_failed_raw (de_cfg e) w)"
| symbol_gc: "decoder_step e w
    (w\<lparr>w_fs := gc (de_pool e) (retention_weeks (symbols (de_cfg e))) (w_now w) (w_fs w)\<rparr>)"
| environment: "w_now w \<le> t \<Longrightarrow> decoder_step e w (w\<lparr>w_now := t, w_faults := faults\<rparr>)"

lemma drop_raw_jobs: "the_jobs (drop_raw cfg ids w) = the_jobs w"
proof (induction cfg ids w rule: drop_raw.induct)
  case (2 cfg rid ids w)
  let ?w = "ignoring (fs_do (\<lambda>fs. fs_remove_file fs (path_join (raw_dir cfg) rid))) w"
  have "the_jobs ?w = the_jobs w" using jobs.fs_ignored_P by (simp add: same_jobs_def)
  moreover have "the_jobs (ignoring (update_db (mark_raw_deleted (w_now w) rid)) ?w) = the_jobs ?w"
    using ignored_update(1) [of "mark_raw_deleted (w_now w) rid" ?w] by (auto simp: mark_raw_deleted_def)
  ultimately show ?case using 2 by simp
qed simp

lemma gc_failed_raw_jobs: "the_jobs (gc_failed_raw cfg w) = the_jobs w"
proof -
  obtain r w1 where s: "select (failed_raw (w_now w - uint (raw_failed_retention_days cfg) * 86400)) w = (r, w1)"
    by fastforce
  have "the_jobs w1 = the_jobs w" using movesD [OF jobs.moves_select s] by (simp add: same_jobs_def)
  with s show ?thesis by (cases r) (simp_all add: gc_failed_raw_def Let_def drop_raw_jobs)
qed

text \<open>In terms of rows: a job that is pending may change, a new one may come, all others stay.\<close>

lemma claimed_rows:
  assumes k: "keyed jb_id js" and n: "next_pending js = Some j"
  defines "c \<equiv> (\<lambda>r :: job_row. r\<lparr>jb_state := Running, jb_attempts := jb_attempts r + 1\<rparr>)"
  shows "set (update_where (\<lambda>r. jb_id r = jb_id j) c js) = insert (c j) (set js - {j})"
proof -
  have "jb_id x = jb_id j \<longleftrightarrow> x = j" if "x \<in> set js" for x
    using k next_pending_Some [OF n] that by (auto simp: keyed_def distinct_map inj_on_def)
  then show ?thesis using next_pending_Some [OF n] by (auto simp: set_update_where image_iff)
qed

lemma decoder_step_jobs:
  assumes st: "decoder_step e w w'" and ok: "jobs_ok (the_jobs w)"
  shows "jobs_ok (the_jobs w') \<and> (\<forall>j\<in>set (the_jobs w). jb_state j \<noteq> Pending \<longrightarrow> j \<in> set (the_jobs w'))"
  using st
proof cases
  case work
  have "j \<in> set (the_jobs w')" if j: "j \<in> set (the_jobs w)" "jb_state j \<noteq> Pending" for j
    using work
  proof (cases "claim_job w")
    case (Pair r w1)
    show ?thesis
    proof (cases r)
      case (Inl err)
      with Pair work claim_error [of w err w1] j(1) show ?thesis by (simp add: work_round_def)
    next
      case (Inr jo)
      with Pair work obtain job where c: "claim_job w = (Inr (Some job), w1)" "w' = process_job e job w1"
        by (cases jo) (auto simp: work_round_def)
      from claim_some [OF c(1)] obtain i where n: "next_pending (the_jobs w) = Some i"
        and jj: "jo_id job = jb_id i" "jo_attempts job = jb_attempts i + 1"
        and w1: "the_jobs w1 = update_where (\<lambda>r. jb_id r = jb_id i)
           (\<lambda>r. r\<lparr>jb_state := Running, jb_attempts := jb_attempts r + 1\<rparr>) (the_jobs w)" by force
      have p: "rejobbed job (the_jobs w1) (the_jobs w')" using process_job_jobs [of job w1 e] c(2) by simp
      have k: "keyed jb_id (the_jobs w)" using ok by (simp add: jobs_ok_def)
      from round_rows [OF k n jj p [unfolded w1]] obtain g where
        "the_jobs w' = map g (the_jobs w)" "\<And>x. x \<in> set (the_jobs w) \<Longrightarrow> x \<noteq> i \<Longrightarrow> g x = x" by metis
      moreover have "j \<noteq> i" using j(2) next_pending_Some [OF n] by auto
      ultimately show ?thesis using j(1) by (metis image_eqI list.set_map)
    qed
  qed
  with round_ok [OF ok work] show ?thesis by blast
next
  have claimed: "jobs_ok (the_jobs w1) \<and> (\<forall>j\<in>set (the_jobs w). jb_state j \<noteq> Pending \<longrightarrow> j \<in> set (the_jobs w1))"
    if c: "claim_job w = (Inr (Some job), w1)" for job w1
  proof -
    from claim_some [OF c] obtain i where n: "next_pending (the_jobs w) = Some i"
      and w1: "the_jobs w1 = update_where (\<lambda>r. jb_id r = jb_id i)
         (\<lambda>r. r\<lparr>jb_state := Running, jb_attempts := jb_attempts r + 1\<rparr>) (the_jobs w)" by force
    have k: "keyed jb_id (the_jobs w)" using ok by (simp add: jobs_ok_def)
    note rows = claimed_rows [OF k n, folded w1]
    have i: "i \<in> set (the_jobs w)" "jb_state i = Pending" using next_pending_Some [OF n] by auto
    then have "job_ok (i\<lparr>jb_state := Running, jb_attempts := jb_attempts i + 1\<rparr>)"
      using ok by (auto simp: jobs_ok_def job_ok_def)
    then have "jobs_ok (the_jobs w1)" using ok rows k
      by (auto simp: jobs_ok_def) (simp add: w1)
    with rows i show ?thesis by auto
  qed
  {
    case (crash_claimed job)
    with claimed show ?thesis by blast
  next
    case (crash_decoded job w1 r)
    have "the_jobs w' = the_jobs w1"
      using movesD [OF jobs.moves_decode crash_decoded(2)] by (simp add: same_jobs_def)
    with claimed [OF crash_decoded(1)] show ?thesis by simp
  next
    case (enqueue jid rid db)
    then show ?thesis using ok
      by (auto simp: insert_job_def jobs_ok_def keyed_append references_def job_ok_def MAX_ATTEMPTS_def
          split: if_splits)
  next
    case retention
    then show ?thesis using ok gc_failed_raw_jobs by simp
  next
    case symbol_gc
    then show ?thesis using ok by simp
  next
    case (environment t faults)
    then show ?thesis using ok by simp
  }
qed

lemma decoder_run_jobs:
  assumes "(decoder_step e)\<^sup>*\<^sup>* w w'" "jobs_ok (the_jobs w)"
  shows "jobs_ok (the_jobs w') \<and> (\<forall>j\<in>set (the_jobs w). jb_state j \<noteq> Pending \<longrightarrow> j \<in> set (the_jobs w'))"
  using assms
proof (induction rule: rtranclp_induct)
  case (step u v)
  with decoder_step_jobs [of e u v] show ?case by blast
qed simp

subsection \<open>Properties\<close>

text \<open>A one-shot run ends, whatever the reports hold and whichever statements fail: the loop
  returns, and then no job is pending.\<close>

theorem drain_terminates:
  assumes "jobs_ok (the_jobs w)"
  shows "\<exists>w'. drain e w = Some w' \<and> list_all (\<lambda>j. jb_state j \<noteq> Pending) (the_jobs w')"
  using drain_returns [OF assms, of e] next_pending_None by (auto simp: list_all_iff)

text \<open>C37. The state machine of a job, in every state a deployment reaches from an empty queue,
  with crashes and failing statements: at most three attempts; pending only with attempts left;
  running or done only after an attempt; failed exactly after the third, with the error kept.\<close>

theorem job_lifecycle:
  assumes "(decoder_step e)\<^sup>*\<^sup>* w w'" "the_jobs w = []"
  shows "keyed jb_id (the_jobs w') \<and> list_all (\<lambda>j. 0 \<le> jb_attempts j \<and> jb_attempts j \<le> 3 \<and>
    (jb_state j = Pending \<longrightarrow> jb_attempts j < 3) \<and>
    (jb_state j = Running \<or> jb_state j = Done \<longrightarrow> 1 \<le> jb_attempts j) \<and>
    (jb_state j = Job_Failed \<longrightarrow> jb_attempts j = 3 \<and> jb_last_error j \<noteq> None)) (the_jobs w')"
proof -
  have "jobs_ok (the_jobs w)" using assms(2) by (simp add: jobs_ok_def)
  from decoder_run_jobs [OF assms(1) this] have "jobs_ok (the_jobs w')" by blast
  then show ?thesis
    by (fastforce simp: jobs_ok_def list_all_iff job_ok_def MAX_ATTEMPTS_def split: job_state.splits)
qed

text \<open>C38. A job left running is lost: between two rounds no step of any part ever touches it
  again, so a worker that dies after the claim takes the job out of the queue for good.\<close>

theorem running_job_stuck:
  assumes "jobs_ok (the_jobs w)" "j \<in> set (the_jobs w)" "jb_state j = Running"
    and "(decoder_step e)\<^sup>*\<^sup>* w w'"
  shows "j \<in> set (the_jobs w')"
  using decoder_run_jobs [OF assms(4,1)] assms(2,3) by auto

subsection \<open>A demo deployment\<close>

definition demo_config :: config where
  "demo_config = \<lparr>instance_name = lit ''demo'', listen = lit ''l'', base_url = lit ''http://x'',
     data_dir = lit ''v'', database_url = lit ''db'', raw_failed_retention_days = 14,
     symbols = default_symbols\<rparr>"

definition demo_dec :: "ustr decoder_env" where
  "demo_dec = \<lparr>de_cfg = demo_config, de_pool = demo_pool_dir, de_sym = demo_env,
     de_payload = \<lparr>gz_decoder = (\<lambda>d. (d, None)), zlib_decoder = (\<lambda>d. (d, None)),
       zstd_decoder = (\<lambda>d. Inr (d, None))\<rparr>,
     de_digit = is_ascii_digit, de_sha = map uint, de_id_at = (\<lambda>n. replicate (Suc n) 103)\<rparr>"

definition demo_report :: "ustr \<Rightarrow> report_row" where
  "demo_report rid = \<lparr>rp_id = rid, rp_device_id = None, rp_kind = lit ''pstore'', rp_received_at = 1,
     rp_captured_at = 1, rp_version = lit ''25'', rp_revision = lit ''r'', rp_target = lit ''x'',
     rp_arch = lit ''a'', rp_board_name = lit ''b'', rp_kernel = lit ''6'', rp_payload_encoding = lit ''none'',
     rp_state = Received, rp_visibility = Private, rp_group_id = None, rp_publish_slug = None,
     rp_raw_deleted_at = None, rp_kernel_buildid = None\<rparr>"

definition demo_job :: "ustr \<Rightarrow> ustr \<Rightarrow> job_row" where
  "demo_job jid rid = \<lparr>jb_id = jid, jb_report_id = rid, jb_state = Pending, jb_attempts = 0, jb_last_error = None\<rparr>"

definition demo_dec_db :: database where
  "demo_dec_db = \<lparr>db_devices = [], db_groups = [], db_reports = [demo_report (lit ''r1'')], db_users = [],
     db_tokens = [], db_sessions = [], db_jobs = []\<rparr>"

definition demo_dec_world :: "bool list \<Rightarrow> world" where
  "demo_dec_world faults = \<lparr>w_db = demo_dec_db, w_fs = \<lparr>fs_cwd = [], fs_nodes = keys_of
     [([''v''], Dir), ([''v'', ''raw''], Dir), ([''v'', ''raw'', ''r1''], File (as_bytes (lit ''Oops'')))],
     fs_denied = (\<lambda>_. False)\<rparr>, w_now = 9, w_ids = 0, w_faults = faults\<rparr>"

definition demo_queue :: "bool list \<Rightarrow> world" where
  "demo_queue faults =
     (demo_dec_world faults)\<lparr>w_db := demo_dec_db\<lparr>db_jobs := [demo_job (lit ''j1'') (lit ''r1'')]\<rparr>\<rparr>"

lemma demo_jobs_ok: "jobs_ok (the_jobs (demo_queue faults))"
  by (simp add: demo_queue_def demo_job_def jobs_ok_def job_ok_def keyed_def MAX_ATTEMPTS_def)

theorem drain_terminates_witness:
  "\<exists>w'. drain demo_dec (demo_queue [True, False, True]) = Some w' \<and>
     list_all (\<lambda>j. jb_state j \<noteq> Pending) (the_jobs w')"
  by (rule drain_terminates [OF demo_jobs_ok])

lemma demo_enqueue: "decoder_step demo_dec (demo_dec_world []) (demo_queue [])"
proof -
  have "insert_job (demo_job (lit ''j1'') (lit ''r1'')) demo_dec_db =
      Some (demo_dec_db\<lparr>db_jobs := [demo_job (lit ''j1'') (lit ''r1'')]\<rparr>)" by code_simp
  then show ?thesis
    using decoder_step.enqueue [of "lit ''j1''" "lit ''r1''" "demo_dec_world []" _ demo_dec]
    by (simp add: demo_queue_def demo_job_def demo_dec_world_def del: lit_Cons)
qed

definition demo_crashed :: world where
  "demo_crashed = snd (claim_job (demo_queue []))"

lemma demo_crash: "decoder_step demo_dec (demo_queue []) demo_crashed"
proof -
  have "fst (claim_job (demo_queue [])) =
      Inr (Some \<lparr>jo_id = lit ''j1'', jo_report_id = lit ''r1'', jo_attempts = 1\<rparr>)" by code_simp
  from decoder_step.crash_claimed [OF fst_result [OF this]] show ?thesis by (simp add: demo_crashed_def)
qed

theorem job_lifecycle_witness:
  "list_all (\<lambda>j. jb_attempts j \<le> 3) (the_jobs demo_crashed) \<and> map jb_state (the_jobs demo_crashed) = [Running]"
proof -
  have r: "(decoder_step demo_dec)\<^sup>*\<^sup>* (demo_dec_world []) demo_crashed"
    using demo_enqueue demo_crash by (meson r_into_rtranclp rtranclp_trans)
  have e: "the_jobs (demo_dec_world []) = []" by (simp add: demo_dec_world_def demo_dec_db_def)
  have "map jb_state (the_jobs demo_crashed) = [Running]" by code_simp
  with job_lifecycle [OF r e] show ?thesis by (simp add: list_all_iff)
qed

theorem running_job_stuck_witness:
  "\<exists>j. jb_state j = Running \<and> j \<in> set (the_jobs (gc_failed_raw demo_config demo_crashed))"
proof -
  have js: "the_jobs demo_crashed = [(demo_job (lit ''j1'') (lit ''r1''))\<lparr>jb_state := Running, jb_attempts := 1\<rparr>]"
    by code_simp
  have ok: "jobs_ok (the_jobs demo_crashed)"
    unfolding js by (simp add: demo_job_def jobs_ok_def job_ok_def keyed_def MAX_ATTEMPTS_def)
  have run: "(decoder_step demo_dec)\<^sup>*\<^sup>* demo_crashed (gc_failed_raw demo_config demo_crashed)"
    using decoder_step.retention [of demo_dec demo_crashed] by (auto simp: demo_dec_def)
  have mem: "hd (the_jobs demo_crashed) \<in> set (the_jobs demo_crashed)"
    "jb_state (hd (the_jobs demo_crashed)) = Running" by (simp_all add: js)
  show ?thesis by (rule exI, rule conjI, rule mem(2), rule running_job_stuck [OF ok mem run])
qed

end
