(* ===== verification/Worker.thy ===== *)
theory Worker
  imports Decode_Queue
begin

text \<open>
  crates/ucrs-decoder/src/main.rs: the command line, the start, the hourly retention round and
  the main loop. Opening the database is a parameter; the two sleeps are what lies between two
  turns. The parameters that do not come from the configuration are those of \<open>decoder_env\<close>.
\<close>

subsection \<open>Start\<close>



subsection \<open>The hourly round\<close>

definition retention_round :: "'n decoder_env \<Rightarrow> world \<Rightarrow> world" where
  "retention_round e w =
     gc_failed_raw (de_cfg e)
       (w\<lparr>w_fs := gc (de_pool e) (retention_weeks (symbols (de_cfg e))) (w_now w) (w_fs w)\<rparr>)"

subsection \<open>The main loop\<close>

text \<open>One turn of the loop: go on at once, sleep for five seconds, or return.\<close>

datatype after_turn = Go_On | Sleep | Return

definition turn :: "'n decoder_env \<Rightarrow> bool \<Rightarrow> world \<Rightarrow> after_turn \<times> world" where
  "turn e once w =
     (case claim_job w of
        (Inr (Some job), w1) \<Rightarrow> (Go_On, process_job e job w1)
      | (Inr None, w1) \<Rightarrow> (if once then Return else Sleep, w1)
      | (Inl _, w1) \<Rightarrow> (Sleep, w1))"



text \<open>\<open>drain\<close> is the loop of such turns.\<close>

lemma drain_turns:
  "drain e w = (case turn e True w of (Return, w1) \<Rightarrow> Some w1 | (_, w1) \<Rightarrow> drain e w1)"
  by (subst drain.simps) (auto simp: turn_def split: prod.split sum.split option.split)

text \<open>The turns and the retention round are steps of the decoder as the invariants see it.\<close>

lemma retention_steps: "(decoder_step e)\<^sup>*\<^sup>* w (retention_round e w)"
  unfolding retention_round_def
  by (rule converse_rtranclp_into_rtranclp [of "decoder_step e", OF decoder_step.symbol_gc])
    (rule r_into_rtranclp [of "decoder_step e", OF decoder_step.retention])

lemma turn_jobs: "turn e b w = (Go_On, w') \<Longrightarrow> work_round e w = Some w'"
  by (auto simp: turn_def work_round_def split: prod.splits sum.splits option.splits if_splits)








end
