(* ===== verification/Pool_Frame.thy ===== *)
theory Pool_Frame
  imports Symbols
begin

text \<open>
  What \<open>ensure_kernel\<close> leaves alone: for a relative version and target it changes nothing
  outside the pool directory, except that missing directories above the pool appear. The
  frame is a relation on worlds; each file operation keeps it, and the frame rules of
  \<open>io_frame\<close> compose them. The laws of the external crates are stated here as predicates:
  unpacking stays below \<open>debug\<close>, and build-ids are hexadecimal.
\<close>

definition abs_key :: "ustr list \<Rightarrow> ustr \<Rightarrow> ustr list" where
  "abs_key cwd p = (if is_absolute p then components p else cwd @ components p)"

lemma path_key_abs: "fs_cwd fs = cwd \<Longrightarrow> path_key fs p = abs_key cwd p"
  by (simp add: path_key_def abs_key_def)

definition unpack_law :: "'n symbols_env \<Rightarrow> bool" where
  "unpack_law e \<longleftrightarrow> (\<forall>entry p dest fs fs'.
     sy_entry_path e entry = Inr p \<longrightarrow> starts_with_debug p \<longrightarrow> sy_unpack_in e entry dest fs = Some fs' \<longrightarrow>
     fs_cwd fs' = fs_cwd fs \<and> fs_denied fs' = fs_denied fs \<and>
     (\<forall>k. \<not> prefix (path_key fs dest @ [lit ''debug'']) k \<longrightarrow> node_at fs' k = node_at fs k))"

definition hex_ids :: "'n symbols_env \<Rightarrow> bool" where
  "hex_ids e \<longleftrightarrow> (\<forall>d obj i. sy_object e d = Some obj \<longrightarrow> of_build_id obj = Some i \<longrightarrow>
     list_all is_ascii_hexdigit i)"

text \<open>The frame around a directory \<open>root\<close> with a file \<open>s\<close> in it that is no link.\<close>

definition outside :: "ustr list \<Rightarrow> ustr list \<Rightarrow> ustr list \<Rightarrow> file_system \<Rightarrow> file_system \<Rightarrow> bool" where
  "outside cwd root s fs fs' \<longleftrightarrow>
     (fs_cwd fs = cwd \<and> plain_at fs s \<longrightarrow>
      fs_cwd fs' = cwd \<and> plain_at fs' s \<and> fs_denied fs' = fs_denied fs \<and>
      (\<forall>k. \<not> prefix root k \<longrightarrow> node_at fs' k = node_at fs k \<or>
         node_at fs k = None \<and> node_at fs' k = Some Dir \<and> prefix k root))"

definition outside_io :: "ustr list \<Rightarrow> ustr list \<Rightarrow> ustr list \<Rightarrow> world \<Rightarrow> world \<Rightarrow> bool" where
  "outside_io cwd root s w w' \<longleftrightarrow> outside cwd root s (w_fs w) (w_fs w')"

lemma outside_refl: "outside cwd root s fs fs"
  by (simp add: outside_def)

lemma outside_trans:
  assumes "outside cwd root s f g" "outside cwd root s g h"
  shows "outside cwd root s f h"
  unfolding outside_def
proof (intro impI conjI allI)
  assume c: "fs_cwd f = cwd \<and> plain_at f s"
  from c assms(1) have g: "fs_cwd g = cwd \<and> plain_at g s" by (simp add: outside_def)
  with assms(2) show "fs_cwd h = cwd" "plain_at h s" by (simp_all add: outside_def)
  from c g assms show "fs_denied h = fs_denied f" by (simp add: outside_def)
  fix k assume k: "\<not> prefix root k"
  have "node_at g k = node_at f k \<or> node_at f k = None \<and> node_at g k = Some Dir \<and> prefix k root"
    using assms(1) c k by (simp add: outside_def)
  moreover have "node_at h k = node_at g k \<or> node_at g k = None \<and> node_at h k = Some Dir \<and> prefix k root"
    using assms(2) g k by (simp add: outside_def)
  ultimately show "node_at h k = node_at f k \<or> node_at f k = None \<and> node_at h k = Some Dir \<and> prefix k root" by auto
qed

interpretation pool: io_frame "outside_io cwd root s" for cwd root s
  by unfold_locales (auto simp: outside_io_def outside_refl intro: outside_trans)

subsection \<open>The file operations\<close>

lemma outside_create:
  assumes c: "fs_create_dir_all fs p = Some fs'" and pr: "prefix root (abs_key cwd p)"
  shows "outside cwd root s fs fs'"
  unfolding outside_def
proof (intro impI)
  assume at: "fs_cwd fs = cwd \<and> plain_at fs s"
  from c have m: "make_dirs fs [] (path_key fs p) = Some fs'" by (simp add: fs_create_dir_all_def)
  note fr = make_dirs_frame [OF m]
  have "node_at fs k = None \<and> node_at fs' k = Some Dir \<and> prefix k root"
    if "\<not> prefix root k" "node_at fs' k \<noteq> node_at fs k" for k
  proof -
    from make_dirs_at [OF m that(2)] at have "prefix k (abs_key cwd p)" by (simp add: path_key_abs)
    with pr that(1) have "prefix k root" using prefix_same_cases by blast
    moreover have n: "node_at fs k = None" using fr that(2) by (cases "node_at fs k") auto
    moreover from fr n have "node_at fs' k \<in> {None, Some Dir}" by blast
    ultimately show ?thesis using that(2) by auto
  qed
  then show "fs_cwd fs' = cwd \<and> plain_at fs' s \<and> fs_denied fs' = fs_denied fs \<and>
      (\<forall>k. \<not> prefix root k \<longrightarrow> node_at fs' k = node_at fs k \<or>
         node_at fs k = None \<and> node_at fs' k = Some Dir \<and> prefix k root)"
    using fr at plain_at_make_dirs [OF m] by blast
qed

lemma outside_remove_dir:
  "fs_remove_dir_all fs p = Some fs' \<Longrightarrow> prefix root (abs_key cwd p) \<Longrightarrow> outside cwd root s fs fs'"
proof (unfold outside_def, intro impI)
  assume r: "fs_remove_dir_all fs p = Some fs'" and pr: "prefix root (abs_key cwd p)"
    and c: "fs_cwd fs = cwd \<and> plain_at fs s"
  from c have k: "path_key fs p = abs_key cwd p" by (simp add: path_key_abs)
  from r k have n: "node_at fs' k' = (if prefix (abs_key cwd p) k' then None else node_at fs k')" for k'
    by (auto simp: fs_remove_dir_all_def Let_def node_at_def map_of_filter_prefix split: if_splits)
  have "\<not> prefix root k' \<Longrightarrow> \<not> prefix (abs_key cwd p) k'" for k'
    using pr prefix_order.trans by blast
  moreover have "plain_at fs' s" using c n [of s] by (auto simp: plain_at_def)
  ultimately show "fs_cwd fs' = cwd \<and> plain_at fs' s \<and> fs_denied fs' = fs_denied fs \<and>
      (\<forall>k. \<not> prefix root k \<longrightarrow> node_at fs' k = node_at fs k \<or>
         node_at fs k = None \<and> node_at fs' k = Some Dir \<and> prefix k root)"
    using r c n by (auto simp: fs_remove_dir_all_def Let_def split: if_splits)
qed

lemma outside_remove_file:
  "fs_remove_file fs p = Some fs' \<Longrightarrow> prefix root (abs_key cwd p) \<Longrightarrow> outside cwd root s fs fs'"
proof (unfold outside_def, intro impI)
  assume r: "fs_remove_file fs p = Some fs'" and pr: "prefix root (abs_key cwd p)"
    and c: "fs_cwd fs = cwd \<and> plain_at fs s"
  from c have k: "path_key fs p = abs_key cwd p" by (simp add: path_key_abs)
  from r k have "fs' = drop_node fs (abs_key cwd p)"
    by (auto simp: fs_remove_file_def Let_def split: if_splits)
  with c pr show "fs_cwd fs' = cwd \<and> plain_at fs' s \<and> fs_denied fs' = fs_denied fs \<and>
      (\<forall>k. \<not> prefix root k \<longrightarrow> node_at fs' k = node_at fs k \<or>
         node_at fs k = None \<and> node_at fs' k = Some Dir \<and> prefix k root)"
    by (auto simp: plain_at_def)
qed

lemma outside_symlink:
  "fs_symlink fs t p = Some fs' \<Longrightarrow> prefix root (abs_key cwd p) \<Longrightarrow> abs_key cwd p \<noteq> s \<Longrightarrow> outside cwd root s fs fs'"
proof (unfold outside_def, intro impI)
  assume r: "fs_symlink fs t p = Some fs'" and pr: "prefix root (abs_key cwd p)" and ne: "abs_key cwd p \<noteq> s"
    and c: "fs_cwd fs = cwd \<and> plain_at fs s"
  from c have k: "path_key fs p = abs_key cwd p" by (simp add: path_key_abs)
  from r k have "fs' = set_node fs (abs_key cwd p) (Symlink t)"
    by (auto simp: fs_symlink_def Let_def split: if_splits)
  with c pr ne show "fs_cwd fs' = cwd \<and> plain_at fs' s \<and> fs_denied fs' = fs_denied fs \<and>
      (\<forall>k. \<not> prefix root k \<longrightarrow> node_at fs' k = node_at fs k \<or>
         node_at fs k = None \<and> node_at fs' k = Some Dir \<and> prefix k root)"
    by (auto simp: plain_at_def)
qed

lemma outside_write:
  "fs_write fs p d = Some fs' \<Longrightarrow> abs_key cwd p = s \<Longrightarrow> prefix root s \<Longrightarrow> outside cwd root s fs fs'"
proof (unfold outside_def, intro impI)
  assume r: "fs_write fs p d = Some fs'" and s: "abs_key cwd p = s" "prefix root s"
    and c: "fs_cwd fs = cwd \<and> plain_at fs s"
  from c s have k: "path_key fs p = s" by (simp add: path_key_abs)
  from r have "fs' = set_node fs s (File d)"
    using c by (simp add: fs_write_plain k Let_def split: if_splits)
  with c s show "fs_cwd fs' = cwd \<and> plain_at fs' s \<and> fs_denied fs' = fs_denied fs \<and>
      (\<forall>k. \<not> prefix root k \<longrightarrow> node_at fs' k = node_at fs k \<or>
         node_at fs k = None \<and> node_at fs' k = Some Dir \<and> prefix k root)"
    by (auto simp: plain_at_def)
qed

subsection \<open>The pool's operations\<close>

lemma outside_unpack:
  assumes law: "unpack_law e" and d: "prefix root (abs_key cwd dest)" "\<not> prefix (abs_key cwd dest @ [lit ''debug'']) s"
  shows "moves (outside_io cwd root s) (unpack_entries e dest rs)"
proof (induction rs)
  case (Cons r rs)
  have "outside_io cwd root s w (w\<lparr>w_fs := fs'\<rparr>)"
    if "sy_entry_path e entry = Inr p" "starts_with_debug p" "sy_unpack_in e entry dest (w_fs w) = Some fs'"
    for entry p w fs'
  proof (unfold outside_io_def outside_def, intro impI)
    assume c: "fs_cwd (w_fs w) = cwd \<and> plain_at (w_fs w) s"
    have "\<not> prefix root k \<Longrightarrow> \<not> prefix (abs_key cwd dest @ [lit ''debug'']) k" for k
      using d(1) by (meson prefixI prefix_order.trans)
    then show "fs_cwd (w_fs (w\<lparr>w_fs := fs'\<rparr>)) = cwd \<and> plain_at (w_fs (w\<lparr>w_fs := fs'\<rparr>)) s \<and>
      fs_denied (w_fs (w\<lparr>w_fs := fs'\<rparr>)) = fs_denied (w_fs w) \<and>
      (\<forall>k. \<not> prefix root k \<longrightarrow> node_at (w_fs (w\<lparr>w_fs := fs'\<rparr>)) k = node_at (w_fs w) k \<or>
         node_at (w_fs w) k = None \<and> node_at (w_fs (w\<lparr>w_fs := fs'\<rparr>)) k = Some Dir \<and> prefix k root)"
      using law that c d(2) unfolding unpack_law_def path_key_abs [OF conjunct1 [OF c]] plain_at_def
      by (auto simp: path_key_abs simp del: lit_Cons)
  qed
  then have u: "moves (outside_io cwd root s) (fs_do (sy_unpack_in e entry dest))"
    if "sy_entry_path e entry = Inr p" "starts_with_debug p" for entry p
    using that by (intro pool.moves_fs_do)
  show ?case
  proof (cases r)
    case (Inr entry)
    show ?thesis
    proof (cases "sy_entry_path e entry")
      case (Inr p)
      with \<open>r = Inr entry\<close> Cons u show ?thesis by auto
    qed (use \<open>r = Inr entry\<close> in auto)
  qed auto
qed auto

lemma outside_extract:
  assumes "unpack_law e" "prefix root (abs_key cwd dest)" "\<not> prefix (abs_key cwd dest @ [lit ''debug'']) s"
  shows "moves (outside_io cwd root s) (extract_tarball e data dest)"
proof -
  have "moves (outside_io cwd root s) (fs_do (\<lambda>fs. fs_create_dir_all fs dest))"
    by (rule pool.moves_fs_do) (auto simp: outside_io_def intro: outside_create [OF _ assms(2)])
  then show ?thesis unfolding extract_tarball_def
    by (intro pool.moves_bind moves_sum pool.moves_pure outside_unpack [OF assms])
qed

lemma abs_key_join:
  assumes "\<not> is_absolute q" "p \<noteq> []"
  shows "abs_key cwd (path_join p q) = abs_key cwd p @ components q"
  using assms by (simp add: abs_key_def is_absolute_join components_join)

lemma join_not_Nil [simp]: "p \<noteq> [] \<Longrightarrow> path_join p q \<noteq> []"
  by (auto simp: path_join_def is_absolute_def prefix_def)

definition index_link :: "ustr \<Rightarrow> ustr \<Rightarrow> ustr" where
  "index_link pool_root bid =
     path_join (path_join (path_join pool_root (lit ''.build-id'')) (take 2 bid)) (drop 2 bid @ lit ''.debug'')"

lemma index_link_key:
  assumes "list_all is_ascii_hexdigit bid" "4 \<le> str_len bid" "p \<noteq> []"
  shows "\<exists>a b. abs_key cwd (index_link p bid) = abs_key cwd p @ [lit ''.build-id'', a, b]
    \<and> abs_key cwd (path_join (path_join p (lit ''.build-id'')) (take 2 bid)) = abs_key cwd p @ [lit ''.build-id'', a]"
proof -
  have len: "4 \<le> length bid" using assms(1,2) by (simp add: str_len_hex)
  have no: "47 \<notin> set bid" "46 \<notin> set bid"
    using assms(1) by (auto simp: list_all_iff is_ascii_hexdigit_def is_ascii_digit_def)
  obtain x y z where bid: "bid = x # y # z" using len
    by (cases bid rule: list.exhaust) (auto simp: Suc_le_length_iff numeral_eq_Suc)
  have a: "plain_name (take 2 bid)"
    using no bid by (simp add: plain_name_def)
  have b: "plain_name (drop 2 bid @ lit ''.debug'')"
    using no bid by (cases z) (simp_all add: plain_name_def)
  have c: "plain_name (lit ''.build-id'')" by (simp add: plain_name_def)
  let ?r = "path_join p (lit ''.build-id'')" let ?q = "path_join ?r (take 2 bid)"
  have "abs_key cwd ?r = abs_key cwd p @ [lit ''.build-id'']"
    by (simp only: abs_key_join [OF plain_not_absolute [OF c] assms(3)] components_plain [OF c])
  moreover have "abs_key cwd ?q = abs_key cwd ?r @ [take 2 bid]"
    by (simp only: abs_key_join [OF plain_not_absolute [OF a] join_not_Nil [OF assms(3)]] components_plain [OF a])
  moreover have "abs_key cwd (path_join ?q (drop 2 bid @ lit ''.debug'')) = abs_key cwd ?q @ [drop 2 bid @ lit ''.debug'']"
    by (simp only: abs_key_join [OF plain_not_absolute [OF b] join_not_Nil [OF join_not_Nil [OF assms(3)]]] components_plain [OF b])
  ultimately show ?thesis by (simp only: index_link_def append_assoc append_Cons append_Nil) blast
qed

lemma outside_index:
  assumes ids: "hex_ids e" and root: "root \<noteq> []" and s: "\<not> prefix (abs_key cwd root @ [lit ''.build-id'']) s"
  shows "moves (outside_io cwd (abs_key cwd root) s) (index_files e root files)"
proof (induction files)
  case (Cons f0 files)
  let ?P = "outside_io cwd (abs_key cwd root) s"
  have "?P w (snd (index_files e root (f0 # files) w))" for w
  proof (cases "file_build_id e (w_fs w) f0")
    case None
    with Cons show ?thesis by (simp add: moves_def)
  next
    case (Some bid)
    then have hex: "list_all is_ascii_hexdigit bid"
      using ids by (auto simp: file_build_id_def hex_ids_def bind_eq_Some_conv)
    show ?thesis
    proof (cases "str_len bid < 4")
      case True
      with Cons Some show ?thesis by (simp add: moves_def)
    next
      case False
      let ?link = "index_link root bid"
      from index_link_key [OF hex _ root, of cwd] False obtain a b where
        k: "abs_key cwd ?link = abs_key cwd root @ [lit ''.build-id'', a, b]"
        and d: "prefix (abs_key cwd root) (abs_key cwd (path_join (path_join root (lit ''.build-id'')) (take 2 bid)))"
        by auto
      have kp: "prefix (abs_key cwd root) (abs_key cwd ?link)" "abs_key cwd ?link \<noteq> s"
        using k s by auto
      have sym: "moves ?P (fs_do (\<lambda>fs. fs_symlink fs t ?link))" for t
        using kp by (intro pool.moves_fs_do) (auto simp: outside_io_def intro: outside_symlink)
      have rem: "moves ?P (fs_do (\<lambda>fs. fs_remove_file fs ?link))"
        using kp by (intro pool.moves_fs_do) (auto simp: outside_io_def intro: outside_remove_file)
      have mk: "moves ?P (fs_do (\<lambda>fs. fs_create_dir_all fs (path_join (path_join root (lit ''.build-id'')) (take 2 bid))))"
        by (rule pool.moves_fs_do) (auto simp: outside_io_def intro: outside_create [OF _ d])
      let ?tail = "bindE (fs_get (\<lambda>fs. canonicalize fs f0)) (\<lambda>target.
          bindE (fs_do (\<lambda>fs. fs_symlink fs target ?link)) (\<lambda>_. index_files e root files))"
      have "moves ?P ?tail" by (intro pool.moves_bind pool.moves_fs_get sym Cons)
      then have "moves ?P (\<lambda>w1. ?tail (ignoring (fs_do (\<lambda>fs. fs_remove_file fs ?link)) w1))"
        using pool.ignoring_moves [OF rem] pool.P_trans unfolding moves_def by blast
      then have "moves ?P (bindE (fs_do (\<lambda>fs. fs_create_dir_all fs (path_join (path_join root (lit ''.build-id'')) (take 2 bid))))
          (\<lambda>_ w1. ?tail (ignoring (fs_do (\<lambda>fs. fs_remove_file fs ?link)) w1)))"
        by (intro pool.moves_bind mk)
      with Some False show ?thesis
        by (simp add: moves_def Let_def index_link_def del: lit_Cons)
    qed
  qed
  then show ?case unfolding moves_def ..
qed auto

lemma outside_finish:
  assumes "hex_ids e" "sp_dir pool \<noteq> []" "\<not> prefix (abs_key cwd (sp_dir pool) @ [lit ''.build-id'']) s"
    and "abs_key cwd stamp = s" "prefix (abs_key cwd (sp_dir pool)) s"
  shows "moves (outside_io cwd (abs_key cwd (sp_dir pool)) s) (finish_extract e pool dest stamp)"
proof -
  let ?P = "outside_io cwd (abs_key cwd (sp_dir pool)) s"
  have "moves ?P (index_build_ids e dest (sp_dir pool))"
    using outside_index [OF assms(1-3)] by (simp add: index_build_ids_def moves_def del: index_files.simps lit_Cons)
  moreover have "?P w (stamp_now stamp w)" for w
    unfolding stamp_now_def using assms(4,5)
    by (intro pool.ignoring_moves pool.moves_fs_do) (auto simp: outside_io_def intro: outside_write)
  ultimately have "?P w (stamp_now stamp (ignoring (index_build_ids e dest (sp_dir pool)) w))" for w
    using pool.ignoring_moves pool.P_trans by blast
  then show ?thesis by (auto simp: moves_def finish_extract_def bail_def pool.P_refl simp del: lit_Cons)
qed

lemma outside_fetch:
  assumes "unpack_law e" "hex_ids e" "sp_dir pool \<noteq> []" "\<not> prefix (abs_key cwd (sp_dir pool) @ [lit ''.build-id'']) s"
    and "abs_key cwd stamp = s" "prefix (abs_key cwd (sp_dir pool)) s"
    and "prefix (abs_key cwd (sp_dir pool)) (abs_key cwd dest)" "\<not> prefix (abs_key cwd dest @ [lit ''debug'']) s"
  shows "moves (outside_io cwd (abs_key cwd (sp_dir pool)) s) (fetch_kernel e pool url dest stamp)"
proof -
  let ?P = "outside_io cwd (abs_key cwd (sp_dir pool)) s"
  have "moves ?P (bindE (lift_result r) (\<lambda>tarball.
      if prefix (lit ''file://'') url
      then bindE (extract_tarball e tarball dest) (\<lambda>_. finish_extract e pool dest stamp)
      else bindE (lift_result (checksum_ok e url tarball)) (\<lambda>_.
        bindE (extract_tarball e tarball dest) (\<lambda>_. finish_extract e pool dest stamp))))" for r
    by (intro pool.moves_bind pool.moves_pure moves_if outside_extract [OF assms(1,7,8)]
        outside_finish [OF assms(2-6)])
  then show ?thesis by (simp add: moves_def fetch_kernel_def del: lit_Cons)
qed

lemma kernel_dest_key:
  assumes "\<not> is_absolute version" "\<not> is_absolute target" "sp_dir pool \<noteq> []"
  shows "abs_key cwd (kernel_dest pool version target) =
    abs_key cwd (sp_dir pool) @ [lit ''kernel''] @ components version @ components target"
  using assms unfolding kernel_dest_def
  by (simp add: abs_key_join plain_not_absolute del: lit_Cons)

lemma ensure_kernel_outside:
  assumes laws: "unpack_law e" "hex_ids e" and dir: "sp_dir pool \<noteq> []"
    and rel: "\<not> is_absolute version" "\<not> is_absolute target"
    and s_def: "s = abs_key cwd (kernel_dest pool version target) @ [lit ''last_used'']"
  shows "moves (outside_io cwd (abs_key cwd (sp_dir pool)) s) (ensure_kernel e pool version target expected)"
proof -
  let ?P = "outside_io cwd (abs_key cwd (sp_dir pool)) s"
  let ?dest = "kernel_dest pool version target" let ?stamp = "path_join ?dest (lit ''last_used'')"
  note key = kernel_dest_key [OF rel dir, of cwd]
  have ne: "?dest \<noteq> []" using dir by (simp add: kernel_dest_def)
  have st: "abs_key cwd ?stamp = s"
    using abs_key_join [OF plain_not_absolute [OF plain_last_used] ne, of cwd]
    by (simp add: s_def components_plain [OF plain_last_used] del: lit_Cons)
  have sr: "prefix (abs_key cwd (sp_dir pool)) s" "prefix (abs_key cwd (sp_dir pool)) (abs_key cwd ?dest)"
    by (simp_all add: s_def key del: lit_Cons)
  have nb: "\<not> prefix (abs_key cwd (sp_dir pool) @ [lit ''.build-id'']) s"
    "\<not> prefix (abs_key cwd ?dest @ [lit ''debug'']) s"
    by (simp_all add: s_def key)
  have fetch: "moves ?P (fetch_kernel e pool url ?dest ?stamp)" for url
    by (rule outside_fetch [OF laws dir nb(1) st sr nb(2)])
  have "moves ?P (fs_do (\<lambda>fs. fs_remove_dir_all fs ?dest))"
    using sr(2) by (intro pool.moves_fs_do) (auto simp: outside_io_def intro: outside_remove_dir)
  then have refetch: "?P w (snd (fetch_kernel e pool url ?dest ?stamp (ignoring (fs_do (\<lambda>fs. fs_remove_dir_all fs ?dest)) w)))"
    for w url using fetch [of url] pool.ignoring_moves pool.P_trans unfolding moves_def by blast
  have stamp: "?P w (stamp_now ?stamp w)" for w
    unfolding stamp_now_def using st sr(1)
    by (intro pool.ignoring_moves pool.moves_fs_do) (auto simp: outside_io_def intro: outside_write)
  show ?thesis unfolding moves_def
    using fetch refetch stamp
    by (auto simp: ensure_kernel_def Let_def bail_def pool.P_refl moves_def simp del: lit_Cons)
qed

end
