(* ===== verification/Http.thy ===== *)
theory Http
  imports Database
begin

text \<open>
  Requests and responses as the handlers of crates/ucrs-server see them. Headers and cookies
  are lookups (a header that is not printable ASCII counts as absent, as with \<open>to_str().ok()\<close>);
  JSON bodies and template contexts are values of \<open>json\<close>; a page is its template and context.
\<close>

datatype json = JNull | JInt int | JStr ustr | JList "json list" | JObj "(ustr \<times> json) list"

type_synonym headers = "ustr \<Rightarrow> ustr option"
type_synonym fields = "(ustr \<times> json) list"

datatype response =
  Json_Body nat json
| Text_Body nat ustr
| Redirect_To ustr
| Status nat
| Html ustr fields
| Octets "byte list"
| Set_Cookie ustr ustr response
| Remove_Cookie ustr response

abbreviation "OK \<equiv> 200 :: nat"
abbreviation "BAD_REQUEST \<equiv> 400 :: nat"
abbreviation "UNAUTHORIZED \<equiv> 401 :: nat"
abbreviation "NOT_FOUND \<equiv> 404 :: nat"
abbreviation "INTERNAL_SERVER_ERROR \<equiv> 500 :: nat"

definition jopt :: "('a \<Rightarrow> json) \<Rightarrow> 'a option \<Rightarrow> json" where
  "jopt f v = (case v of None \<Rightarrow> JNull | Some x \<Rightarrow> f x)"

text \<open>The status a response carries; redirects are 303.\<close>

fun status_of :: "response \<Rightarrow> nat" where
  "status_of (Json_Body s b) = s"
| "status_of (Text_Body s b) = s"
| "status_of (Redirect_To u) = 303"
| "status_of (Status s) = s"
| "status_of (Html t c) = OK"
| "status_of (Octets b) = OK"
| "status_of (Set_Cookie n v r) = status_of r"
| "status_of (Remove_Cookie n r) = status_of r"

end
