(* ===== verification/Token_Store.thy ===== *)
theory Token_Store
  imports Database
begin

text \<open>
  The contract of the two token tables, \<open>device_token\<close> and \<open>dev_session\<close>: a key is issued for
  an owner with an expiry time, looked up at a time, purged by the hourly cleanup of the
  server's main.rs, and, for sessions, revoked by the logout of auth.rs. What follows from the
  contract for any history of a store is proved once in the locales; both tables interpret it.
\<close>

datatype ('k, 'v) token_op = Issue 'k 'v int | Purge int

locale token_store =
  fixes issue :: "'k \<Rightarrow> 'v \<Rightarrow> int \<Rightarrow> 's \<Rightarrow> 's option"
    and valid :: "'k \<Rightarrow> int \<Rightarrow> 's \<Rightarrow> 'v option"
    and purge :: "int \<Rightarrow> 's \<Rightarrow> 's"
    and present :: "'k \<Rightarrow> 's \<Rightarrow> bool"
  assumes issue_fresh: "issue k v e s = Some s' \<Longrightarrow> \<not> present k s"
    and issue_present: "issue k v e s = Some s' \<Longrightarrow> present k' s' \<longleftrightarrow> k' = k \<or> present k' s"
    and issue_valid: "issue k v e s = Some s' \<Longrightarrow> valid k now s' = (if now < e then Some v else None)"
    and issue_other: "issue k v e s = Some s' \<Longrightarrow> k' \<noteq> k \<Longrightarrow> valid k' now s' = valid k' now s"
    and purge_valid: "t \<le> now \<Longrightarrow> valid k now (purge t s) = valid k now s"
    and absent_invalid: "\<not> present k s \<Longrightarrow> valid k now s = None"
begin

text \<open>A failed issue leaves the store as it is.\<close>

fun run_op :: "'s \<Rightarrow> ('k, 'v) token_op \<Rightarrow> 's" where
  "run_op s (Issue k v e) = (case issue k v e s of None \<Rightarrow> s | Some s' \<Rightarrow> s')"
| "run_op s (Purge t) = purge t s"

text \<open>Operations that do not concern a key up to a time.\<close>

fun harmless :: "'k \<Rightarrow> int \<Rightarrow> ('k, 'v) token_op \<Rightarrow> bool" where
  "harmless k now (Issue k' v e) = (k' \<noteq> k)"
| "harmless k now (Purge t) = (t \<le> now)"

lemma run_harmless:
  "list_all (harmless k now) ops \<Longrightarrow> valid k now (foldl run_op s ops) = valid k now s"
proof (induction ops arbitrary: s)
  case (Cons op ops)
  have "valid k now (run_op s op) = valid k now s"
    using Cons.prems by (cases op) (auto simp: purge_valid issue_other split: option.splits)
  with Cons show ?case by simp
qed simp

lemma issued_until_expiry:
  assumes "issue k v e s = Some s'" "list_all (harmless k now) ops"
  shows "valid k now (foldl run_op s' ops) = (if now < e then Some v else None)"
  using run_harmless [OF assms(2)] issue_valid [OF assms(1)] by simp

lemma never_issued:
  assumes "\<not> present k s" "list_all (harmless k now) ops"
  shows "valid k now (foldl run_op s ops) = None"
  using run_harmless [OF assms(2)] absent_invalid [OF assms(1)] by simp

end

locale revocable_store = token_store issue valid purge present
  for issue :: "'k \<Rightarrow> 'v \<Rightarrow> int \<Rightarrow> 's \<Rightarrow> 's option"
    and valid :: "'k \<Rightarrow> int \<Rightarrow> 's \<Rightarrow> 'v option"
    and purge :: "int \<Rightarrow> 's \<Rightarrow> 's"
    and present :: "'k \<Rightarrow> 's \<Rightarrow> bool" +
  fixes revoke :: "'k \<Rightarrow> 's \<Rightarrow> 's"
  assumes revoke_present: "present k' (revoke k s) \<longleftrightarrow> k' \<noteq> k \<and> present k' s"
    and revoke_other: "k' \<noteq> k \<Longrightarrow> valid k' now (revoke k s) = valid k' now s"
begin

lemma revoked_for_good:
  assumes "list_all (harmless k now) ops"
  shows "valid k now (foldl run_op (revoke k s) ops) = None"
  by (rule never_issued [OF _ assms]) (simp add: revoke_present)

end

subsection \<open>The statements on the two tables\<close>

definition select_token :: "ustr \<Rightarrow> int \<Rightarrow> database \<Rightarrow> ustr option" where
  "select_token h now db =
     map_option tk_device_id
       (List.find (\<lambda>r. tk_hash r = h \<and> now < tk_expires r) (db_tokens db))"

definition delete_tokens :: "int \<Rightarrow> database \<Rightarrow> database" where
  "delete_tokens now db = db\<lparr>db_tokens := delete_where (\<lambda>r. tk_expires r < now) (db_tokens db)\<rparr>"

definition select_session :: "ustr \<Rightarrow> int \<Rightarrow> database \<Rightarrow> user_row option" where
  "select_session h now db =
     (case List.find (\<lambda>r. ss_hash r = h \<and> now < ss_expires r) (db_sessions db) of
        None \<Rightarrow> None
      | Some s \<Rightarrow> lookup_by us_id (ss_user_id s) (db_users db))"

definition delete_sessions :: "int \<Rightarrow> database \<Rightarrow> database" where
  "delete_sessions now db =
     db\<lparr>db_sessions := delete_where (\<lambda>r. ss_expires r < now) (db_sessions db)\<rparr>"

definition delete_session :: "ustr \<Rightarrow> database \<Rightarrow> database" where
  "delete_session h db = db\<lparr>db_sessions := delete_where (\<lambda>r. ss_hash r = h) (db_sessions db)\<rparr>"

definition issue_token :: "ustr \<Rightarrow> ustr \<Rightarrow> int \<Rightarrow> database \<Rightarrow> database option" where
  "issue_token h dev e = insert_token \<lparr>tk_hash = h, tk_device_id = dev, tk_expires = e\<rparr>"

definition issue_session :: "ustr \<Rightarrow> ustr \<Rightarrow> int \<Rightarrow> database \<Rightarrow> database option" where
  "issue_session h user e = insert_session \<lparr>ss_hash = h, ss_user_id = user, ss_expires = e\<rparr>"

subsection \<open>Both tables keep the contract\<close>

lemma find_append:
  "List.find P (xs @ ys) = (case List.find P xs of None \<Rightarrow> List.find P ys | Some x \<Rightarrow> Some x)"
  by (induction xs) auto

lemma find_absent: "lookup_by key k t = None \<Longrightarrow> List.find (\<lambda>r. key r = k \<and> Q r) t = None"
  by (auto simp: lookup_by_None find_None_iff)

lemma find_purged:
  "t \<le> (now :: int) \<Longrightarrow>
     List.find (\<lambda>r. key r = k \<and> now < ex r) (delete_where (\<lambda>r. ex r < t) xs) =
     List.find (\<lambda>r. key r = k \<and> now < ex r) xs"
  by (induction xs) (auto simp: delete_where_def)

lemma find_deleted_other:
  "k' \<noteq> k \<Longrightarrow> List.find (\<lambda>r. key r = k' \<and> Q r) (delete_where (\<lambda>r. key r = k) xs) =
     List.find (\<lambda>r. key r = k' \<and> Q r) xs"
  by (induction xs) (auto simp: delete_where_def)

lemma references_delete:
  "references key k' (delete_where (\<lambda>r. key r = k) t) \<longleftrightarrow> k' \<noteq> k \<and> references key k' t"
  by (auto simp: references_def lookup_by_None)

lemma references_append [simp]:
  "references key k (t @ [r]) \<longleftrightarrow> key r = k \<or> references key k t"
  by (auto simp: references_def lookup_by_None)

lemma references_find:
  "references key k t \<Longrightarrow> \<exists>r. lookup_by key k t = Some r \<and> key r = k"
  by (auto simp: references_def dest: lookup_by_SomeD)

interpretation device_tokens: token_store issue_token select_token delete_tokens
  "\<lambda>h db. references tk_hash h (db_tokens db)"
proof
  fix k v e s s' k' now
  assume i: "issue_token k v e s = Some s'"
  then have s': "s' = s\<lparr>db_tokens := db_tokens s @ [\<lparr>tk_hash = k, tk_device_id = v, tk_expires = e\<rparr>]\<rparr>"
    and fresh: "\<not> references tk_hash k (db_tokens s)"
    by (auto simp: issue_token_def insert_token_def split: if_splits)
  show "\<not> references tk_hash k (db_tokens s)" by (rule fresh)
  show "references tk_hash k' (db_tokens s') \<longleftrightarrow> k' = k \<or> references tk_hash k' (db_tokens s)"
    by (auto simp: s')
  show "select_token k now s' = (if now < e then Some v else None)"
    using fresh by (simp add: s' select_token_def find_append references_def find_absent)
  show "select_token k' now s' = select_token k' now s" if "k' \<noteq> k"
    using that by (auto simp: s' select_token_def find_append split: option.splits)
next
  fix t now :: int and k and s :: database assume "t \<le> now"
  then show "select_token k now (delete_tokens t s) = select_token k now s"
    by (simp add: select_token_def delete_tokens_def find_purged)
next
  fix k and s :: database and now :: int assume "\<not> references tk_hash k (db_tokens s)"
  then show "select_token k now s = None"
    by (simp add: select_token_def references_def find_absent)
qed

interpretation dev_sessions: revocable_store issue_session
  "\<lambda>h now db. map_option us_id (select_session h now db)" delete_sessions
  "\<lambda>h db. references ss_hash h (db_sessions db)" delete_session
proof
  fix k v e s s' k' now
  assume i: "issue_session k v e s = Some s'"
  then have s': "s' = s\<lparr>db_sessions := db_sessions s @ [\<lparr>ss_hash = k, ss_user_id = v, ss_expires = e\<rparr>]\<rparr>"
    and fresh: "\<not> references ss_hash k (db_sessions s)" and user: "references us_id v (db_users s)"
    by (auto simp: issue_session_def insert_session_def split: if_splits)
  show "\<not> references ss_hash k (db_sessions s)" by (rule fresh)
  show "references ss_hash k' (db_sessions s') \<longleftrightarrow> k' = k \<or> references ss_hash k' (db_sessions s)"
    by (auto simp: s')
  show "map_option us_id (select_session k now s') = (if now < e then Some v else None)"
    using fresh references_find [OF user]
    by (auto simp: s' select_session_def find_append references_def find_absent)
  show "map_option us_id (select_session k' now s') = map_option us_id (select_session k' now s)"
    if "k' \<noteq> k"
    using that by (auto simp: s' select_session_def find_append split: option.splits)
next
  fix t now :: int and k and s :: database assume "t \<le> now"
  then show "map_option us_id (select_session k now (delete_sessions t s)) =
      map_option us_id (select_session k now s)"
    by (simp add: select_session_def delete_sessions_def find_purged split: option.split)
next
  fix k and s :: database and now :: int assume "\<not> references ss_hash k (db_sessions s)"
  then show "map_option us_id (select_session k now s) = None"
    by (simp add: select_session_def references_def find_absent)
next
  fix k k' :: ustr and s :: database
  show "references ss_hash k' (db_sessions (delete_session k s)) \<longleftrightarrow>
      k' \<noteq> k \<and> references ss_hash k' (db_sessions s)"
    by (simp add: delete_session_def references_delete)
next
  fix k k' :: ustr and s :: database and now :: int assume "k' \<noteq> k"
  then show "map_option us_id (select_session k' now (delete_session k s)) =
      map_option us_id (select_session k' now s)"
    by (simp add: select_session_def delete_session_def find_deleted_other split: option.split)
qed

end
