(* ===== verification/Auth.thy ===== *)
theory Auth
  imports Http Token_Store Utf8
begin

text \<open>
  crates/ucrs-server/src/auth.rs: developer accounts, session cookies and the bearer tokens of
  devices. Parameters: the random ids and secrets (numbered draws), SHA-256 with hex, and
  argon2 with the parser of its hashes.
\<close>

record auth_env =
  au_id_at :: "nat \<Rightarrow> ustr"
  au_secret_at :: "nat \<Rightarrow> ustr"
  au_sha_hex :: "byte list \<Rightarrow> ustr"
  au_salt :: "nat \<Rightarrow> ustr + ustr"
  au_hash :: "ustr \<Rightarrow> ustr \<Rightarrow> ustr + ustr"
  au_parse_hash :: "ustr \<Rightarrow> ustr option"
  au_verify :: "ustr \<Rightarrow> ustr \<Rightarrow> bool"

definition SESSION_COOKIE :: ustr where
  "SESSION_COOKIE = lit ''ucrs_session''"

definition SESSION_TTL_SECS :: int where
  "SESSION_TTL_SECS = 7 * 24 * 3600"

definition new_secret :: "'a auth_env_scheme \<Rightarrow> ('e, ustr) io" where
  "new_secret e = draw (au_secret_at e)"

definition token_hash :: "'a auth_env_scheme \<Rightarrow> ustr \<Rightarrow> ustr" where
  "token_hash e token = au_sha_hex e (as_bytes token)"

definition prefix_text :: "ustr \<Rightarrow> ustr + 'a \<Rightarrow> anyhow + 'a" where
  "prefix_text m r = (case r of Inl t \<Rightarrow> Inl [Text (m @ t)] | Inr x \<Rightarrow> Inr x)"

definition hash_password :: "'a auth_env_scheme \<Rightarrow> ustr \<Rightarrow> (anyhow, ustr) io" where
  "hash_password e password =
     bindE (draw (au_salt e)) (\<lambda>s.
     bindE (lift_result (prefix_text (lit ''salt: '') s)) (\<lambda>salt.
     lift_result (prefix_text (lit ''hashing password: '') (au_hash e password salt))))"

definition verify_password :: "'a auth_env_scheme \<Rightarrow> ustr \<Rightarrow> ustr \<Rightarrow> bool" where
  "verify_password e password hash =
     (case au_parse_hash e hash of None \<Rightarrow> False | Some h \<Rightarrow> au_verify e password h)"

definition create_user :: "'a auth_env_scheme \<Rightarrow> ustr \<Rightarrow> (anyhow, ustr) io" where
  "create_user e login_name =
     bindE (new_secret e) (\<lambda>secret.
     let password = take 20 secret in
     bindE (hash_password e password) (\<lambda>hash.
     bindE (draw (au_id_at e)) (\<lambda>id.
     bindE (exec (insert_user \<lparr>us_id = id, us_login = login_name, us_pw_hash = hash,
         us_role = lit ''dev''\<rparr>)) (\<lambda>_.
     ret password))))"

definition login :: "'a auth_env_scheme \<Rightarrow> ustr \<Rightarrow> ustr \<Rightarrow> (anyhow, ustr option) io" where
  "login e login_name password =
     bindE (select (\<lambda>db. lookup_by us_login login_name (db_users db))) (\<lambda>row.
     case row of
       None \<Rightarrow> ret None
     | Some user \<Rightarrow>
         if \<not> verify_password e password (us_pw_hash user) then ret None
         else
           bindE (new_secret e) (\<lambda>token.
           bindE get_now (\<lambda>now.
           bindE (exec (issue_session (token_hash e token) (us_id user) (now + SESSION_TTL_SECS))) (\<lambda>_.
           ret (Some token)))))"

definition logout :: "'a auth_env_scheme \<Rightarrow> ustr \<Rightarrow> world \<Rightarrow> world" where
  "logout e token = ignoring (update_db (delete_session (token_hash e token)))"

text \<open>The extractor \<open>Dev\<close>: the authenticated developer, or the response that rejects.\<close>

record dev =
  dev_user_id :: ustr
  dev_login :: ustr

definition from_request_parts :: "'a auth_env_scheme \<Rightarrow> headers \<Rightarrow> (response, dev) io" where
  "from_request_parts e cookies =
     (case cookies SESSION_COOKIE of
        None \<Rightarrow> throw (Redirect_To (lit ''/login''))
      | Some cookie \<Rightarrow>
          bindE get_now (\<lambda>now.
          bindE (map_err (\<lambda>_. Status INTERNAL_SERVER_ERROR)
              (select (select_session (token_hash e cookie) now))) (\<lambda>row.
          case row of
            Some r \<Rightarrow> ret \<lparr>dev_user_id = us_id r, dev_login = us_login r\<rparr>
          | None \<Rightarrow> throw (Redirect_To (lit ''/login'')))))"

definition device_from_bearer :: "'a auth_env_scheme \<Rightarrow> headers \<Rightarrow> world \<Rightarrow> ustr option \<times> world" where
  "device_from_bearer e headers w =
     (case Option.bind (headers (lit ''authorization'')) (strip_prefix (lit ''Bearer '')) of
        None \<Rightarrow> (None, w)
      | Some token \<Rightarrow>
          (case select (select_token (token_hash e token) (w_now w)) w of
             (Inl _, w') \<Rightarrow> (None, w')
           | (Inr row, w') \<Rightarrow> (row, w')))"

text \<open>The hourly cleanup of main.rs.\<close>

definition cleanup :: "world \<Rightarrow> world" where
  "cleanup w = ignoring (update_db (delete_tokens (w_now w)))
     (ignoring (update_db (delete_sessions (w_now w))) w)"

subsection \<open>Sessions\<close>

lemma strip_prefix_Some: "strip_prefix p s = Some t \<longleftrightarrow> s = p @ t"
  by (auto simp: strip_prefix_def elim: prefixE)

lemma strip_prefix_self [simp]: "strip_prefix p (p @ t) = Some t"
  by (simp add: strip_prefix_Some)

lemma login_session:
  assumes "login e l pw w = (Inr (Some tok), w')"
  obtains user where "lookup_by us_login l (db_users (w_db w)) = Some user"
    and "verify_password e pw (us_pw_hash user)" and "tok = au_secret_at e (w_ids w)"
    and "issue_session (token_hash e tok) (us_id user) (w_now w + SESSION_TTL_SECS) (w_db w) = Some (w_db w')"
    and "w_now w' = w_now w" and "w_fs w' = w_fs w"
  using assms unfolding login_def new_secret_def
  by (auto simp: io_inv io_basic split: option.splits if_splits)

lemma dev_accepted:
  "from_request_parts e cookies w = (Inr d, w') \<longleftrightarrow>
     (\<exists>c u. cookies SESSION_COOKIE = Some c \<and> \<not> (w_faults w \<noteq> [] \<and> hd (w_faults w))
        \<and> select_session (token_hash e c) (w_now w) (w_db w) = Some u
        \<and> d = \<lparr>dev_user_id = us_id u, dev_login = us_login u\<rparr>
        \<and> w' = w\<lparr>w_faults := tl (w_faults w)\<rparr>)"
  unfolding from_request_parts_def
  by (auto simp: io_inv io_basic split: option.splits)

lemma bearer_world:
  "w_db (snd (device_from_bearer e h w)) = w_db w \<and> w_fs (snd (device_from_bearer e h w)) = w_fs w
     \<and> w_now (snd (device_from_bearer e h w)) = w_now w \<and> w_ids (snd (device_from_bearer e h w)) = w_ids w"
  by (auto simp: device_from_bearer_def select_def query_def split: option.splits)

lemma select_token_sessions [simp]:
  "select_token h now (delete_sessions t db) = select_token h now db"
  by (simp add: select_token_def delete_sessions_def)

lemma select_session_tokens [simp]:
  "select_session h now (delete_tokens t db) = select_session h now db"
  by (simp add: select_session_def delete_tokens_def split: option.split)

text \<open>The session table under logins and cleanups, as the contract of the store sees them.\<close>

fun session_op :: "database \<Rightarrow> (ustr, ustr) token_op \<Rightarrow> database" where
  "session_op db (Issue h user e) = (case issue_session h user e db of None \<Rightarrow> db | Some db' \<Rightarrow> db')"
| "session_op db (Purge t) = delete_sessions t db"

fun session_op_harmless :: "ustr \<Rightarrow> int \<Rightarrow> (ustr, ustr) token_op \<Rightarrow> bool" where
  "session_op_harmless h now (Issue h' user e) = (h' \<noteq> h)"
| "session_op_harmless h now (Purge t) = (t \<le> now)"

lemma session_op_eq:
  "session_op db op = dev_sessions.run_op db op"
  "session_op_harmless h now op = dev_sessions.harmless h now op"
  by (cases op; simp)+

lemma session_ops_eq:
  "foldl session_op db ops = foldl dev_sessions.run_op db ops"
  "list_all (session_op_harmless h now) ops = list_all (dev_sessions.harmless h now) ops"
  by (auto simp: session_op_eq list_all_iff intro: foldl_cong_state)

lemma dev_iff_session:
  assumes "w_faults v = []" "cookies SESSION_COOKIE = Some tok"
  shows "(\<exists>d v'. from_request_parts e cookies v = (Inr d, v') \<and> dev_user_id d = uid) \<longleftrightarrow>
    map_option us_id (select_session (token_hash e tok) (w_now v) (w_db v)) = Some uid"
  using assms by (auto simp: dev_accepted)

text \<open>C30. The life of a developer session: a login that hands out a token has checked the
  password of the account; whatever logins and cleanups happen later, requests with that token
  are accepted as that user until exactly seven days after the login; and once it is logged
  out, it is never accepted again.\<close>

theorem session_lifecycle:
  assumes "login e l pw w = (Inr (Some tok), w')" and "w_faults v = []"
    and "list_all (session_op_harmless (token_hash e tok) (w_now v)) ops"
    and "cookies SESSION_COOKIE = Some tok"
  shows "\<exists>user. lookup_by us_login l (db_users (w_db w)) = Some user
    \<and> verify_password e pw (us_pw_hash user)
    \<and> (w_db v = foldl session_op (w_db w') ops \<longrightarrow>
        (\<exists>d v'. from_request_parts e cookies v = (Inr d, v') \<and> dev_user_id d = us_id user)
          = (w_now v < w_now w + 604800))
    \<and> (w_db v = foldl session_op (delete_session (token_hash e tok) (w_db w')) ops \<longrightarrow>
        (\<forall>d v'. from_request_parts e cookies v \<noteq> (Inr d, v')))"
proof -
  from login_session [OF assms(1)] obtain user where
    u: "lookup_by us_login l (db_users (w_db w)) = Some user" "verify_password e pw (us_pw_hash user)"
    and i: "issue_session (token_hash e tok) (us_id user) (w_now w + SESSION_TTL_SECS) (w_db w) = Some (w_db w')"
    by metis
  note h = assms(3) [unfolded session_ops_eq]
  have sel: "(\<exists>d v'. from_request_parts e cookies v = (Inr d, v') \<and> dev_user_id d = uid) \<longleftrightarrow>
      map_option us_id (select_session (token_hash e tok) (w_now v) (w_db v)) = Some uid" for uid
    by (rule dev_iff_session) (fact assms)+
  have "(\<exists>d v'. from_request_parts e cookies v = (Inr d, v') \<and> dev_user_id d = us_id user)
      = (w_now v < w_now w + 604800)" if "w_db v = foldl session_op (w_db w') ops"
    unfolding sel that session_ops_eq
    by (subst dev_sessions.issued_until_expiry [OF i h]) (simp add: SESSION_TTL_SECS_def)
  moreover have "from_request_parts e cookies v \<noteq> (Inr d, v')"
    if "w_db v = foldl session_op (delete_session (token_hash e tok) (w_db w')) ops" for d v'
    using dev_sessions.revoked_for_good [OF h, of "w_db w'"] that sel [of "dev_user_id d"]
    by (auto simp: session_ops_eq)
  ultimately show ?thesis using u by blast
qed


subsection \<open>A demo instance\<close>

text \<open>Parameters for the witnesses: numbered ids and secrets, and an injective \<open>sha\<close>.\<close>

definition demo_id :: "nat \<Rightarrow> ustr" where
  "demo_id n = replicate n 97 @ lit ''id''"

definition demo_secret :: "nat \<Rightarrow> ustr" where
  "demo_secret n = replicate 64 (97 + int n)"

definition demo_auth :: auth_env where
  "demo_auth = \<lparr>au_id_at = demo_id, au_secret_at = demo_secret, au_sha_hex = map uint,
     au_salt = (\<lambda>n. Inr [int n]), au_hash = (\<lambda>pw s. Inr (pw @ [36] @ s)),
     au_parse_hash = Some, au_verify = (\<lambda>pw h. prefix (pw @ [36]) h)\<rparr>"

definition empty_db :: database where
  "empty_db = \<lparr>db_devices = [], db_groups = [], db_reports = [], db_users = [], db_tokens = [],
     db_sessions = [], db_jobs = []\<rparr>"

definition demo_world :: world where
  "demo_world = \<lparr>w_db = empty_db, w_fs = \<lparr>fs_cwd = [], fs_nodes = [], fs_denied = (\<lambda>_. False)\<rparr>,
     w_now = 1000, w_ids = 0, w_faults = []\<rparr>"

definition demo_users :: world where
  "demo_users = snd (create_user demo_auth (lit ''hauke'') demo_world)"

definition demo_login :: world where
  "demo_login = snd (login demo_auth (lit ''hauke'') (replicate 20 97) demo_users)"

theorem session_lifecycle_witness:
  "\<exists>d v'. from_request_parts demo_auth (\<lambda>_. Some (demo_secret 3))
     (demo_login\<lparr>w_now := 605000\<rparr>) = (Inr d, v') \<and> dev_user_id d = demo_id 2"
proof -
  have l: "login demo_auth (lit ''hauke'') (replicate 20 97) demo_users = (Inr (Some (demo_secret 3)), demo_login)"
  proof (rule prod_eqI)
    show "fst (login demo_auth (lit ''hauke'') (replicate 20 97) demo_users) = fst (Inr (Some (demo_secret 3)), demo_login)"
      unfolding fst_conv by code_simp
  qed (simp add: demo_login_def)
  have u: "map_option us_id (lookup_by us_login (lit ''hauke'') (db_users (w_db demo_users))) = Some (demo_id 2)"
    by code_simp
  have w: "w_now demo_users = 1000" "w_faults demo_login = []" by code_simp+
  from session_lifecycle [OF l, of "demo_login\<lparr>w_now := 605000\<rparr>" "[]" "\<lambda>_. Some (demo_secret 3)"] u
  show ?thesis by (auto simp: w)
qed

end
