(* ===== verification/Ingest.thy ===== *)
theory Ingest
  imports Auth Usign Report_Types Config
begin

text \<open>
  crates/ucrs-server/src/api.rs, first part: the upload of reports. Parameters are the
  multipart and JSON parsers, base64 and Ed25519 (\<open>usign_env\<close>), SHA-256 with hex, the UUID
  parser, Unicode lower case and the printing of dates. Log lines are left out.
\<close>

subsection \<open>Parameters and errors\<close>

text \<open>A field of a multipart body: its name, and what reading it as text or as bytes gives.\<close>

record mp_field =
  mf_name :: "ustr option"
  mf_text :: "ustr option"
  mf_bytes :: "byte list option"

record 'k server_env = auth_env +
  sv_cfg :: config
  sv_usign :: "'k usign_env"
  sv_b64 :: "byte list \<Rightarrow> ustr"
  sv_boundary :: "ustr \<Rightarrow> ustr option"
  sv_fields :: "byte list \<Rightarrow> ustr \<Rightarrow> (unit + mp_field) list"
  sv_json :: "ustr \<Rightarrow> ustr + report_metadata"
  sv_lowercase :: "ustr \<Rightarrow> ustr"
  sv_is_uuid :: "ustr \<Rightarrow> bool"
  sv_uuid_bytes :: "nat \<Rightarrow> byte list"
  sv_fmt_ts :: "int \<Rightarrow> ustr option"

datatype api_error = Api_Error nat ustr

definition api_response :: "api_error \<Rightarrow> response" where
  "api_response err = (case err of Api_Error status msg \<Rightarrow>
     Json_Body status (JObj [(lit ''error'', JStr msg)]))"

definition internal_error :: "anyhow \<Rightarrow> api_error" where
  "internal_error e = Api_Error INTERNAL_SERVER_ERROR (lit ''internal error'')"

definition bad :: "ustr \<Rightarrow> api_error" where
  "bad msg = Api_Error BAD_REQUEST msg"

definition new_id :: "'k server_env \<Rightarrow> ('e, ustr) io" where
  "new_id e = draw (au_id_at e)"

definition healthz :: response where
  "healthz = Text_Body OK (lit ''ok'')"

text \<open>The operator \<open>?\<close> on an error that becomes \<open>internal error\<close>, and on an option.\<close>

abbreviation internal :: "(anyhow, 'a) io \<Rightarrow> (api_error, 'a) io" where
  "internal m \<equiv> map_err internal_error m"

definition ok_or :: "'e \<Rightarrow> 'a option \<Rightarrow> 'e + 'a" where
  "ok_or err v = (case v of None \<Rightarrow> Inl err | Some x \<Rightarrow> Inr x)"

definition on_error :: "'f \<Rightarrow> 'e + 'a \<Rightarrow> 'f + 'a" where
  "on_error err r = (case r of Inl _ \<Rightarrow> Inl err | Inr x \<Rightarrow> Inr x)"

lemma ok_or_Inr [simp]: "ok_or err v = Inr x \<longleftrightarrow> v = Some x"
  by (simp add: ok_or_def split: option.split)

lemma on_error_Inr [simp]: "on_error err r = Inr x \<longleftrightarrow> r = Inr x"
  by (simp add: on_error_def split: sum.split)

subsection \<open>Authentication\<close>

definition sig_failed :: api_error where
  "sig_failed = Api_Error UNAUTHORIZED (lit ''signature verification failed'')"

definition authenticate_device ::
  "'k server_env \<Rightarrow> headers \<Rightarrow> byte list \<Rightarrow> (api_error, ustr option) io" where
  "authenticate_device e headers body =
     (case headers (lit ''x-ucr-pubkey'') of
        None \<Rightarrow> ret None
      | Some pubkey_b64 \<Rightarrow>
          (case headers (lit ''x-ucr-signature'') of
             None \<Rightarrow> throw (Api_Error UNAUTHORIZED (lit ''pubkey without signature''))
           | Some sig_b64 \<Rightarrow>
               bindE (lift_result (on_error (bad (lit ''invalid pubkey''))
                 (from_base64 (sv_usign e) pubkey_b64))) (\<lambda>key.
               bindE (lift_result (on_error sig_failed (verify (sv_usign e) key sig_b64 body))) (\<lambda>_.
               bindE get_now (\<lambda>ts.
               bindE (new_id e) (\<lambda>i.
               bindE (internal (query (upsert_device
                 \<lparr>dv_id = i, dv_pubkey = pubkey_b64, dv_first_seen = ts, dv_last_seen = ts\<rparr>))) (\<lambda>d.
               ret (Some d))))))))"

subsection \<open>The form\<close>

text \<open>The loop over the fields; a later field of a name replaces an earlier one.\<close>

fun collect_fields ::
  "(unit + mp_field) list \<Rightarrow> ustr option \<Rightarrow> byte list option \<Rightarrow>
     api_error + (ustr option \<times> byte list option)" where
  "collect_fields [] metadata payload = Inr (metadata, payload)"
| "collect_fields (Inl _ # fs) metadata payload = Inl (bad (lit ''invalid multipart body''))"
| "collect_fields (Inr field # fs) metadata payload =
     (if mf_name field = Some (lit ''metadata'') then
        (case mf_text field of
           None \<Rightarrow> Inl (bad (lit ''invalid metadata''))
         | Some t \<Rightarrow>
             if str_len t > MAX_METADATA_SIZE then Inl (bad (lit ''metadata too large''))
             else collect_fields fs (Some t) payload)
      else if mf_name field = Some (lit ''payload'') then
        (case mf_bytes field of
           None \<Rightarrow> Inl (bad (lit ''invalid payload''))
         | Some data \<Rightarrow>
             if length data > MAX_PAYLOAD_SIZE then Inl (bad (lit ''payload too large''))
             else collect_fields fs metadata (Some data))
      else collect_fields fs metadata payload)"

text \<open>For evaluation: the limits compared as integers.\<close>

lemma collect_fields_code [code]:
  "collect_fields [] metadata payload = Inr (metadata, payload)"
  "collect_fields (Inl u # fs) metadata payload = Inl (bad (lit ''invalid multipart body''))"
  "collect_fields (Inr field # fs) metadata payload =
     (if mf_name field = Some (lit ''metadata'') then
        (case mf_text field of
           None \<Rightarrow> Inl (bad (lit ''invalid metadata''))
         | Some t \<Rightarrow>
             if int (str_len t) > 4096 then Inl (bad (lit ''metadata too large''))
             else collect_fields fs (Some t) payload)
      else if mf_name field = Some (lit ''payload'') then
        (case mf_bytes field of
           None \<Rightarrow> Inl (bad (lit ''invalid payload''))
         | Some data \<Rightarrow>
             if int (length data) > 262144 then Inl (bad (lit ''payload too large''))
             else collect_fields fs metadata (Some data))
      else collect_fields fs metadata payload)"
  by (simp_all add: MAX_METADATA_SIZE_def MAX_PAYLOAD_SIZE_def split: option.split)

definition parse_multipart ::
  "'k server_env \<Rightarrow> headers \<Rightarrow> byte list \<Rightarrow> api_error + (report_metadata \<times> byte list)" where
  "parse_multipart e headers body =
     and_then (ok_or (bad (lit ''missing content-type'')) (headers (lit ''content-type''))) (\<lambda>ct.
     and_then (ok_or (bad (lit ''invalid content-type'')) (sv_boundary e ct)) (\<lambda>boundary.
     and_then (collect_fields (sv_fields e body boundary) None None) (\<lambda>(metadata, payload).
     and_then (ok_or (bad (lit ''missing metadata field'')) metadata) (\<lambda>metadata.
     and_then (ok_or (bad (lit ''missing payload field'')) payload) (\<lambda>payload.
     (case sv_json e metadata of
        Inl msg \<Rightarrow> Inl (bad (lit ''invalid metadata: '' @ msg))
      | Inr meta \<Rightarrow> Inr (meta, payload)))))))"

subsection \<open>The upload\<close>

definition respond_created :: "config \<Rightarrow> ustr \<Rightarrow> response" where
  "respond_created cfg report_id =
     Json_Body OK (JObj [(lit ''report_id'', JStr report_id),
       (lit ''view_url'', JStr (base_url cfg @ lit ''/reports/'' @ report_id))])"

definition new_report :: "'k server_env \<Rightarrow> ustr \<Rightarrow> ustr option \<Rightarrow> int \<Rightarrow> report_metadata \<Rightarrow> report_row" where
  "new_report e rid device ts meta =
     \<lparr>rp_id = rid, rp_device_id = device, rp_kind = report_kind_as_str (md_kind meta),
      rp_received_at = ts, rp_captured_at = md_captured_at meta,
      rp_version = ow_version (md_openwrt meta), rp_revision = ow_revision (md_openwrt meta),
      rp_target = ow_target (md_openwrt meta), rp_arch = ow_arch (md_openwrt meta),
      rp_board_name = md_board meta, rp_kernel = md_kernel meta,
      rp_payload_encoding = payload_encoding_as_str (md_payload_encoding meta),
      rp_state = Received, rp_visibility = Private, rp_group_id = None, rp_publish_slug = None,
      rp_raw_deleted_at = None,
      rp_kernel_buildid = map_option (sv_lowercase e) (md_kernel_buildid meta)\<rparr>"

definition new_job :: "ustr \<Rightarrow> ustr \<Rightarrow> job_row" where
  "new_job jid rid = \<lparr>jb_id = jid, jb_report_id = rid, jb_state = Pending, jb_attempts = 0,
     jb_last_error = None\<rparr>"

text \<open>From the file to the job: the second half of \<open>post_report\<close>.\<close>

definition store_report ::
  "'k server_env \<Rightarrow> ustr \<Rightarrow> ustr option \<Rightarrow> report_metadata \<Rightarrow> byte list \<Rightarrow> (api_error, response) io" where
  "store_report e report_id device_id meta payload =
     bindE (internal (fs_do (\<lambda>fs. fs_create_dir_all fs (raw_dir (sv_cfg e))))) (\<lambda>_.
     bindE (internal (fs_do (\<lambda>fs. fs_write fs (path_join (raw_dir (sv_cfg e)) report_id) payload))) (\<lambda>_.
     bindE get_now (\<lambda>ts.
     bindE (internal (exec (insert_report (new_report e report_id device_id ts meta)))) (\<lambda>_.
     bindE (new_id e) (\<lambda>jid.
     bindE (internal (exec (insert_job (new_job jid report_id)))) (\<lambda>_.
     ret (respond_created (sv_cfg e) report_id)))))))"

definition post_report :: "'k server_env \<Rightarrow> headers \<Rightarrow> byte list \<Rightarrow> (api_error, response) io" where
  "post_report e headers body =
     bindE (authenticate_device e headers body) (\<lambda>device_id.
     bindE (lift_result (parse_multipart e headers body)) (\<lambda>(meta, payload).
     if md_format meta \<noteq> FORMAT_VERSION then throw (bad (lit ''unsupported format''))
     else if au_sha_hex e payload \<noteq> sv_lowercase e (md_payload_sha256 meta)
     then throw (bad (lit ''payload_sha256 mismatch''))
     else if \<not> sv_is_uuid e (md_uuid meta) then throw (bad (lit ''invalid uuid''))
     else
       bindE (internal (select (\<lambda>db. map_option rp_device_id (lookup_by rp_id (md_uuid meta) (db_reports db)))))
         (\<lambda>row. case row of
            Some existing_dev \<Rightarrow>
              if existing_dev \<noteq> None \<and> existing_dev = device_id
              then ret (respond_created (sv_cfg e) (md_uuid meta))
              else bindE (new_id e) (\<lambda>report_id. store_report e report_id device_id meta payload)
          | None \<Rightarrow> store_report e (md_uuid meta) device_id meta payload)))"

end
