(* ===== verification/Nonces.thy ===== *)
theory Nonces
  imports Rust_Str
begin

text \<open>
  The pending login challenges of crates/ucrs-server/src/api.rs, \<open>AppState::nonces\<close>: a map
  from public keys to a nonce and the instant it was made. The contract the login handlers
  rely on is a locale: a challenge is answered at most once, within its time, and challenges of
  different keys do not interfere.
\<close>

subsection \<open>The contract\<close>

datatype ('k, 'n) nonce_op = Put 'k 'n int | Take 'k int

fun op_key :: "('k, 'n) nonce_op \<Rightarrow> 'k" where
  "op_key (Put k n t) = k"
| "op_key (Take k t) = k"

fun op_time :: "('k, 'n) nonce_op \<Rightarrow> int" where
  "op_time (Put k n t) = t"
| "op_time (Take k t) = t"

fun is_put :: "('k, 'n) nonce_op \<Rightarrow> bool" where
  "is_put (Put k n t) = True"
| "is_put (Take k t) = False"

locale challenge_store =
  fixes ttl :: int
    and empty :: 's
    and put :: "'k \<Rightarrow> 'n \<Rightarrow> int \<Rightarrow> 's \<Rightarrow> 's"
    and pick :: "'k \<Rightarrow> int \<Rightarrow> 's \<Rightarrow> 'n option \<times> 's"
  assumes pick_empty: "fst (pick k t empty) = None"
    and pick_put: "t \<le> t' \<Longrightarrow> fst (pick k t' (put k n t s)) = (if t' - t < ttl then Some n else None)"
    and pick_put_other: "k' \<noteq> k \<Longrightarrow> t \<le> t' \<Longrightarrow> fst (pick k' t' (put k n t s)) = fst (pick k' t' s)"
    and pick_picked: "fst (pick k t' (snd (pick k t s))) = None"
    and pick_picked_other: "k' \<noteq> k \<Longrightarrow> fst (pick k' t' (snd (pick k t s))) = fst (pick k' t' s)"
begin

fun run_op :: "'s \<Rightarrow> ('k, 'n) nonce_op \<Rightarrow> 's" where
  "run_op s (Put k n t) = put k n t s"
| "run_op s (Take k t) = snd (pick k t s)"

text \<open>What the key finds after an operation.\<close>

lemma pick_run_op:
  assumes "op_time op \<le> t" "\<not> (is_put op \<and> op_key op = k)"
  shows "fst (pick k t (run_op s op)) = (if op_key op = k then None else fst (pick k t s))"
  using assms by (cases op) (auto simp: pick_picked pick_picked_other pick_put_other)

lemma none_stays:
  assumes "list_all (\<lambda>op. op_time op \<le> t \<and> \<not> (is_put op \<and> op_key op = k)) ops"
    and "fst (pick k t s) = None"
  shows "fst (pick k t (foldl run_op s ops)) = None"
  using assms by (induction ops arbitrary: s) (simp_all add: pick_run_op)

lemma single_use:
  assumes "list_all (\<lambda>op. op_time op \<le> t \<and> \<not> (is_put op \<and> op_key op = k)) ops"
  shows "fst (pick k t (foldl run_op (snd (pick k t0 s)) ops)) = None"
  by (rule none_stays [OF assms pick_picked])

lemma picked_was_put:
  assumes "fst (pick k t (foldl run_op empty ops)) = Some n" "list_all (\<lambda>op. op_time op \<le> t) ops"
  shows "\<exists>older t0 later. ops = older @ Put k n t0 # later \<and> t - t0 < ttl
    \<and> list_all (\<lambda>op. op_key op \<noteq> k) later"
  using assms
proof (induction ops rule: rev_induct)
  case Nil
  then show ?case by (simp add: pick_empty)
next
  case (snoc op ops)
  show ?case
  proof (cases "op_key op = k")
    case True
    show ?thesis
    proof (cases op)
      case (Put k' n' t')
      with True snoc.prems have "n' = n" "t - t' < ttl" by (simp_all add: pick_put split: if_splits)
      with True Put have "ops @ [op] = ops @ Put k n t' # [] \<and> t - t' < ttl
        \<and> list_all (\<lambda>op. op_key op \<noteq> k) []" by simp
      then show ?thesis by blast
    next
      case (Take k' t')
      with True snoc.prems show ?thesis by (simp add: pick_picked)
    qed
  next
    case False
    with snoc.prems have "fst (pick k t (foldl run_op empty ops)) = Some n"
      by (simp add: pick_run_op)
    with snoc obtain older t0 later where "ops = older @ Put k n t0 # later" "t - t0 < ttl"
      "list_all (\<lambda>op. op_key op \<noteq> k) later" by auto
    with False have "ops @ [op] = older @ Put k n t0 # (later @ [op]) \<and> t - t0 < ttl
      \<and> list_all (\<lambda>op. op_key op \<noteq> k) (later @ [op])" by simp
    then show ?thesis by blast
  qed
qed

end

subsection \<open>The map of the server\<close>

text \<open>Instants count nanoseconds of the monotonic clock; \<open>elapsed\<close> is never negative.\<close>

type_synonym nonce_map = "ustr \<rightharpoonup> byte list \<times> int"

definition NONCE_TTL :: int where
  "NONCE_TTL = 60 * 1000000000"

definition elapsed :: "int \<Rightarrow> int \<Rightarrow> int" where
  "elapsed made now = max 0 (now - made)"

definition retain_nonces :: "int \<Rightarrow> ('k \<rightharpoonup> 'n \<times> int) \<Rightarrow> ('k \<rightharpoonup> 'n \<times> int)" where
  "retain_nonces now m = (\<lambda>k. case m k of
     Some (n, made) \<Rightarrow> if elapsed made now < NONCE_TTL then Some (n, made) else None
   | None \<Rightarrow> None)"

definition insert_nonce :: "'k \<Rightarrow> 'n \<Rightarrow> int \<Rightarrow> ('k \<rightharpoonup> 'n \<times> int) \<Rightarrow> ('k \<rightharpoonup> 'n \<times> int)" where
  "insert_nonce k n now m = (retain_nonces now m)(k \<mapsto> (n, now))"

definition remove_nonce :: "'k \<Rightarrow> int \<Rightarrow> ('k \<rightharpoonup> 'n \<times> int) \<Rightarrow> 'n option \<times> ('k \<rightharpoonup> 'n \<times> int)" where
  "remove_nonce k now m =
     ((case m k of
         Some (n, made) \<Rightarrow> if elapsed made now < NONCE_TTL then Some n else None
       | None \<Rightarrow> None),
      m(k := None))"

interpretation nonces: challenge_store NONCE_TTL Map.empty insert_nonce remove_nonce
proof
  fix k k' :: 'k and t t' :: int and n :: 'n and s :: "'k \<rightharpoonup> 'n \<times> int"
  show "fst (remove_nonce k t (Map.empty :: 'k \<rightharpoonup> 'n \<times> int)) = None"
    by (simp add: remove_nonce_def)
  show "fst (remove_nonce k t' (snd (remove_nonce k t s))) = None"
    by (simp add: remove_nonce_def)
  show "fst (remove_nonce k' t' (snd (remove_nonce k t s))) = fst (remove_nonce k' t' s)" if "k' \<noteq> k"
    using that by (simp add: remove_nonce_def)
  assume t: "t \<le> t'"
  show "fst (remove_nonce k t' (insert_nonce k n t s)) = (if t' - t < NONCE_TTL then Some n else None)"
    using t by (simp add: remove_nonce_def insert_nonce_def elapsed_def)
  show "fst (remove_nonce k' t' (insert_nonce k n t s)) = fst (remove_nonce k' t' s)" if "k' \<noteq> k"
    using t that
    by (auto simp: remove_nonce_def insert_nonce_def retain_nonces_def elapsed_def split: option.split)
qed

end
