(* ===== verification/Device_Api.thy ===== *)
theory Device_Api
  imports Ingest Nonces Buildid
begin

text \<open>
  crates/ucrs-server/src/api.rs, second part: the challenge-response login of devices, the
  reports of a device, publishing, and the debuginfod endpoint. The clock of the nonces is
  monotonic and apart from the clock of the database; both are arguments.
\<close>

definition TOKEN_TTL_SECS :: int where
  "TOKEN_TTL_SECS = 3600"

subsection \<open>Login of a device\<close>

definition select_device :: "ustr \<Rightarrow> database \<Rightarrow> ustr option" where
  "select_device pubkey db = map_option dv_id (lookup_by dv_pubkey pubkey (db_devices db))"

text \<open>Two random UUIDs make a nonce.\<close>

definition device_challenge ::
  "'k server_env \<Rightarrow> ustr \<Rightarrow> int \<Rightarrow> nonce_map \<Rightarrow> world \<Rightarrow> ((api_error + json) \<times> nonce_map) \<times> world" where
  "device_challenge e pubkey now nonces w =
     (case from_base64 (sv_usign e) pubkey of
        Inl _ \<Rightarrow> ((Inl (bad (lit ''invalid pubkey'')), nonces), w)
      | Inr _ \<Rightarrow>
          (case internal (select (select_device pubkey)) w of
             (Inl err, w1) \<Rightarrow> ((Inl err, nonces), w1)
           | (Inr None, w1) \<Rightarrow> ((Inl (Api_Error NOT_FOUND (lit ''unknown device'')), nonces), w1)
           | (Inr (Some _), w1) \<Rightarrow>
               let nonce = sv_uuid_bytes e (w_ids w1) @ sv_uuid_bytes e (Suc (w_ids w1)) in
               ((Inr (JObj [(lit ''nonce'', JStr (sv_b64 e nonce)),
                            (lit ''expires_in'', JInt (NONCE_TTL div 1000000000))]),
                 insert_nonce pubkey nonce now nonces), w1\<lparr>w_ids := w_ids w1 + 2\<rparr>)))"

text \<open>What follows the nonce: the signature, the device and its token.\<close>

definition answer_challenge ::
  "'k server_env \<Rightarrow> 'k public_key \<Rightarrow> ustr \<Rightarrow> ustr \<Rightarrow> byte list \<Rightarrow> (api_error, json) io" where
  "answer_challenge e key pubkey signature nonce =
     bindE (lift_result (on_error sig_failed (verify (sv_usign e) key signature nonce))) (\<lambda>_.
     bindE (internal (select (select_device pubkey))) (\<lambda>row.
     bindE (lift_result (ok_or (Api_Error NOT_FOUND (lit ''unknown device'')) row)) (\<lambda>device_id.
     bindE (new_secret e) (\<lambda>token.
     bindE get_now (\<lambda>ts.
     bindE (internal (exec (issue_token (token_hash e token) device_id (ts + TOKEN_TTL_SECS)))) (\<lambda>_.
     ret (JObj [(lit ''token'', JStr token), (lit ''expires_in'', JInt TOKEN_TTL_SECS)])))))))"

definition device_login ::
  "'k server_env \<Rightarrow> ustr \<Rightarrow> ustr \<Rightarrow> int \<Rightarrow> nonce_map \<Rightarrow> world \<Rightarrow> ((api_error + json) \<times> nonce_map) \<times> world" where
  "device_login e pubkey signature now nonces w =
     (case from_base64 (sv_usign e) pubkey of
        Inl _ \<Rightarrow> ((Inl (bad (lit ''invalid pubkey'')), nonces), w)
      | Inr key \<Rightarrow>
          (case remove_nonce pubkey now nonces of
             (None, nonces') \<Rightarrow> ((Inl (Api_Error UNAUTHORIZED (lit ''no valid challenge'')), nonces'), w)
           | (Some nonce, nonces') \<Rightarrow>
               (case answer_challenge e key pubkey signature nonce w of
                  (r, w') \<Rightarrow> ((r, nonces'), w'))))"

subsection \<open>The reports of a device\<close>

definition require_device :: "'k server_env \<Rightarrow> headers \<Rightarrow> (api_error, ustr) io" where
  "require_device e headers w =
     (case device_from_bearer e headers w of
        (d, w') \<Rightarrow> (ok_or (Api_Error UNAUTHORIZED (lit ''missing or invalid token'')) d, w'))"

fun report_state_text :: "report_state \<Rightarrow> ustr" where
  "report_state_text Received = lit ''received''"
| "report_state_text Decoded = lit ''decoded''"
| "report_state_text Report_Failed = lit ''failed''"

fun visibility_text :: "visibility \<Rightarrow> ustr" where
  "visibility_text Private = lit ''private''"
| "visibility_text Public = lit ''public''"

definition own_reports :: "ustr \<Rightarrow> database \<Rightarrow> report_row list" where
  "own_reports device_id db =
     sort_key (\<lambda>r. Desc (rp_received_at r)) (filter (\<lambda>r. rp_device_id r = Some device_id) (db_reports db))"

definition report_summary :: "report_row \<Rightarrow> fields" where
  "report_summary r =
     [(lit ''report_id'', JStr (rp_id r)), (lit ''kind'', JStr (rp_kind r)),
      (lit ''received_at'', JInt (rp_received_at r)), (lit ''version'', JStr (rp_version r)),
      (lit ''target'', JStr (rp_target r)), (lit ''state'', JStr (report_state_text (rp_state r))),
      (lit ''visibility'', JStr (visibility_text (rp_visibility r)))]"

definition my_reports :: "'k server_env \<Rightarrow> headers \<Rightarrow> (api_error, json) io" where
  "my_reports e headers =
     bindE (require_device e headers) (\<lambda>device_id.
     bindE (internal (select (own_reports device_id))) (\<lambda>rows.
     ret (JObj [(lit ''reports'', JList (map (\<lambda>r. JObj (report_summary r)) rows))])))"

text \<open>The two updates; a slug that another report has breaks the constraint.\<close>

definition set_public :: "ustr \<Rightarrow> ustr \<Rightarrow> database \<Rightarrow> database option" where
  "set_public slug rid db =
     (if references rp_id rid (db_reports db)
         \<and> (\<exists>r\<in>set (db_reports db). rp_id r \<noteq> rid \<and> rp_publish_slug r = Some slug) then None
      else Some (db\<lparr>db_reports := update_where (\<lambda>r. rp_id r = rid)
        (\<lambda>r. r\<lparr>rp_visibility := Public, rp_publish_slug := Some slug\<rparr>) (db_reports db)\<rparr>))"

definition set_private :: "ustr \<Rightarrow> database \<Rightarrow> database" where
  "set_private rid db =
     db\<lparr>db_reports := update_where (\<lambda>r. rp_id r = rid)
       (\<lambda>r. r\<lparr>rp_visibility := Private, rp_publish_slug := None\<rparr>) (db_reports db)\<rparr>"

definition set_visibility ::
  "'a auth_env_scheme \<Rightarrow> ustr \<Rightarrow> bool \<Rightarrow> (anyhow, ustr option option) io" where
  "set_visibility e report_id public =
     bindE (select (\<lambda>db. map_option rp_publish_slug (lookup_by rp_id report_id (db_reports db)))) (\<lambda>row.
     case row of
       None \<Rightarrow> ret None
     | Some publish_slug \<Rightarrow>
         if public then
           bindE (case publish_slug of Some s \<Rightarrow> ret s
             | None \<Rightarrow> bindE (new_secret e) (\<lambda>s. ret (take 16 s))) (\<lambda>slug.
           bindE (exec (set_public slug report_id)) (\<lambda>_.
           ret (Some (Some slug))))
         else
           bindE (update_db (set_private report_id)) (\<lambda>_. ret (Some None)))"

definition no_such_report :: api_error where
  "no_such_report = Api_Error NOT_FOUND (lit ''no such report'')"

definition owned_report :: "'k server_env \<Rightarrow> headers \<Rightarrow> ustr \<Rightarrow> (api_error, report_row) io" where
  "owned_report e headers report_id =
     bindE (require_device e headers) (\<lambda>device_id.
     bindE (internal (select (\<lambda>db. List.find (\<lambda>r. rp_id r = report_id \<and> rp_device_id r = Some device_id)
       (db_reports db)))) (\<lambda>row.
     lift_result (ok_or no_such_report row)))"

definition my_report_detail :: "'k server_env \<Rightarrow> headers \<Rightarrow> ustr \<Rightarrow> (api_error, json) io" where
  "my_report_detail e headers report_id =
     bindE (owned_report e headers report_id) (\<lambda>r w.
     (Inr (JObj
       [(lit ''report_id'', JStr (rp_id r)), (lit ''kind'', JStr (rp_kind r)),
        (lit ''received_at'', JInt (rp_received_at r)), (lit ''version'', JStr (rp_version r)),
        (lit ''target'', JStr (rp_target r)), (lit ''kernel'', JStr (rp_kernel r)),
        (lit ''state'', JStr (report_state_text (rp_state r))),
        (lit ''visibility'', JStr (visibility_text (rp_visibility r))),
        (lit ''decoded'', jopt JStr (read_to_string (w_fs w) (path_join (decoded_dir (sv_cfg e)) report_id)))]), w))"

definition my_set_visibility :: "'k server_env \<Rightarrow> headers \<Rightarrow> ustr \<Rightarrow> bool \<Rightarrow> (api_error, json) io" where
  "my_set_visibility e headers report_id public =
     bindE (owned_report e headers report_id) (\<lambda>_.
     bindE (internal (set_visibility e report_id public)) (\<lambda>r.
     bindE (lift_result (ok_or no_such_report r)) (\<lambda>slug.
     ret (JObj
       [(lit ''visibility'', JStr (if public then lit ''public'' else lit ''private'')),
        (lit ''public_url'', jopt (\<lambda>s. JStr (base_url (sv_cfg e) @ lit ''/r/'' @ s)) slug)]))))"

definition my_publish :: "'k server_env \<Rightarrow> headers \<Rightarrow> ustr \<Rightarrow> (api_error, json) io" where
  "my_publish e headers report_id = my_set_visibility e headers report_id True"

definition my_unpublish :: "'k server_env \<Rightarrow> headers \<Rightarrow> ustr \<Rightarrow> (api_error, json) io" where
  "my_unpublish e headers report_id = my_set_visibility e headers report_id False"

subsection \<open>Debug files\<close>

text \<open>\<open>File::open\<close> and the bytes the stream yields; a directory opens too, and the stream
  breaks off before the first byte.\<close>

definition open_stream :: "file_system \<Rightarrow> ustr \<Rightarrow> byte list option" where
  "open_stream fs p =
     (case follow MAX_LINKS fs (path_key fs p) of
        None \<Rightarrow> None
      | Some k \<Rightarrow> (case node_at fs k of Some (File d) \<Rightarrow> Some d | _ \<Rightarrow> Some []))"

definition debuginfod_debuginfo :: "'k server_env \<Rightarrow> ustr \<Rightarrow> file_system \<Rightarrow> response" where
  "debuginfod_debuginfo e buildid fs =
     (case resolve fs (symbols_dir (sv_cfg e)) buildid of
        None \<Rightarrow> Text_Body NOT_FOUND (lit ''unknown build-id'')
      | Some p \<Rightarrow>
          (case open_stream fs p of
             Some data \<Rightarrow> Octets data
           | None \<Rightarrow> Text_Body NOT_FOUND (lit ''unknown build-id'')))"

definition debuginfod_executable :: response where
  "debuginfod_executable = Text_Body NOT_FOUND (lit ''only debuginfo available'')"

end
