(* ===== verification/Dashboard.thy ===== *)
theory Dashboard
  imports Device_Api Decimal
begin

text \<open>
  crates/ucrs-server/src/web.rs, and \<open>groups_json\<close> of api.rs: the pages for developers, the
  public page of a published report, login and logout. A page is the name of its template with
  its context; rendering a template cannot fail here (the templates are compiled in). Queries
  of several tables are list expressions over them.
\<close>

definition fmt_ts :: "'k server_env \<Rightarrow> int \<Rightarrow> ustr" where
  "fmt_ts e ts = (case sv_fmt_ts e ts of Some t \<Rightarrow> t | None \<Rightarrow> decimal_int ts)"

definition db_err :: "anyhow \<Rightarrow> response" where
  "db_err err = Status INTERNAL_SERVER_ERROR"

abbreviation page :: "string \<Rightarrow> fields \<Rightarrow> response" where
  "page t ctx \<equiv> Html (lit t) ctx"

definition text_or_empty :: "ustr option \<Rightarrow> json" where
  "text_or_empty v = JStr (case v of None \<Rightarrow> [] | Some t \<Rightarrow> t)"

definition index :: response where
  "index = Redirect_To (lit ''/groups'')"

text \<open>The developer pages run under the extractor: its rejection is the response.\<close>

definition respond :: "(response, response) io \<Rightarrow> world \<Rightarrow> response \<times> world" where
  "respond m w = (case m w of (Inl r, w') \<Rightarrow> (r, w') | (Inr r, w') \<Rightarrow> (r, w'))"

subsection \<open>Login and logout\<close>

definition login_form :: "'k server_env \<Rightarrow> ustr \<Rightarrow> response" where
  "login_form e err = page ''login.html''
     [(lit ''instance'', JStr (instance_name (sv_cfg e))), (lit ''error'', JStr err)]"

definition login_page :: "'k server_env \<Rightarrow> response" where
  "login_page e = login_form e []"

definition login_post :: "'k server_env \<Rightarrow> ustr \<Rightarrow> ustr \<Rightarrow> world \<Rightarrow> response \<times> world" where
  "login_post e login_name password w =
     (case login e login_name password w of
        (Inr (Some token), w') \<Rightarrow> (Set_Cookie SESSION_COOKIE token (Redirect_To (lit ''/groups'')), w')
      | (Inr None, w') \<Rightarrow> (login_form e (lit ''Invalid login or password.''), w')
      | (Inl _, w') \<Rightarrow> (Status INTERNAL_SERVER_ERROR, w'))"

definition logout_post :: "'k server_env \<Rightarrow> headers \<Rightarrow> world \<Rightarrow> response \<times> world" where
  "logout_post e cookies w =
     (Remove_Cookie SESSION_COOKIE (Redirect_To (lit ''/login'')),
      case cookies SESSION_COOKIE of Some cookie \<Rightarrow> logout e cookie w | None \<Rightarrow> w)"

subsection \<open>Top crashers\<close>

record groups_query =
  gq_window :: "ustr option"
  gq_kind :: "ustr option"
  gq_version :: "ustr option"
  gq_target :: "ustr option"

definition window_cutoff :: "int \<Rightarrow> ustr \<Rightarrow> int" where
  "window_cutoff now window =
     (if window = lit ''all'' then 0
      else now - (if window = lit ''24h'' then 24 * 3600
                  else if window = lit ''30d'' then 30 * 24 * 3600
                  else 7 * 24 * 3600))"

text \<open>A row of the result: the group and the three aggregates over its reports.\<close>

record group_count =
  gc_group :: group_row
  gc_cnt :: int
  gc_devices :: int
  gc_last :: int

definition group_matches :: "int \<Rightarrow> ustr \<Rightarrow> ustr \<Rightarrow> ustr \<Rightarrow> group_row \<Rightarrow> report_row \<Rightarrow> bool" where
  "group_matches cutoff kind version target g r \<longleftrightarrow>
     rp_group_id r = Some (cg_id g) \<and> cutoff \<le> rp_received_at r
     \<and> (kind = [] \<or> cg_kind g = kind) \<and> (version = [] \<or> rp_version r = version)
     \<and> (target = [] \<or> rp_target r = target)"

definition count_distinct :: "'a option list \<Rightarrow> int" where
  "count_distinct xs = int (length (remdups (List.map_filter (\<lambda>x. x) xs)))"

definition group_aggregate :: "group_row \<Rightarrow> report_row list \<Rightarrow> group_count" where
  "group_aggregate g rs =
     \<lparr>gc_group = g, gc_cnt = int (length rs), gc_devices = count_distinct (map rp_device_id rs),
      gc_last = foldl max (rp_received_at (hd rs)) (map rp_received_at rs)\<rparr>"

definition group_counts ::
  "int \<Rightarrow> ustr \<Rightarrow> ustr \<Rightarrow> ustr \<Rightarrow> database \<Rightarrow> group_count list" where
  "group_counts cutoff kind version target db =
     map (\<lambda>(g, rs). group_aggregate g rs)
       (filter (\<lambda>(g, rs). rs \<noteq> [])
         (map (\<lambda>g. (g, filter (group_matches cutoff kind version target g) (db_reports db))) (db_groups db)))"

definition rank :: "group_count \<Rightarrow> int desc list" where
  "rank c = [Desc (gc_cnt c), Desc (gc_last c)]"

definition top_groups :: "int \<Rightarrow> ustr \<Rightarrow> ustr \<Rightarrow> ustr \<Rightarrow> database \<Rightarrow> group_count list" where
  "top_groups cutoff kind version target db =
     take 100 (sort_key rank (group_counts cutoff kind version target db))"

record group_line =
  gl_id :: ustr
  gl_title :: ustr
  gl_kind :: ustr
  gl_modules :: ustr
  gl_count :: int
  gl_devices :: int
  gl_first_version :: ustr
  gl_last_report :: ustr
  gl_state :: ustr

definition group_line_of :: "'k server_env \<Rightarrow> group_count \<Rightarrow> group_line" where
  "group_line_of e c =
     (let g = gc_group c in
      \<lparr>gl_id = cg_id g, gl_title = cg_title g, gl_kind = cg_kind g,
       gl_modules = or_default [] (cg_modules g), gl_count = gc_cnt c, gl_devices = gc_devices c,
       gl_first_version = or_default [] (cg_first_seen_version g),
       gl_last_report = fmt_ts e (gc_last c), gl_state = cg_state g\<rparr>)"

definition query_groups ::
  "'k server_env \<Rightarrow> ustr \<Rightarrow> ustr \<Rightarrow> ustr \<Rightarrow> ustr \<Rightarrow> (anyhow, group_line list) io" where
  "query_groups e window kind version target =
     bindE get_now (\<lambda>now.
     bindE (select (top_groups (window_cutoff now window) kind version target)) (\<lambda>rows.
     ret (map (group_line_of e) rows)))"

definition group_json :: "group_line \<Rightarrow> json" where
  "group_json g = JObj
     [(lit ''group_id'', JStr (gl_id g)), (lit ''title'', JStr (gl_title g)),
      (lit ''kind'', JStr (gl_kind g)), (lit ''modules'', JStr (gl_modules g)),
      (lit ''reports'', JInt (gl_count g)), (lit ''devices'', JInt (gl_devices g)),
      (lit ''first_seen_version'', JStr (gl_first_version g)),
      (lit ''last_report'', JStr (gl_last_report g)), (lit ''state'', JStr (gl_state g))]"

text \<open>The query string is extracted after the developer.\<close>

definition groups_json ::
  "'k server_env \<Rightarrow> headers \<Rightarrow> response + groups_query \<Rightarrow> world \<Rightarrow> response \<times> world" where
  "groups_json e cookies query_string =
     respond (bindE (from_request_parts e cookies) (\<lambda>_.
     bindE (lift_result query_string) (\<lambda>q.
     bindE (map_err (\<lambda>err. api_response (internal_error err))
       (query_groups e (or_default (lit ''7d'') (gq_window q)) (or_default [] (gq_kind q))
         (or_default [] (gq_version q)) (or_default [] (gq_target q)))) (\<lambda>groups.
     ret (Json_Body OK (JObj [(lit ''groups'', JList (map group_json groups))]))))))"

text \<open>The fields the template of the page reads from a group.\<close>

definition group_context :: "group_line \<Rightarrow> json" where
  "group_context g = JObj
     [(lit ''id'', JStr (gl_id g)), (lit ''title'', JStr (gl_title g)), (lit ''kind'', JStr (gl_kind g)),
      (lit ''modules'', JStr (gl_modules g)), (lit ''count'', JInt (gl_count g)),
      (lit ''devices'', JInt (gl_devices g)), (lit ''first_version'', JStr (gl_first_version g)),
      (lit ''last_report'', JStr (gl_last_report g)), (lit ''state'', JStr (gl_state g))]"

definition groups :: "'k server_env \<Rightarrow> headers \<Rightarrow> response + groups_query \<Rightarrow> world \<Rightarrow> response \<times> world" where
  "groups e cookies query_string =
     respond (bindE (from_request_parts e cookies) (\<lambda>d.
     bindE (lift_result query_string) (\<lambda>q.
     let window = or_default (lit ''7d'') (gq_window q); kind = or_default [] (gq_kind q);
         version = or_default [] (gq_version q); target = or_default [] (gq_target q) in
     bindE (map_err db_err (query_groups e window kind version target)) (\<lambda>rows.
     ret (page ''groups.html''
        [(lit ''instance'', JStr (instance_name (sv_cfg e))), (lit ''login'', JStr (dev_login d)),
         (lit ''window'', JStr window), (lit ''kind'', JStr kind), (lit ''version'', JStr version),
         (lit ''target'', JStr target), (lit ''groups'', JList (map group_context rows))])))))"

subsection \<open>A group\<close>

text \<open>The rows of a group by one column: how often each value occurs, the most frequent first.\<close>

definition breakdown_rows :: "ustr \<Rightarrow> (report_row \<Rightarrow> ustr) \<Rightarrow> database \<Rightarrow> (ustr \<times> int) list" where
  "breakdown_rows group_id column db =
     (let keys = map column (filter (\<lambda>r. rp_group_id r = Some group_id) (db_reports db)) in
      take 20 (sort_key (\<lambda>(k, n). Desc n)
        (map (\<lambda>k. (k, int (count_list keys k))) (sort (remdups keys)))))"

definition breakdown :: "ustr \<Rightarrow> (report_row \<Rightarrow> ustr) \<Rightarrow> (anyhow, (ustr \<times> int) list) io" where
  "breakdown group_id column = select (breakdown_rows group_id column)"

definition group_totals :: "ustr \<Rightarrow> database \<Rightarrow> int \<times> int" where
  "group_totals group_id db =
     (let rs = filter (\<lambda>r. rp_group_id r = Some group_id) (db_reports db) in
      (int (length rs), count_distinct (map rp_device_id rs)))"

definition latest_reports :: "ustr \<Rightarrow> database \<Rightarrow> report_row list" where
  "latest_reports group_id db =
     take 20 (sort_key (\<lambda>r. Desc (rp_received_at r))
       (filter (\<lambda>r. rp_group_id r = Some group_id) (db_reports db)))"

definition no_such_group :: response where
  "no_such_group = Text_Body NOT_FOUND (lit ''no such group'')"

definition report_missing :: response where
  "report_missing = Text_Body NOT_FOUND (lit ''no such report'')"

definition key_count :: "ustr \<times> int \<Rightarrow> json" where
  "key_count kn = JObj [(lit ''key'', JStr (fst kn)), (lit ''count'', JInt (snd kn))]"

definition report_line :: "'k server_env \<Rightarrow> report_row \<Rightarrow> json" where
  "report_line e r = JObj
     [(lit ''id'', JStr (rp_id r)), (lit ''received'', JStr (fmt_ts e (rp_received_at r))),
      (lit ''version'', JStr (rp_version r)), (lit ''target'', JStr (rp_target r)),
      (lit ''board'', JStr (rp_board_name r)), (lit ''state'', JStr (report_state_text (rp_state r))),
      (lit ''visibility'', JStr (visibility_text (rp_visibility r)))]"

text \<open>The three breakdowns are all sent before their results are looked at.\<close>

definition all_three :: "(anyhow, 'a) io \<Rightarrow> (anyhow, 'b) io \<Rightarrow> (anyhow, 'c) io \<Rightarrow> (response, 'a \<times> 'b \<times> 'c) io" where
  "all_three a b c w =
     (case a w of (ra, w1) \<Rightarrow> case b w1 of (rb, w2) \<Rightarrow> case c w2 of (rc, w3) \<Rightarrow>
        (case (ra, rb, rc) of
           (Inr x, Inr y, Inr z) \<Rightarrow> (Inr (x, y, z), w3)
         | _ \<Rightarrow> (Inl (Status INTERNAL_SERVER_ERROR), w3)))"

definition group_detail :: "'k server_env \<Rightarrow> headers \<Rightarrow> ustr \<Rightarrow> world \<Rightarrow> response \<times> world" where
  "group_detail e cookies group_id =
     respond (bindE (from_request_parts e cookies) (\<lambda>d.
     bindE (map_err db_err (select (\<lambda>db. lookup_by cg_id group_id (db_groups db)))) (\<lambda>row.
     bindE (lift_result (ok_or no_such_group row)) (\<lambda>g.
     bindE (map_err db_err (select (group_totals group_id))) (\<lambda>(n, devices).
     bindE (all_three (breakdown group_id rp_version) (breakdown group_id rp_target)
       (breakdown group_id rp_board_name)) (\<lambda>(by_version, by_target, by_board).
     bindE (map_err db_err (select (latest_reports group_id))) (\<lambda>reports.
     ret (page ''group.html''
       [(lit ''instance'', JStr (instance_name (sv_cfg e))), (lit ''login'', JStr (dev_login d)),
        (lit ''title'', JStr (cg_title g)), (lit ''kind'', JStr (cg_kind g)),
        (lit ''modules'', text_or_empty (cg_modules g)), (lit ''signature'', JStr (cg_signature g)),
        (lit ''first_seen'', JStr (fmt_ts e (cg_first_seen g))),
        (lit ''last_seen'', JStr (fmt_ts e (cg_last_seen g))),
        (lit ''first_version'', text_or_empty (cg_first_seen_version g)),
        (lit ''issue_url'', text_or_empty (cg_issue_url g)),
        (lit ''report_count'', JInt n), (lit ''device_count'', JInt devices),
        (lit ''by_version'', JList (map key_count by_version)),
        (lit ''by_target'', JList (map key_count by_target)),
        (lit ''by_board'', JList (map key_count by_board)),
        (lit ''reports'', JList (map (report_line e) reports))]))))))))"

subsection \<open>A report\<close>

text \<open>The decoded text, empty when it cannot be read.\<close>

definition decoded_or_empty :: "'k server_env \<Rightarrow> file_system \<Rightarrow> ustr \<Rightarrow> json" where
  "decoded_or_empty e fs rid = text_or_empty (read_to_string fs (path_join (decoded_dir (sv_cfg e)) rid))"

definition report_with_title :: "ustr \<Rightarrow> database \<Rightarrow> (report_row \<times> ustr option) option" where
  "report_with_title rid db =
     map_option (\<lambda>r. (r, Option.bind (rp_group_id r) (\<lambda>g. map_option cg_title (lookup_by cg_id g (db_groups db)))))
       (lookup_by rp_id rid (db_reports db))"

definition report_view :: "'k server_env \<Rightarrow> headers \<Rightarrow> ustr \<Rightarrow> world \<Rightarrow> response \<times> world" where
  "report_view e cookies rid =
     respond (bindE (from_request_parts e cookies) (\<lambda>d.
     bindE (map_err db_err (select (report_with_title rid))) (\<lambda>row.
     bindE (lift_result (ok_or report_missing row)) (\<lambda>(r, group_title) w.
     (Inr (page ''report.html''
       [(lit ''instance'', JStr (instance_name (sv_cfg e))), (lit ''login'', JStr (dev_login d)),
        (lit ''id'', JStr rid), (lit ''group_id'', text_or_empty (rp_group_id r)),
        (lit ''group_title'', text_or_empty group_title), (lit ''kind'', JStr (rp_kind r)),
        (lit ''received'', JStr (fmt_ts e (rp_received_at r))), (lit ''version'', JStr (rp_version r)),
        (lit ''revision'', JStr (rp_revision r)), (lit ''target'', JStr (rp_target r)),
        (lit ''arch'', JStr (rp_arch r)), (lit ''board'', JStr (rp_board_name r)),
        (lit ''kernel'', JStr (rp_kernel r)), (lit ''state'', JStr (report_state_text (rp_state r))),
        (lit ''visibility'', JStr (visibility_text (rp_visibility r))),
        (lit ''slug'', text_or_empty (rp_publish_slug r)),
        (lit ''decoded'', decoded_or_empty e (w_fs w) rid)]), w)))))"

definition change_visibility :: "'k server_env \<Rightarrow> headers \<Rightarrow> ustr \<Rightarrow> bool \<Rightarrow> world \<Rightarrow> response \<times> world" where
  "change_visibility e cookies rid public =
     respond (bindE (from_request_parts e cookies) (\<lambda>_.
     bindE (map_err db_err (set_visibility e rid public)) (\<lambda>r.
     case r of Some _ \<Rightarrow> ret (Redirect_To (lit ''/reports/'' @ rid)) | None \<Rightarrow> ret report_missing)))"

definition publish :: "'k server_env \<Rightarrow> headers \<Rightarrow> ustr \<Rightarrow> world \<Rightarrow> response \<times> world" where
  "publish e cookies rid = change_visibility e cookies rid True"

definition unpublish :: "'k server_env \<Rightarrow> headers \<Rightarrow> ustr \<Rightarrow> world \<Rightarrow> response \<times> world" where
  "unpublish e cookies rid = change_visibility e cookies rid False"

definition published :: "ustr \<Rightarrow> database \<Rightarrow> report_row option" where
  "published slug db =
     List.find (\<lambda>r. rp_publish_slug r = Some slug \<and> rp_visibility r = Public) (db_reports db)"

definition public_report :: "'k server_env \<Rightarrow> ustr \<Rightarrow> world \<Rightarrow> response \<times> world" where
  "public_report e slug =
     respond (bindE (map_err db_err (select (published slug))) (\<lambda>row.
     bindE (lift_result (ok_or report_missing row)) (\<lambda>r w.
     (Inr (page ''public_report.html''
       [(lit ''instance'', JStr (instance_name (sv_cfg e))), (lit ''kind'', JStr (rp_kind r)),
        (lit ''version'', JStr (rp_version r)), (lit ''revision'', JStr (rp_revision r)),
        (lit ''target'', JStr (rp_target r)), (lit ''arch'', JStr (rp_arch r)),
        (lit ''board'', JStr (rp_board_name r)), (lit ''kernel'', JStr (rp_kernel r)),
        (lit ''decoded'', decoded_or_empty e (w_fs w) (rp_id r))]), w))))"

definition my_page :: "'k server_env \<Rightarrow> response" where
  "my_page e = page ''my.html'' [(lit ''instance'', JStr (instance_name (sv_cfg e)))]"

end
