(* ===== verification/Server.thy ===== *)
theory Server
  imports Dashboard
begin

text \<open>
  crates/ucrs-server/src/main.rs: the command line, the start of the server, the routes and
  the hourly cleanup (\<open>cleanup\<close> of Auth). The database driver with its migrations is a
  parameter of the start; the extractors for JSON bodies, forms and query strings are
  parameters of the router. A \<open>HEAD\<close> request is not told from a \<open>GET\<close>.
\<close>

subsection \<open>Start\<close>

fun parse_args :: "ustr list \<Rightarrow> ustr \<Rightarrow> ustr option \<Rightarrow> anyhow + (ustr \<times> ustr option)" where
  "parse_args [] config_path adduser = Inr (config_path, adduser)"
| "parse_args (arg # it) config_path adduser =
     (if arg = lit ''adduser''
      then (case it of
          [] \<Rightarrow> Inl [Text (lit ''usage: ucrs-server [config.toml] adduser <login>'')]
        | login_name # it' \<Rightarrow> parse_args it' config_path (Some login_name))
      else parse_args it arg adduser)"

definition db_url :: "config \<Rightarrow> ustr" where
  "db_url cfg =
     (case strip_prefix (lit ''sqlite://'') (database_url cfg) of
        Some p \<Rightarrow> lit ''sqlite://'' @ p
      | None \<Rightarrow> database_url cfg)"

definition create_dirs :: "config \<Rightarrow> (anyhow, unit) io" where
  "create_dirs cfg =
     bindE (context_io (lit ''creating data dir'') (fs_do (\<lambda>fs. fs_create_dir_all fs (data_dir cfg)))) (\<lambda>_.
     bindE (fs_do (\<lambda>fs. fs_create_dir_all fs (raw_dir cfg))) (\<lambda>_.
     bindE (fs_do (\<lambda>fs. fs_create_dir_all fs (decoded_dir cfg))) (\<lambda>_.
     fs_do (\<lambda>fs. fs_create_dir_all fs (symbols_dir cfg)))))"

text \<open>Up to the point where the server listens; a password is the result of \<open>adduser\<close>.\<close>

definition start ::
  "(ustr \<Rightarrow> anyhow + config_file) \<Rightarrow> (ustr \<Rightarrow> anyhow + unit) \<Rightarrow> 'a auth_env_scheme \<Rightarrow> ustr list \<Rightarrow>
     (anyhow, config \<times> ustr option) io" where
  "start toml open_db e args =
     bindE (lift_result (parse_args args (lit ''config.toml'') None)) (\<lambda>(config_path, adduser).
     bindE (\<lambda>w. (load toml (w_fs w) config_path, w)) (\<lambda>cfg.
     bindE (create_dirs cfg) (\<lambda>_.
     bindE (lift_result (open_db (db_url cfg))) (\<lambda>_.
     case adduser of
       Some login_name \<Rightarrow> bindE (create_user e login_name) (\<lambda>password. ret (cfg, Some password))
     | None \<Rightarrow> ret (cfg, None)))))"

subsection \<open>Routes\<close>

datatype http_method = GET | POST

datatype endpoint =
  Healthz | Post_Report | Device_Challenge | Device_Login | My_Reports | My_Report_Detail
| My_Publish | My_Unpublish | Groups_Json | Debuginfo | Executable | Index | Login_Page
| Login_Post | Logout | Groups | Group_Detail | Report_View | Publish | Unpublish
| Public_Report | My_Page

definition routes :: "(string \<times> http_method \<times> endpoint) list" where
  "routes =
    [(''/healthz'', GET, Healthz),
     (''/api/v1/reports'', POST, Post_Report),
     (''/api/v1/device/challenge'', POST, Device_Challenge),
     (''/api/v1/device/login'', POST, Device_Login),
     (''/api/v1/my/reports'', GET, My_Reports),
     (''/api/v1/my/reports/{id}'', GET, My_Report_Detail),
     (''/api/v1/my/reports/{id}/publish'', POST, My_Publish),
     (''/api/v1/my/reports/{id}/unpublish'', POST, My_Unpublish),
     (''/api/v1/groups'', GET, Groups_Json),
     (''/buildid/{buildid}/debuginfo'', GET, Debuginfo),
     (''/buildid/{buildid}/executable'', GET, Executable),
     (''/'', GET, Index),
     (''/login'', GET, Login_Page),
     (''/login'', POST, Login_Post),
     (''/logout'', POST, Logout),
     (''/groups'', GET, Groups),
     (''/groups/{id}'', GET, Group_Detail),
     (''/reports/{id}'', GET, Report_View),
     (''/reports/{id}/publish'', POST, Publish),
     (''/reports/{id}/unpublish'', POST, Unpublish),
     (''/r/{slug}'', GET, Public_Report),
     (''/my'', GET, My_Page)]"

text \<open>Matching a pattern, segment by segment: \<open>{..}\<close> takes a nonempty segment.\<close>

definition segments :: "ustr \<Rightarrow> ustr list" where
  "segments p = split_by (\<lambda>c. c = 47) p"

fun match_segments :: "ustr list \<Rightarrow> ustr list \<Rightarrow> ustr list option" where
  "match_segments [] [] = Some []"
| "match_segments (p # ps) (s # ss) =
     (if prefix [123] p
      then (if s = [] then None else map_option (\<lambda>xs. s # xs) (match_segments ps ss))
      else if p = s then match_segments ps ss else None)"
| "match_segments ps ss = None"

record http_request =
  hq_method :: http_method
  hq_path :: "ustr list"
  hq_query :: ustr
  hq_headers :: headers
  hq_cookies :: headers
  hq_body :: "byte list"

definition find_route :: "http_method \<Rightarrow> ustr list \<Rightarrow> (endpoint \<times> ustr list) option" where
  "find_route m path =
     (case List.map_filter (\<lambda>(pat, m', ep). if m' = m
         then map_option (\<lambda>xs. (ep, xs)) (match_segments (segments (lit pat)) path) else None) routes of
        [] \<Rightarrow> None
      | x # _ \<Rightarrow> Some x)"

definition path_known :: "ustr list \<Rightarrow> bool" where
  "path_known path \<longleftrightarrow> list_ex (\<lambda>(pat, _, _). match_segments (segments (lit pat)) path \<noteq> None) routes"

text \<open>The extractors: a value, or the response that rejects the request.\<close>

record extractors =
  ex_challenge :: "headers \<Rightarrow> byte list \<Rightarrow> response + ustr"
  ex_login :: "headers \<Rightarrow> byte list \<Rightarrow> response + (ustr \<times> ustr)"
  ex_form :: "headers \<Rightarrow> byte list \<Rightarrow> response + (ustr \<times> ustr)"
  ex_query :: "ustr \<Rightarrow> response + groups_query"

definition api :: "(api_error, response) io \<Rightarrow> world \<Rightarrow> response \<times> world" where
  "api m = respond (map_err api_response m)"

definition api_json :: "(api_error, json) io \<Rightarrow> world \<Rightarrow> response \<times> world" where
  "api_json m = api (bindE m (\<lambda>j. ret (Json_Body OK j)))"

text \<open>The state of the server: the nonces and the world.\<close>

type_synonym server_state = "nonce_map \<times> world"

definition keep_nonces :: "(world \<Rightarrow> response \<times> world) \<Rightarrow> server_state \<Rightarrow> response \<times> server_state" where
  "keep_nonces m st = (case m (snd st) of (r, w') \<Rightarrow> (r, fst st, w'))"

definition fixed :: "response \<Rightarrow> server_state \<Rightarrow> response \<times> server_state" where
  "fixed r st = (r, st)"

definition with_nonces ::
  "(nonce_map \<Rightarrow> world \<Rightarrow> ((api_error + json) \<times> nonce_map) \<times> world) \<Rightarrow> server_state \<Rightarrow> response \<times> server_state" where
  "with_nonces m st =
     (case m (fst st) (snd st) of ((r, n'), w') \<Rightarrow>
        ((case r of Inl err \<Rightarrow> api_response err | Inr j \<Rightarrow> Json_Body OK j), n', w'))"

definition extracted :: "response + 'a \<Rightarrow> ('a \<Rightarrow> server_state \<Rightarrow> response \<times> server_state) \<Rightarrow> server_state \<Rightarrow> response \<times> server_state" where
  "extracted r f = (case r of Inl rejection \<Rightarrow> fixed rejection | Inr x \<Rightarrow> f x)"

fun handle ::
  "'k server_env \<Rightarrow> extractors \<Rightarrow> int \<Rightarrow> http_request \<Rightarrow> endpoint \<Rightarrow> ustr \<Rightarrow> server_state \<Rightarrow> response \<times> server_state" where
  "handle e x now q Healthz i = fixed healthz"
| "handle e x now q Post_Report i = keep_nonces (api (post_report e (hq_headers q) (hq_body q)))"
| "handle e x now q Device_Challenge i =
     extracted (ex_challenge x (hq_headers q) (hq_body q)) (\<lambda>pubkey. with_nonces (device_challenge e pubkey now))"
| "handle e x now q Device_Login i =
     extracted (ex_login x (hq_headers q) (hq_body q))
       (\<lambda>(pubkey, signature). with_nonces (device_login e pubkey signature now))"
| "handle e x now q My_Reports i = keep_nonces (api_json (my_reports e (hq_headers q)))"
| "handle e x now q My_Report_Detail i = keep_nonces (api_json (my_report_detail e (hq_headers q) i))"
| "handle e x now q My_Publish i = keep_nonces (api_json (my_publish e (hq_headers q) i))"
| "handle e x now q My_Unpublish i = keep_nonces (api_json (my_unpublish e (hq_headers q) i))"
| "handle e x now q Groups_Json i = keep_nonces (groups_json e (hq_cookies q) (ex_query x (hq_query q)))"
| "handle e x now q Debuginfo i = (\<lambda>st. fixed (debuginfod_debuginfo e i (w_fs (snd st))) st)"
| "handle e x now q Executable i = fixed debuginfod_executable"
| "handle e x now q Index i = fixed index"
| "handle e x now q Login_Page i = fixed (login_page e)"
| "handle e x now q Login_Post i =
     extracted (ex_form x (hq_headers q) (hq_body q)) (\<lambda>(l, pw). keep_nonces (login_post e l pw))"
| "handle e x now q Logout i = keep_nonces (logout_post e (hq_cookies q))"
| "handle e x now q Groups i = keep_nonces (groups e (hq_cookies q) (ex_query x (hq_query q)))"
| "handle e x now q Group_Detail i = keep_nonces (group_detail e (hq_cookies q) i)"
| "handle e x now q Report_View i = keep_nonces (report_view e (hq_cookies q) i)"
| "handle e x now q Publish i = keep_nonces (publish e (hq_cookies q) i)"
| "handle e x now q Unpublish i = keep_nonces (unpublish e (hq_cookies q) i)"
| "handle e x now q Public_Report i = keep_nonces (public_report e i)"
| "handle e x now q My_Page i = fixed (my_page e)"

definition serve ::
  "'k server_env \<Rightarrow> extractors \<Rightarrow> int \<Rightarrow> http_request \<Rightarrow> server_state \<Rightarrow> response \<times> server_state" where
  "serve e x now q =
     (case find_route (hq_method q) (hq_path q) of
        Some (ep, params) \<Rightarrow> handle e x now q ep (concat params)
      | None \<Rightarrow> fixed (Status (if path_known (hq_path q) then 405 else NOT_FOUND)))"

end
