(* ===== verification/Unit_Tests.thy ===== *)
theory Unit_Tests
  imports Signature Scrub Payload Buildid Symbolizer
begin

text \<open>
  The unit tests of the repository, run on the model: each test is the conjunction of its
  assertions on the model's functions, under the name it has in the source, and each is proved.
  The test that addresses and offsets do not change a signature is
  left to the general theorem of Signature_Props. What a test takes from a crate (the hash, the decompressors, the temporary directory) is a
  parameter or a concrete value.
\<close>

definition text_of :: "string list \<Rightarrow> ustr" where
  "text_of ls = concat (map (\<lambda>l. lit l @ [10]) ls)"

subsection \<open>signature.rs\<close>

definition OOPS :: ustr where
  "OOPS = text_of
    [''[ 7136.514751] Internal error: Oops - BUG: 00000000f2000800 [#1] SMP'',
     ''[ 7136.520932] Modules linked in: act_mirred cls_matchall pppoe nf_conntrack'',
     ''[ 7136.601155] CPU: 3 PID: 0 Comm: swapper/3 Not tainted 6.12.94 #0'',
     ''[ 7136.607246] Hardware name: GL.iNet GL-MT6000 (DT)'',
     ''[ 7136.611944] pc : kfree_skb_list_reason+0x3c/0x2d0'',
     ''[ 7136.616642] lr : tcf_mirred_to_dev+0x1e8/0x350 [act_mirred]'',
     ''[ 7136.622209] Call trace:'',
     ''[ 7136.624642]  kfree_skb_list_reason+0x3c/0x2d0'',
     ''[ 7136.628993]  tcf_mirred_to_dev+0x1e8/0x350 [act_mirred]'',
     ''[ 7136.634212]  tcf_mirred_act+0xc8/0x1e8 [act_mirred]'',
     ''[ 7136.639078]  tcf_action_exec.part.0+0x80/0x1a8'',
     ''[ 7136.643516]  mall_classify+0x54/0x78 [cls_matchall]'',
     ''[ 7136.648384]  tcf_classify+0x2b0/0x3e0'',
     ''[ 7136.652042]  __dev_queue_xmit+0x3a8/0xd40'',
     ''[ 7136.656045] ---[ end trace 0000000000000000 ]---'']"

definition oops_parse_and_signature :: "(byte list \<Rightarrow> ustr) \<Rightarrow> bool" where
  "oops_parse_and_signature digest_hex \<longleftrightarrow>
     (case parse_oops OOPS of None \<Rightarrow> False | Some (exc, frames) \<Rightarrow>
        let sig = compute digest_hex (lit ''kernel_oops'') exc frames in
        sublist (lit ''Internal error: Oops'') exc \<and> length frames = 7
        \<and> fr_module (frames ! 1) = Some (lit ''act_mirred'')
        \<and> cs_title sig = lit ''kfree_skb_list_reason''
        \<and> cs_modules sig = [lit ''act_mirred'', lit ''cls_matchall'']
        \<and> length (cs_signature sig) = 64)"

definition PSTORE :: ustr where
  "PSTORE = text_of
    [''Panic#2 Part1'',
     ''<1>[   58.909947] Unable to handle kernel access to user memory outside uaccess routines at virtual address 0000000000000000'',
     ''<0>[   58.979398] Internal error: Oops: 0000000096000045 [#1]  SMP'',
     ''<7>[   58.985050] Modules linked in: pppoe lkdtm compat(O)'',
     ''<7>[   59.070784] pc : lkdtm_EXCEPTION+0x4/0xc [lkdtm]'',
     ''<7>[   59.154787] Call trace:'',
     ''<7>[   59.157223]  lkdtm_EXCEPTION+0x4/0xc [lkdtm] (P)'',
     ''<7>[   59.161846]  direct_entry+0x1a8/0x1e0 [lkdtm]'',
     ''<7>[   59.166207]  full_proxy_write+0x60/0x98'',
     ''<7>[   59.170212]  vfs_write+0xac/0x3c4'',
     ''<7>[   59.176829]  __arm64_sys_write+0x18/0x20'',
     ''<7>[   59.191795]  el0t_64_sync_handler+0x98/0xdc'',
     ''<0>[   59.199627] Code: d503201f d503201f d503201f d2800000 (b900001f)'',
     ''<4>[   59.205707] ---[ end trace 0000000000000000 ]---'']"

definition pstore_record_parse_and_signature :: "(byte list \<Rightarrow> ustr) \<Rightarrow> bool" where
  "pstore_record_parse_and_signature digest_hex \<longleftrightarrow>
     (case parse_oops PSTORE of None \<Rightarrow> False | Some (exc, frames) \<Rightarrow>
        let sig = compute digest_hex (lit ''pstore'') exc frames in
        prefix (lit ''Unable to handle kernel'') exc
        \<and> fr_symbol (frames ! 0) = lit ''lkdtm_EXCEPTION+0x4/0xc''
        \<and> fr_module (frames ! 0) = Some (lit ''lkdtm'')
        \<and> cs_title sig = lit ''lkdtm_EXCEPTION'' \<and> cs_modules sig = [lit ''lkdtm''])"

definition mixed :: ustr where
  "mixed = text_of
    [''<4>[  675.75] WARNING: CPU: 0 PID: 3157 at lkdtm_WARNING+0x1c/0x24 [lkdtm]'',
     ''<7>[  675.92] Call trace:'',
     ''<7>[  675.93]  lkdtm_WARNING+0x1c/0x24 [lkdtm] (P)'',
     ''<7>[  675.94]  direct_entry+0x1a8/0x1e0 [lkdtm]'',
     ''<4>[  675.97] ---[ end trace 0000000000000000 ]---'',
     ''<1>[  723.31] Unable to handle kernel access to user memory outside uaccess routines at virtual address 0000000000000000'',
     ''<0>[  723.40] Internal error: Oops: 0000000096000045 [#1]  SMP'',
     ''<7>[  723.58] Call trace:'',
     ''<7>[  723.59]  lkdtm_EXCEPTION+0x4/0xc [lkdtm] (P)'',
     ''<7>[  723.60]  direct_entry+0x1a8/0x1e0 [lkdtm]'',
     ''<4>[  723.65] ---[ end trace 0000000000000000 ]---'']"

definition last_crash_section_wins :: "(byte list \<Rightarrow> ustr) \<Rightarrow> bool" where
  "last_crash_section_wins digest_hex \<longleftrightarrow>
     (case parse_oops mixed of None \<Rightarrow> False | Some (exc, frames) \<Rightarrow>
        prefix (lit ''Unable to handle kernel'') exc
        \<and> cs_title (compute digest_hex (lit ''pstore'') exc frames) = lit ''lkdtm_EXCEPTION'')"

definition printk_prefixes_stripped :: bool where
  "printk_prefixes_stripped \<longleftrightarrow>
     strip_printk_prefix (lit ''<7>[   59.15]  vfs_write+0xac/0x3c4'') = lit ''vfs_write+0xac/0x3c4''
     \<and> strip_printk_prefix (lit ''[   12.34] msg'') = lit ''msg''
     \<and> strip_printk_prefix (lit ''<1> 58.909947 Unable to handle'') = lit ''Unable to handle''
     \<and> strip_printk_prefix (lit ''plain line'') = lit ''plain line''"

definition exception_normalized_without_counters :: bool where
  "exception_normalized_without_counters \<longleftrightarrow>
     normalize_exception (lit ''Internal error: Oops: 0000000096000045 [#1]  SMP'') = lit ''Internal error: Oops: SMP''"

definition normalize :: bool where
  "normalize \<longleftrightarrow>
     normalize_symbol (lit ''tcf_action_exec.part.0+0x80/0x1a8'') = lit ''tcf_action_exec''
     \<and> normalize_symbol (lit ''foo.isra.5.cold'') = lit ''foo''
     \<and> normalize_symbol (lit ''plain_symbol'') = lit ''plain_symbol''"

definition machinery_skipped :: "(byte list \<Rightarrow> ustr) \<Rightarrow> bool" where
  "machinery_skipped digest_hex \<longleftrightarrow>
     (let frames =
        [\<lparr>fr_symbol = lit ''dump_backtrace+0x0/0x1a8'', fr_module = None, fr_questionable = False\<rparr>,
         \<lparr>fr_symbol = lit ''show_stack+0x14/0x20'', fr_module = None, fr_questionable = False\<rparr>,
         \<lparr>fr_symbol = lit ''real_function+0x10/0x20'', fr_module = None, fr_questionable = False\<rparr>] in
      cs_title (compute digest_hex (lit ''kernel_oops'') (lit ''Oops'') frames) = lit ''real_function'')"

text \<open>A digest in hexadecimal has 64 digits; what the hash computes does not matter.\<close>

theorem signature_tests:
  "printk_prefixes_stripped" "exception_normalized_without_counters" "normalize" "machinery_skipped digest_hex"
  by code_simp+

theorem signature_test_sections: "last_crash_section_wins digest_hex"
  by code_simp

theorem signature_test_pstore: "pstore_record_parse_and_signature digest_hex"
  by code_simp

theorem signature_test_oops:
  assumes "\<And>bytes. length (digest_hex bytes) = 64"
  shows "oops_parse_and_signature digest_hex"
proof -
  have sig: "length (cs_signature (compute digest_hex kind exc frames)) = 64" for kind exc frames
    by (simp add: compute_def Let_def assms)
  show ?thesis unfolding oops_parse_and_signature_def Let_def sig by code_simp
qed

subsection \<open>scrub.rs\<close>

definition scrub_ascii :: "ustr \<Rightarrow> ustr" where
  "scrub_ascii = scrub (backtracking ascii_word) is_ascii_digit"

definition mac_keeps_oui :: bool where
  "mac_keeps_oui \<longleftrightarrow>
     scrub_ascii (lit ''dev eth0 addr 94:83:c4:12:34:56 up'') = lit ''dev eth0 addr 94:83:c4:xx:xx:xx up''"

definition ipv4_masked_but_loopback_kept :: bool where
  "ipv4_masked_but_loopback_kept \<longleftrightarrow>
     scrub_ascii (lit ''from 192.168.1.42 to 127.0.0.1 and 0.0.0.0'') = lit ''from x.x.x.x to 127.0.0.1 and 0.0.0.0''"

definition ipv6_masked :: bool where
  "ipv6_masked \<longleftrightarrow>
     scrub_ascii (lit ''src fe80::1a2b:3c4d'') = lit ''src x:x::x''
     \<and> scrub_ascii (lit ''addr 2001:0db8:0000:0000:0000:ff00:0042:8329'') = lit ''addr x:x::x''"

definition trace_content_untouched :: bool where
  "trace_content_untouched \<longleftrightarrow>
     (let line = lit ''[ 7136.62]  tcf_mirred_to_dev+0x1e8/0x350 [act_mirred]'';
          regs = lit ''x1 : ffff800011223344 x0 : 0000000000000000'' in
      scrub_ascii line = line \<and> scrub_ascii regs = regs)"

theorem scrub_tests: "mac_keeps_oui" "ipv4_masked_but_loopback_kept"
  by code_simp+

theorem scrub_test_ipv6: "ipv6_masked"
  by code_simp

theorem scrub_test_trace: "trace_content_untouched"
  by code_simp

subsection \<open>buildid.rs\<close>

definition rejects_non_hex_and_short :: "file_system \<Rightarrow> bool" where
  "rejects_non_hex_and_short fs \<longleftrightarrow>
     (let root = lit ''/nonexistent'' in
      resolve fs root (lit ''../../etc/passwd'') = None \<and> resolve fs root (lit ''xyz'') = None
      \<and> resolve fs root (lit ''ab'') = None \<and> resolve fs root (lit ''abcd/ef'') = None)"

text \<open>The set-up of a test: calls on the file system, each of which must succeed.\<close>

definition set_up :: "(file_system \<Rightarrow> file_system option) list \<Rightarrow> file_system \<Rightarrow> file_system option" where
  "set_up calls fs = fold (\<lambda>call r. Option.bind r call) calls (Some fs)"

definition resolves_indexed_id :: "ustr \<Rightarrow> file_system \<Rightarrow> bool" where
  "resolves_indexed_id tmp fs \<longleftrightarrow>
     (let dir = path_join tmp (lit ''.build-id/8d''); file = path_join dir (lit ''74ef44.debug'') in
      case set_up [\<lambda>fs. fs_create_dir_all fs dir, \<lambda>fs. fs_write fs file (as_bytes (lit ''elf''))] fs of
        None \<Rightarrow> False
      | Some fs \<Rightarrow>
          resolve fs tmp (lit ''8d74ef44'') \<noteq> None
          \<and> map_option components (resolve fs tmp (lit ''8d74ef44'')) = Some (components file)
          \<and> map_option components (resolve fs tmp (lit ''8D74EF44'')) = Some (components file)
          \<and> resolve fs tmp (lit ''8d74ef45'') = None)"

definition empty_fs :: file_system where
  "empty_fs = \<lparr>fs_cwd = [], fs_nodes = [], fs_denied = (\<lambda>_. False)\<rparr>"

theorem buildid_tests:
  "rejects_non_hex_and_short fs" "resolves_indexed_id (lit ''/tmp/ucrs-buildid-test-1'') empty_fs"
proof -
  show "rejects_non_hex_and_short fs"
    unfolding rejects_non_hex_and_short_def Let_def resolve_def by code_simp
  show "resolves_indexed_id (lit ''/tmp/ucrs-buildid-test-1'') empty_fs" by code_simp
qed

subsection \<open>payload.rs\<close>

text \<open>A compressor of which the decompressor is the inverse, as flate2 documents.\<close>

definition gzip_roundtrip :: "decompressors \<Rightarrow> (byte list \<Rightarrow> byte list) \<Rightarrow> bool" where
  "gzip_roundtrip z gz \<longleftrightarrow>
     Payload.decode z (gz (as_bytes (lit ''Oops text''))) Gzip = Inr (lit ''Oops text'')"

definition zlib_roundtrip :: "decompressors \<Rightarrow> (byte list \<Rightarrow> byte list) \<Rightarrow> bool" where
  "zlib_roundtrip z zl \<longleftrightarrow>
     Payload.decode z (zl (as_bytes (lit ''pstore record''))) Zlib = Inr (lit ''pstore record'')"

definition plain_passthrough :: "decompressors \<Rightarrow> bool" where
  "plain_passthrough z \<longleftrightarrow> Payload.decode z (as_bytes (lit ''text'')) Enc_None = Inr (lit ''text'')"

definition bomb_rejected :: "decompressors \<Rightarrow> (byte list \<Rightarrow> byte list) \<Rightarrow> bool" where
  "bomb_rejected z gz \<longleftrightarrow>
     (\<exists>err. Payload.decode z (gz (replicate (100 * (1024 * 1024)) 0)) Gzip = Inl err)"

lemma decode_small:
  "length data \<le> MAX_DECODED_SIZE \<Longrightarrow> read_capped (data, None) = Inr data"
  by (simp add: read_capped_Inr)

theorem payload_tests:
  assumes "\<And>d. gz_decoder z (gz d) = (d, None)" "\<And>d. zlib_decoder z (zl d) = (d, None)"
  shows "gzip_roundtrip z gz" "zlib_roundtrip z zl" "plain_passthrough z" "bomb_rejected z gz"
proof -
  have n: "length (as_bytes (lit ''Oops text'')) = 9" "length (as_bytes (lit ''pstore record'')) = 13"
    "length (as_bytes (lit ''text'')) = 4" by code_simp+
  have t: "from_utf8_lossy (as_bytes (lit ''Oops text'')) = lit ''Oops text''"
    "from_utf8_lossy (as_bytes (lit ''pstore record'')) = lit ''pstore record''"
    "from_utf8_lossy (as_bytes (lit ''text'')) = lit ''text''"
    by code_simp+
  show "gzip_roundtrip z gz" "zlib_roundtrip z zl" "plain_passthrough z"
    by (simp_all add: gzip_roundtrip_def zlib_roundtrip_def plain_passthrough_def Payload.decode_def assms
        decode_small MAX_DECODED_SIZE_def n t del: lit_Cons)
  show "bomb_rejected z gz"
    unfolding bomb_rejected_def
    by (intro exI, rule decode_rejects_bomb [of _ _ _ "gz_decoder z (gz (replicate (100 * (1024 * 1024)) 0))"])
      (simp_all add: payload_reader_def assms)
qed

subsection \<open>symbols.rs\<close>

definition annotate_without_symbols_is_identity :: "'n symbols_env \<Rightarrow> file_system \<Rightarrow> bool" where
  "annotate_without_symbols_is_identity e fs \<longleftrightarrow>
     (let sym = new_symbolizer e fs None None;
          log = lit ''[ 1.0] Call trace:'' @ [10] @ lit ''[ 1.1]  foo+0x10/0x20 [bar]'' @ [10] in
      fst (annotate e fs log sym) = log \<and> \<not> have_symbols sym)"

text \<open>Without a directory of symbols the modules are looked up in the working directory; the test
  runs where there is none.\<close>

theorem annotate_test:
  assumes "\<And>name. \<not> fs_exists fs (path_join [] (name @ lit ''.ko''))"
  shows "annotate_without_symbols_is_identity e fs"
proof -
  let ?sym = "new_symbolizer e fs None None"
  let ?lines = "[lit ''[ 1.0] Call trace:'', lit ''[ 1.1]  foo+0x10/0x20 [bar]'']"
  have sym: "sz_vmlinux ?sym = None" "sz_modules_dir ?sym = []" by (simp_all add: new_symbolizer_def)
  have "locate e fs None [] line = None" for line
    by (auto simp: locate_def load_module_def Let_def assms split: option.splits bind_splits simp del: lit_Cons)
  then have "annotated_line e fs None [] line = line @ [10]" for line by (simp add: annotated_line_def)
  moreover have "str_lines (lit ''[ 1.0] Call trace:'' @ [10] @ lit ''[ 1.1]  foo+0x10/0x20 [bar]'' @ [10]) = ?lines"
    by code_simp
  ultimately show ?thesis
    by (simp add: annotate_without_symbols_is_identity_def annotate_eq sym have_symbols_def del: lit_Cons)
qed

definition gc_removes_stale_snapshot_keeps_release :: "ustr \<Rightarrow> int \<Rightarrow> file_system \<Rightarrow> bool" where
  "gc_removes_stale_snapshot_keeps_release tmp now fs \<longleftrightarrow>
     (let pool = \<lparr>sp_dir = tmp, sp_release_url = [], sp_snapshot_url = []\<rparr>;
          stale = path_join tmp (lit ''kernel/SNAPSHOT/ath79/generic'');
          fresh = path_join tmp (lit ''kernel/SNAPSHOT/x86/64'');
          release = path_join tmp (lit ''kernel/25.12.5/ath79/generic'');
          link_dir = path_join tmp (lit ''.build-id/ab'');
          link = path_join link_dir (lit ''cd.debug'') in
      case set_up
          [\<lambda>fs. fs_create_dir_all fs stale, \<lambda>fs. fs_create_dir_all fs fresh, \<lambda>fs. fs_create_dir_all fs release,
           \<lambda>fs. fs_write fs (path_join stale (lit ''last_used'')) (as_bytes (lit ''0'')),
           \<lambda>fs. fs_write fs (path_join fresh (lit ''last_used'')) (as_bytes (decimal (nat now))),
           \<lambda>fs. fs_write fs (path_join release (lit ''last_used'')) (as_bytes (lit ''0'')),
           \<lambda>fs. fs_create_dir_all fs link_dir,
           \<lambda>fs. fs_symlink fs (path_join stale (lit ''debug/vmlinux'')) link] fs of
        None \<Rightarrow> False
      | Some fs \<Rightarrow>
          let fs = gc pool 4 now fs in
          \<not> fs_exists fs stale \<and> fs_exists fs fresh \<and> fs_exists fs release \<and> \<not> fs_is_symlink fs link)"

theorem symbols_tests:
  "gc_removes_stale_snapshot_keeps_release (lit ''/tmp/pool'') 1751712000 empty_fs"
proof -
  have now: "decimal (nat 1751712000) = lit ''1751712000''" by (simp add: decimal.simps lit_def)
  show ?thesis unfolding gc_removes_stale_snapshot_keeps_release_def Let_def now by code_simp
qed

end
