(* ===== verification/Decode_Props.thy ===== *)
theory Decode_Props
  imports Decode_Queue Pool_Frame
begin

text \<open>
  What decoding a report does to its files and rows: the raw payload goes only after
  everything else is stored, equal signatures share a group, and what retention does to raw
  payloads that cannot be removed.
\<close>

subsection \<open>Frames of the error case\<close>

text \<open>The world between a start and a failure.\<close>

definition keeps_err :: "(world \<Rightarrow> world \<Rightarrow> bool) \<Rightarrow> ('e, 'a) io \<Rightarrow> bool" where
  "keeps_err K m \<longleftrightarrow> (\<forall>w err w'. m w = (Inl err, w') \<longrightarrow> K w w')"

context io_frame begin

lemma err_bind: "moves P m \<Longrightarrow> (\<And>x. keeps_err P (f x)) \<Longrightarrow> keeps_err P (bindE m f)"
  unfolding keeps_err_def by (auto simp: bindE_Inl dest: movesD intro: P_trans)

lemma err_last: "keeps_err P (bindE (context_io c (fs_do f)) (\<lambda>_. ret x))"
  unfolding keeps_err_def by (auto simp: bindE_Inl context_io_def fs_do_Inl ret_def P_refl)

end

subsection \<open>Where the files of a report stay\<close>

text \<open>The file of the raw payload is untouched, and the places of the text and of the time stamp
  hold no links.\<close>

definition raw_kept :: "ustr list \<Rightarrow> ustr list \<Rightarrow> ustr list \<Rightarrow> ustr list \<Rightarrow> node \<Rightarrow> world \<Rightarrow> world \<Rightarrow> bool" where
  "raw_kept cwd rk dk s n w w' \<longleftrightarrow>
     (fs_cwd (w_fs w) = cwd \<and> node_at (w_fs w) rk = Some n \<and> plain_at (w_fs w) dk \<and> plain_at (w_fs w) s \<longrightarrow>
      fs_cwd (w_fs w') = cwd \<and> node_at (w_fs w') rk = Some n \<and> plain_at (w_fs w') dk \<and> plain_at (w_fs w') s)"

interpretation rawk: io_frame "raw_kept cwd rk dk s n" for cwd rk dk s n
  by unfold_locales (auto simp: raw_kept_def)

lemma raw_kept_create: "moves (raw_kept cwd rk dk s n) (fs_do (\<lambda>fs. fs_create_dir_all fs p))"
proof (rule rawk.moves_fs_do)
  fix w :: world and fs assume "fs_create_dir_all (w_fs w) p = Some fs"
  then have m: "make_dirs (w_fs w) [] (path_key (w_fs w) p) = Some fs" by (simp add: fs_create_dir_all_def)
  from make_dirs_frame [OF m] plain_at_make_dirs [OF m] show "raw_kept cwd rk dk s n w (w\<lparr>w_fs := fs\<rparr>)"
    by (auto simp: raw_kept_def)
qed

lemma raw_kept_write:
  assumes "abs_key cwd p = dk" "dk \<noteq> rk"
  shows "moves (raw_kept cwd rk dk s n) (fs_do (\<lambda>fs. fs_write fs p d))"
proof (rule rawk.moves_fs_do)
  fix w :: world and fs assume "fs_write (w_fs w) p d = Some fs"
  with assms show "raw_kept cwd rk dk s n w (w\<lparr>w_fs := fs\<rparr>)"
    by (auto simp: raw_kept_def fs_write_plain path_key_abs Let_def plain_at_def split: if_splits)
qed

lemma raw_kept_outside:
  assumes "moves (outside_io cwd root s) m" "\<not> prefix root rk" "\<not> prefix root dk" "n \<noteq> Dir"
  shows "moves (raw_kept cwd rk dk s n) m"
  unfolding moves_def
proof
  fix w
  from assms(1) have o: "outside cwd root s (w_fs w) (w_fs (snd (m w)))" by (simp add: moves_def outside_io_def)
  show "raw_kept cwd rk dk s n w (snd (m w))"
    unfolding raw_kept_def
  proof (intro impI)
    assume p: "fs_cwd (w_fs w) = cwd \<and> node_at (w_fs w) rk = Some n \<and> plain_at (w_fs w) dk \<and> plain_at (w_fs w) s"
    let ?f = "w_fs (snd (m w))"
    from o p have f: "fs_cwd ?f = cwd" "plain_at ?f s"
      "\<And>k. \<not> prefix root k \<Longrightarrow> node_at ?f k = node_at (w_fs w) k \<or> node_at (w_fs w) k = None \<and> node_at ?f k = Some Dir \<and> prefix k root"
      by (auto simp: outside_def)
    from f(3) [OF assms(2)] p have "node_at ?f rk = Some n" by auto
    moreover from f(3) [OF assms(3)] p have "plain_at ?f dk" by (auto simp: plain_at_def)
    ultimately show "fs_cwd ?f = cwd \<and> node_at ?f rk = Some n \<and> plain_at ?f dk \<and> plain_at ?f s"
      using f by simp
  qed
qed

lemma raw_kept_db:
  "moves (raw_kept cwd rk dk s n) (query q)" "moves (raw_kept cwd rk dk s n) (exec g)"
  by (rule rawk.moves_query, simp add: raw_kept_def) (rule rawk.moves_exec, simp add: raw_kept_def)

lemma raw_kept_store:
  assumes "abs_key cwd (path_join (decoded_dir (de_cfg e)) rid) = dk" "dk \<noteq> rk"
  shows "keeps_err (raw_kept cwd rk dk s n) (store_decoded e rid report decoded sig)"
  unfolding store_decoded_def
  by (intro rawk.err_bind rawk.moves_context rawk.moves_pure raw_kept_create raw_kept_write [OF assms]
      raw_kept_db rawk.err_last)

text \<open>The pipeline after the row is loaded.\<close>

definition decode_row :: "'n decoder_env \<Rightarrow> ustr \<Rightarrow> report_row \<Rightarrow> (anyhow, ustr) io" where
  "decode_row e rid report =
     bindE (context_io (lit ''reading raw payload'')
       (fs_get (\<lambda>fs. fs_read fs (path_join (raw_dir (de_cfg e)) rid)))) (\<lambda>raw.
     bindE (lift_result (parse_encoding (rp_payload_encoding report))) (\<lambda>encoding.
     bindE (lift_result (Payload.decode (de_payload e) raw encoding)) (\<lambda>text.
     bindE (attempt (ensure_kernel (de_sym e) (de_pool e) (rp_version report) (rp_target report)
         (rp_kernel_buildid report))) (\<lambda>dir w.
     let decoded = decoded_text e (w_fs w) (ok dir) (rp_kernel_buildid report) text;
         sig = classify e (rp_kind report) decoded in
     store_decoded e rid report decoded sig w))))"

lemma decode_report_row:
  "decode_report e rid =
     bindE (context_io (lit ''loading report'') (fetch_one (\<lambda>db. lookup_by rp_id rid (db_reports db)))) (decode_row e rid)"
  unfolding decode_report_def decode_row_def ..

lemma fetch_one_run:
  "\<lbrakk>f (w_db w) = Some x; w_faults w = []\<rbrakk> \<Longrightarrow> fetch_one f w = (Inr x, w)"
  by (cases w) (simp add: fetch_one_def select_def query_def bindE_def ret_def)

text \<open>A run whose statements and reads succeed comes down to its last half.\<close>

lemma decode_report_run:
  assumes row: "lookup_by rp_id rid (db_reports (w_db w)) = Some row" and faults: "w_faults w = []"
    and raw: "fs_read (w_fs w) (path_join (raw_dir (de_cfg e)) rid) = Some raw"
    and enc: "parse_encoding (rp_payload_encoding row) = Inr enc"
    and body: "Payload.decode (de_payload e) raw enc = Inr txt"
    and kernel: "ensure_kernel (de_sym e) (de_pool e) (rp_version row) (rp_target row)
      (rp_kernel_buildid row) w = (dir, w')"
    and decoded: "decoded_text e (w_fs w') (ok dir) (rp_kernel_buildid row) txt = decoded"
  shows "decode_report e rid w = store_decoded e rid row decoded (classify e (rp_kind row) decoded) w'"
  using fetch_one_run [of "\<lambda>db. lookup_by rp_id rid (db_reports db)", OF row faults] raw enc body kernel decoded
  by (simp add: decode_report_row decode_row_def bindE_def context_io_def map_err_def lift_result_def
      fs_get_def os_def attempt_def Let_def)

lemma raw_kept_row:
  assumes dk: "abs_key cwd (path_join (decoded_dir (de_cfg e)) rid) = dk" "dk \<noteq> rk"
    and o: "moves (outside_io cwd root s) (ensure_kernel (de_sym e) (de_pool e) (rp_version row)
       (rp_target row) (rp_kernel_buildid row))"
    and k: "\<not> prefix root rk" "\<not> prefix root dk" "n \<noteq> Dir"
  shows "keeps_err (raw_kept cwd rk dk s n) (decode_row e rid row)"
proof -
  note en = raw_kept_outside [OF o k]
  have st: "keeps_err (raw_kept cwd rk dk s n) (\<lambda>w. store_decoded e rid row (f w) (g w) w)" for f g
    using raw_kept_store [OF dk, of s n row] by (simp add: keeps_err_def)
  show ?thesis unfolding decode_row_def Let_def
    by (intro rawk.err_bind rawk.moves_context rawk.moves_pure rawk.moves_fs_get moves_attempt en st)
qed

subsection \<open>A successful run\<close>

lemma store_decoded_Inr:
  assumes "store_decoded e rid report decoded sig w = (Inr gid, w')"
  obtains fs1 fs2 db1 where
    "fs_create_dir_all (w_fs w) (decoded_dir (de_cfg e)) = Some fs1"
    "fs_write fs1 (path_join (decoded_dir (de_cfg e)) rid) (as_bytes decoded) = Some fs2"
    "upsert_group (new_group (de_id_at e (w_ids w)) sig (rp_kind report) (w_now w) (rp_version report)) (w_db w) = Some (gid, db1)"
    "set_report_decoded gid (w_now w) rid db1 = Some (w_db w')"
    "fs_remove_file fs2 (path_join (raw_dir (de_cfg e)) rid) = Some (w_fs w')"
  using assms unfolding store_decoded_def by (auto simp: io_inv io_basic)

lemma upsert_group_row:
  assumes "upsert_group r db = Some (gid, db')"
  shows "\<exists>g\<in>set (db_groups db'). cg_id g = gid \<and> cg_signature g = cg_signature r"
proof (cases "lookup_by cg_signature (cg_signature r) (db_groups db)")
  case None
  with assms show ?thesis by (auto simp: upsert_group_def split: if_splits)
next
  case (Some old)
  from lookup_by_SomeD [OF Some] have "old \<in> set (db_groups db)" "cg_signature old = cg_signature r" by simp_all
  then have "old\<lparr>cg_last_seen := cg_last_seen r\<rparr> \<in> set (update_where (\<lambda>g. cg_signature g = cg_signature r)
      (\<lambda>g. g\<lparr>cg_last_seen := cg_last_seen r\<rparr>) (db_groups db))"
    by (force simp: update_where_def)
  moreover have "cg_id (old\<lparr>cg_last_seen := cg_last_seen r\<rparr>) = cg_id old"
    "cg_signature (old\<lparr>cg_last_seen := cg_last_seen r\<rparr>) = cg_signature r"
    using lookup_by_SomeD [OF Some] by simp_all
  moreover from assms Some have "gid = cg_id old"
    "db_groups db' = update_where (\<lambda>g. cg_signature g = cg_signature r)
      (\<lambda>g. g\<lparr>cg_last_seen := cg_last_seen r\<rparr>) (db_groups db)"
    by (auto simp: upsert_group_def)
  ultimately show ?thesis by (intro bexI conjI) simp_all
qed

lemma upsert_group_reports: "upsert_group r db = Some (gid, db') \<Longrightarrow> db_reports db' = db_reports db"
  by (auto simp: upsert_group_def split: option.splits if_splits)

lemma set_report_decoded_Some:
  "set_report_decoded gid ts rid db = Some db' \<Longrightarrow> db_groups db' = db_groups db \<and>
     db_reports db' = update_where (\<lambda>r. rp_id r = rid)
       (\<lambda>r. r\<lparr>rp_state := Decoded, rp_group_id := Some gid, rp_raw_deleted_at := Some ts\<rparr>) (db_reports db)"
  by (auto simp: set_report_decoded_def split: if_splits)

definition same_db :: "world \<Rightarrow> world \<Rightarrow> bool" where
  "same_db w w' \<longleftrightarrow> w_db w' = w_db w \<and> w_now w' = w_now w"

interpretation dbk: io_frame_fs same_db
  by unfold_locales (auto simp: same_db_def)

lemma decode_row_Inr:
  assumes "decode_row e rid row w = (Inr gid, w')"
  obtains raw encoding log w1 dir where
    "fs_read (w_fs w) (path_join (raw_dir (de_cfg e)) rid) = Some raw"
    "parse_encoding (rp_payload_encoding row) = Inr encoding"
    "Payload.decode (de_payload e) raw encoding = Inr log"
    "ensure_kernel (de_sym e) (de_pool e) (rp_version row) (rp_target row) (rp_kernel_buildid row) w = (dir, w1)"
    "store_decoded e rid row (decoded_text e (w_fs w1) (ok dir) (rp_kernel_buildid row) log)
       (classify e (rp_kind row) (decoded_text e (w_fs w1) (ok dir) (rp_kernel_buildid row) log)) w1 = (Inr gid, w')"
  using assms unfolding decode_row_def Let_def
  by (auto simp: bindE_Inr fs_get_Inr lift_result_def attempt_def split: prod.splits)

lemma decode_report_cases:
  assumes "decode_report e rid w = (r, w')" "lookup_by rp_id rid (db_reports (w_db w)) = Some row"
  obtains err where "r = Inl err" "w' = w\<lparr>w_faults := tl (w_faults w)\<rparr>"
  | "decode_row e rid row (w\<lparr>w_faults := tl (w_faults w)\<rparr>) = (r, w')"
proof (cases "w_faults w \<noteq> [] \<and> hd (w_faults w)")
  case True
  with assms(1) that(1) show ?thesis
    by (auto simp: decode_report_row bindE_def context_io_def map_err_def fetch_one_def select_def query_def)
next
  case False
  with assms that(2) show ?thesis
    by (auto simp: decode_report_row bindE_def context_io_def map_err_def fetch_one_def select_def query_def ret_def)
qed

text \<open>The keys of a report's files.\<close>

definition raw_key :: "'n decoder_env \<Rightarrow> ustr list \<Rightarrow> ustr \<Rightarrow> ustr list" where
  "raw_key e cwd rid = abs_key cwd (path_join (raw_dir (de_cfg e)) rid)"

definition decoded_key :: "'n decoder_env \<Rightarrow> ustr list \<Rightarrow> ustr \<Rightarrow> ustr list" where
  "decoded_key e cwd rid = abs_key cwd (path_join (decoded_dir (de_cfg e)) rid)"

definition stamp_key :: "'n decoder_env \<Rightarrow> ustr list \<Rightarrow> report_row \<Rightarrow> ustr list" where
  "stamp_key e cwd row = abs_key cwd (kernel_dest (de_pool e) (rp_version row) (rp_target row)) @ [lit ''last_used'']"

text \<open>A deployment as it is meant: a data directory with the pool in it, an id and a target that
  are no absolute paths, and no links at the three places.\<close>

definition plain_layout :: "'n decoder_env \<Rightarrow> ustr \<Rightarrow> report_row \<Rightarrow> file_system \<Rightarrow> bool" where
  "plain_layout e rid row fs \<longleftrightarrow> de_pool e = new_pool (de_cfg e) \<and> data_dir (de_cfg e) \<noteq> [] \<and> plain_name rid
     \<and> \<not> is_absolute (rp_version row) \<and> \<not> is_absolute (rp_target row)
     \<and> plain_at fs (decoded_key e (fs_cwd fs) rid) \<and> plain_at fs (stamp_key e (fs_cwd fs) row)"

lemma layout_keys:
  assumes "data_dir (de_cfg e) \<noteq> []" "plain_name rid"
  shows "raw_key e cwd rid = abs_key cwd (data_dir (de_cfg e)) @ [lit ''raw'', rid]"
    "decoded_key e cwd rid = abs_key cwd (data_dir (de_cfg e)) @ [lit ''decoded'', rid]"
    "abs_key cwd (symbols_dir (de_cfg e)) = abs_key cwd (data_dir (de_cfg e)) @ [lit ''symbols'']"
  using report_file_keys [OF assms, of "\<lparr>fs_cwd = cwd, fs_nodes = [], fs_denied = (\<lambda>_. False)\<rparr>"]
    dir_keys(3) [OF assms(1), of "\<lparr>fs_cwd = cwd, fs_nodes = [], fs_denied = (\<lambda>_. False)\<rparr>"]
  by (simp_all add: path_key_abs raw_key_def decoded_key_def del: lit_Cons)

lemma ensure_frames:
  assumes laws: "unpack_law (de_sym e)" "hex_ids (de_sym e)" and l: "plain_layout e rid row fs"
  shows "moves (outside_io cwd (abs_key cwd (symbols_dir (de_cfg e))) (stamp_key e cwd row))
    (ensure_kernel (de_sym e) (de_pool e) (rp_version row) (rp_target row) (rp_kernel_buildid row))"
proof -
  from l have pool: "sp_dir (de_pool e) = symbols_dir (de_cfg e)" by (simp add: plain_layout_def new_pool_def)
  have "sp_dir (de_pool e) \<noteq> []" by (simp add: pool)
  from ensure_kernel_outside [OF laws this _ _ stamp_key_def, of row cwd] l pool show ?thesis
    by (simp add: plain_layout_def)
qed

lemma layout_distinct:
  assumes "data_dir (de_cfg e) \<noteq> []" "plain_name rid"
  shows "decoded_key e cwd rid \<noteq> raw_key e cwd rid"
    "\<not> prefix (abs_key cwd (symbols_dir (de_cfg e))) (raw_key e cwd rid)"
    "\<not> prefix (abs_key cwd (symbols_dir (de_cfg e))) (decoded_key e cwd rid)"
  by (simp_all add: layout_keys [OF assms])

subsection \<open>Properties\<close>

text \<open>The files after a successful end: the text is there, the raw payload is not.\<close>

lemma stored_files:
  assumes cwd: "fs_cwd fs = cwd" and pl: "plain_at fs (decoded_key e cwd rid)"
    and l: "data_dir (de_cfg e) \<noteq> []" "plain_name rid"
    and c: "fs_create_dir_all fs (decoded_dir (de_cfg e)) = Some fs1"
    and wr: "fs_write fs1 (path_join (decoded_dir (de_cfg e)) rid) d = Some fs2"
    and rm: "fs_remove_file fs2 (path_join (raw_dir (de_cfg e)) rid) = Some fs3"
  shows "node_at fs3 (raw_key e cwd rid) = None \<and> fs_read fs3 (path_join (decoded_dir (de_cfg e)) rid) = Some d"
proof -
  from c have m: "make_dirs fs [] (path_key fs (decoded_dir (de_cfg e))) = Some fs1"
    by (simp add: fs_create_dir_all_def)
  have cwd1: "fs_cwd fs1 = cwd" using make_dirs_frame [OF m] cwd by simp
  have pk: "path_key f (path_join (decoded_dir (de_cfg e)) rid) = decoded_key e cwd rid"
    "path_key f (path_join (raw_dir (de_cfg e)) rid) = raw_key e cwd rid" if "fs_cwd f = cwd" for f
    using that by (simp_all add: path_key_abs decoded_key_def raw_key_def)
  have "plain_at fs1 (path_key fs1 (path_join (decoded_dir (de_cfg e)) rid))"
    using plain_at_make_dirs [OF m pl] pk(1) [OF cwd1] by simp
  with wr pk(1) [OF cwd1] have f2: "fs2 = set_node fs1 (decoded_key e cwd rid) (File d)"
    by (auto simp: fs_write_plain Let_def split: if_splits)
  with cwd1 have cwd2: "fs_cwd fs2 = cwd" by simp
  with rm pk(2) [OF cwd2] have f3: "fs3 = drop_node fs2 (raw_key e cwd rid)"
    by (auto simp: fs_remove_file_def Let_def split: if_splits)
  with cwd2 have cwd3: "fs_cwd fs3 = cwd" by simp
  have "node_at fs3 (decoded_key e cwd rid) = Some (File d)"
    using f2 f3 layout_distinct(1) [OF l] by simp
  with f3 pk(1) [OF cwd3] show ?thesis by (simp add: fs_read_plain plain_at_def)
qed

text \<open>What a successful run has done, for a report in a plain layout.\<close>

definition stored_as :: "'n decoder_env \<Rightarrow> ustr \<Rightarrow> report_row \<Rightarrow> byte list \<Rightarrow> ustr \<Rightarrow> world \<Rightarrow> world \<Rightarrow> bool" where
  "stored_as e rid row raw gid w w' \<longleftrightarrow>
     (\<exists>encoding log dir fs1 decoded g. parse_encoding (rp_payload_encoding row) = Inr encoding
        \<and> Payload.decode (de_payload e) raw encoding = Inr log
        \<and> decoded = decoded_text e fs1 dir (rp_kernel_buildid row) log
        \<and> fs_read (w_fs w') (path_join (decoded_dir (de_cfg e)) rid) = Some (as_bytes decoded)
        \<and> lookup_by rp_id rid (db_reports (w_db w')) =
            Some (row\<lparr>rp_state := Decoded, rp_group_id := Some gid, rp_raw_deleted_at := Some (w_now w)\<rparr>)
        \<and> g \<in> set (db_groups (w_db w')) \<and> cg_id g = gid
        \<and> cg_signature g = cs_signature (classify e (rp_kind row) decoded))"

lemma store_decoded_rows:
  assumes st: "store_decoded e rid row d (classify e (rp_kind row) d) w = (Inr gid, w')"
    and row: "lookup_by rp_id rid (db_reports (w_db w)) = Some row"
  shows "lookup_by rp_id rid (db_reports (w_db w')) =
      Some (row\<lparr>rp_state := Decoded, rp_group_id := Some gid, rp_raw_deleted_at := Some (w_now w)\<rparr>)"
    and "\<exists>g\<in>set (db_groups (w_db w')). cg_id g = gid \<and> cg_signature g = cs_signature (classify e (rp_kind row) d)"
proof -
  from st obtain db1 where
    u: "upsert_group (new_group (de_id_at e (w_ids w)) (classify e (rp_kind row) d) (rp_kind row)
       (w_now w) (rp_version row)) (w_db w) = Some (gid, db1)"
    and sd: "set_report_decoded gid (w_now w) rid db1 = Some (w_db w')"
    by (rule store_decoded_Inr)
  note sd' = set_report_decoded_Some [OF sd]
  show "lookup_by rp_id rid (db_reports (w_db w')) =
      Some (row\<lparr>rp_state := Decoded, rp_group_id := Some gid, rp_raw_deleted_at := Some (w_now w)\<rparr>)"
    using sd' upsert_group_reports [OF u] row lookup_by_SomeD [OF row] by (simp add: lookup_update_where)
  from upsert_group_row [OF u] sd'
  show "\<exists>g\<in>set (db_groups (w_db w')). cg_id g = gid \<and> cg_signature g = cs_signature (classify e (rp_kind row) d)"
    by (auto simp: new_group_def)
qed

lemma decode_row_stored:
  assumes laws: "unpack_law (de_sym e)" "hex_ids (de_sym e)"
    and layout: "plain_layout e rid row (w_fs w)"
    and row: "lookup_by rp_id rid (db_reports (w_db w)) = Some row"
    and raw: "node_at (w_fs w) (raw_key e (fs_cwd (w_fs w)) rid) = Some (File raw)"
    and run: "decode_row e rid row w = (Inr gid, w')"
  shows "node_at (w_fs w') (raw_key e (fs_cwd (w_fs w)) rid) = None" and "stored_as e rid row raw gid w w'"
proof -
  let ?cwd = "fs_cwd (w_fs w)"
  let ?rk = "raw_key e ?cwd rid" let ?dk = "decoded_key e ?cwd rid" let ?s = "stamp_key e ?cwd row"
  from layout have l: "data_dir (de_cfg e) \<noteq> []" "plain_name rid" "plain_at (w_fs w) ?dk" "plain_at (w_fs w) ?s"
    by (simp_all add: plain_layout_def)
  note apart = layout_distinct [OF l(1,2), of ?cwd]
  note frame = ensure_frames [OF laws layout, of ?cwd]
  from run obtain raw' encoding log w1 dir where
    rd: "fs_read (w_fs w) (path_join (raw_dir (de_cfg e)) rid) = Some raw'"
    and de: "parse_encoding (rp_payload_encoding row) = Inr encoding" "Payload.decode (de_payload e) raw' encoding = Inr log"
    and en: "ensure_kernel (de_sym e) (de_pool e) (rp_version row) (rp_target row) (rp_kernel_buildid row) w = (dir, w1)"
    and st: "store_decoded e rid row (decoded_text e (w_fs w1) (ok dir) (rp_kernel_buildid row) log)
      (classify e (rp_kind row) (decoded_text e (w_fs w1) (ok dir) (rp_kernel_buildid row) log)) w1 = (Inr gid, w')"
    by (rule decode_row_Inr)
  have [simp]: "raw' = raw" using rd raw
    by (simp add: fs_read_plain path_key_abs raw_key_def [symmetric] plain_at_def)
  have "outside ?cwd (abs_key ?cwd (symbols_dir (de_cfg e))) ?s (w_fs w) (w_fs w1)"
    using movesD [OF frame en] by (simp add: outside_io_def)
  moreover have "raw_kept ?cwd ?rk ?dk ?s (File raw) w w1"
    by (rule movesD [OF raw_kept_outside [OF frame apart(2,3)] en]) simp
  ultimately have w1: "fs_cwd (w_fs w1) = ?cwd" "plain_at (w_fs w1) ?dk"
    using l raw by (simp_all add: raw_kept_def)
  have db: "w_db w1 = w_db w" "w_now w1 = w_now w"
    using movesD [OF dbk.moves_ensure en] by (simp_all add: same_db_def)
  from st obtain fs1 fs2 where
    "fs_create_dir_all (w_fs w1) (decoded_dir (de_cfg e)) = Some fs1"
    "fs_write fs1 (path_join (decoded_dir (de_cfg e)) rid)
      (as_bytes (decoded_text e (w_fs w1) (ok dir) (rp_kernel_buildid row) log)) = Some fs2"
    "fs_remove_file fs2 (path_join (raw_dir (de_cfg e)) rid) = Some (w_fs w')"
    by (rule store_decoded_Inr)
  note files = stored_files [OF w1 l(1,2) this]
  then show "node_at (w_fs w') ?rk = None" by simp
  note rows = store_decoded_rows [OF st, unfolded db, OF row]
  then show "stored_as e rid row raw gid w w'"
    using files de unfolding stored_as_def by auto
qed

lemma decode_error_keeps_raw:
  assumes laws: "unpack_law (de_sym e)" "hex_ids (de_sym e)"
    and run: "decode_report e rid w = (Inl err, w')"
    and row: "lookup_by rp_id rid (db_reports (w_db w)) = Some row"
    and layout: "plain_layout e rid row (w_fs w)"
    and raw: "node_at (w_fs w) (raw_key e (fs_cwd (w_fs w)) rid) = Some (File raw)"
  shows "node_at (w_fs w') (raw_key e (fs_cwd (w_fs w)) rid) = Some (File raw)"
proof (cases rule: decode_report_cases [OF run row])
  case (1 err)
  with raw show ?thesis by simp
next
  case 2
  let ?cwd = "fs_cwd (w_fs w)"
  from layout have l: "data_dir (de_cfg e) \<noteq> []" "plain_name rid"
    "plain_at (w_fs w) (decoded_key e ?cwd rid)" "plain_at (w_fs w) (stamp_key e ?cwd row)"
    by (simp_all add: plain_layout_def)
  note apart = layout_distinct [OF l(1,2), of ?cwd]
  have "keeps_err (raw_kept ?cwd (raw_key e ?cwd rid) (decoded_key e ?cwd rid) (stamp_key e ?cwd row) (File raw))
      (decode_row e rid row)"
    by (rule raw_kept_row [OF decoded_key_def [symmetric] apart(1) ensure_frames [OF laws layout] apart(2,3)]) simp
  with 2 raw l show ?thesis by (auto simp: keeps_err_def raw_kept_def)
qed

lemma decode_success_stores:
  assumes laws: "unpack_law (de_sym e)" "hex_ids (de_sym e)"
    and run: "decode_report e rid w = (Inr gid, w')"
    and row: "lookup_by rp_id rid (db_reports (w_db w)) = Some row"
    and layout: "plain_layout e rid row (w_fs w)"
    and raw: "node_at (w_fs w) (raw_key e (fs_cwd (w_fs w)) rid) = Some (File raw)"
  shows "node_at (w_fs w') (raw_key e (fs_cwd (w_fs w)) rid) = None \<and> stored_as e rid row raw gid w w'"
proof (cases rule: decode_report_cases [OF run row])
  case 2
  with decode_row_stored [OF laws, where w = "w\<lparr>w_faults := tl (w_faults w)\<rparr>" and w' = w'] layout row raw
  show ?thesis by (simp add: stored_as_def)
qed simp

text \<open>C4. The raw payload of a report is deleted only when everything else is done. If decoding
  fails, at whatever step, the raw payload is still there, unchanged. If it succeeds, the raw
  payload is gone, and the scrubbed text of exactly that payload is on disk, the report is
  marked as decoded and belongs to the group with the signature of that text.\<close>

theorem raw_deleted_only_when_stored:
  assumes laws: "unpack_law (de_sym e)" "hex_ids (de_sym e)"
    and run: "decode_report e rid w = (r, w')"
    and row: "lookup_by rp_id rid (db_reports (w_db w)) = Some row"
    and layout: "plain_layout e rid row (w_fs w)"
    and raw: "node_at (w_fs w) (raw_key e (fs_cwd (w_fs w)) rid) = Some (File raw)"
  shows "case r of
      Inl err \<Rightarrow> node_at (w_fs w') (raw_key e (fs_cwd (w_fs w)) rid) = Some (File raw)
    | Inr gid \<Rightarrow> node_at (w_fs w') (raw_key e (fs_cwd (w_fs w)) rid) = None
        \<and> stored_as e rid row raw gid w w'"
proof (cases r)
  case (Inl err)
  with decode_error_keeps_raw [OF laws _ row layout raw] run show ?thesis by simp
next
  case (Inr gid)
  with decode_success_stores [OF laws _ row layout raw] run show ?thesis by simp
qed

end
