(* ===== verification/Server_Frame.thy ===== *)
theory Server_Frame
  imports Server
begin

text \<open>
  The handlers of the server, as compositions of the statements they send. A relation between
  worlds that every statement keeps is kept by every handler; the locale \<open>server_frame\<close> says
  which statements that are for all handlers but the four that set the visibility, and
  \<open>server_frame_all\<close> adds those of the four.
\<close>

locale server_frame = io_frame_fs P for P :: "world \<Rightarrow> world \<Rightarrow> bool" +
  assumes P_report: "insert_report r (w_db w) = Some db \<Longrightarrow> rp_publish_slug r = None \<Longrightarrow>
      rp_visibility r = Private \<Longrightarrow> rp_state r = Received \<Longrightarrow> rp_group_id r = None \<Longrightarrow> P w (w\<lparr>w_db := db\<rparr>)"
    and P_job: "insert_job j (w_db w) = Some db \<Longrightarrow> P w (w\<lparr>w_db := db\<rparr>)"
    and P_device: "upsert_device d (w_db w) = Some (x, db) \<Longrightarrow> P w (w\<lparr>w_db := db\<rparr>)"
    and P_token: "issue_token h dev t (w_db w) = Some db \<Longrightarrow> P w (w\<lparr>w_db := db\<rparr>)"
    and P_session: "issue_session h user t (w_db w) = Some db \<Longrightarrow> P w (w\<lparr>w_db := db\<rparr>)"
    and P_user: "insert_user u (w_db w) = Some db \<Longrightarrow> P w (w\<lparr>w_db := db\<rparr>)"
    and P_logout: "P w (w\<lparr>w_db := delete_session h (w_db w)\<rparr>)"
    and P_cleanup: "P w (w\<lparr>w_db := delete_tokens t (w_db w)\<rparr>)" "P w (w\<lparr>w_db := delete_sessions t (w_db w)\<rparr>)"
begin

lemmas pieces = moves_bind moves_map_err moves_pure moves_if moves_option moves_sum moves_prod moves_select moves_fs

lemma moves_dev: "moves P (from_request_parts e cookies)"
  unfolding from_request_parts_def by (intro pieces)

lemma moves_login: "moves P (login e l pw)"
  unfolding login_def new_secret_def by (intro pieces moves_exec P_session)

lemma moves_create_user: "moves P (create_user e l)"
  unfolding create_user_def hash_password_def new_secret_def Let_def
  by (intro pieces moves_exec P_user)

lemma moves_authenticate: "moves P (authenticate_device e h body)"
  unfolding authenticate_device_def new_id_def by (intro pieces moves_query P_device)

lemma moves_inserts:
  "moves P (exec (insert_report (new_report e rid d ts meta)))" "moves P (exec (insert_job j))"
  by (rule moves_exec, erule P_report; simp add: new_report_def) (rule moves_exec, erule P_job)

lemma moves_store: "moves P (store_report e rid d meta payload)"
  unfolding store_report_def new_id_def by (intro pieces moves_inserts)

lemma moves_post: "moves P (post_report e h body)"
  unfolding post_report_def new_id_def by (intro pieces moves_authenticate moves_store)

lemma moves_answer: "moves P (answer_challenge e key pubkey signature nonce)"
  unfolding answer_challenge_def new_secret_def by (intro pieces moves_exec P_token)

lemma moves_require: "moves P (require_device e h)"
proof -
  have "P w (snd (device_from_bearer e h w))" for w
  proof (cases "Option.bind (h (lit ''authorization'')) (strip_prefix (lit ''Bearer ''))")
    case None
    then show ?thesis by (simp add: device_from_bearer_def P_refl del: lit_Cons)
  next
    case (Some token)
    obtain r w' where s: "select (select_token (token_hash e token) (w_now w)) w = (r, w')" by fastforce
    from movesD [OF moves_select s] Some s show ?thesis
      by (cases r) (simp_all add: device_from_bearer_def del: lit_Cons)
  qed
  then show ?thesis by (simp add: moves_def require_device_def split_beta)
qed

lemma moves_my_reports: "moves P (my_reports e h)"
  unfolding my_reports_def by (intro pieces moves_require)

lemma moves_owned: "moves P (owned_report e h rid)"
  unfolding owned_report_def by (intro pieces moves_require)

lemma moves_read: "moves P (\<lambda>w. (f w, w))"
  by (simp add: moves_def P_refl)

lemma moves_detail: "moves P (my_report_detail e h rid)"
  unfolding my_report_detail_def by (intro pieces moves_owned moves_read)

lemma moves_respond: "moves P m \<Longrightarrow> P w (snd (respond m w))"
  by (auto simp: respond_def moves_def split: prod.split sum.split) (metis snd_conv)+

lemma moves_api: "moves P m \<Longrightarrow> P w (snd (api m w))"
  unfolding api_def by (intro moves_respond moves_map_err)

lemma moves_api_json: "moves P m \<Longrightarrow> P w (snd (api_json m w))"
  unfolding api_json_def by (intro moves_api pieces)

lemma moves_groups: "moves P (query_groups e window kind version target)"
  unfolding query_groups_def by (intro pieces)

lemma moves_groups_json: "P w (snd (groups_json e cookies q w))"
  unfolding groups_json_def by (intro moves_respond pieces moves_dev moves_groups)

lemma moves_groups_page: "P w (snd (groups e cookies q w))"
  unfolding groups_def Let_def by (intro moves_respond pieces moves_dev moves_groups)

lemma moves_three:
  assumes "moves P a" "moves P b" "moves P c"
  shows "moves P (all_three a b c)"
  unfolding moves_def
proof
  fix w
  obtain ra w1 rb w2 rc w3 where r: "a w = (ra, w1)" "b w1 = (rb, w2)" "c w2 = (rc, w3)"
    by (metis prod.exhaust)
  from movesD [OF assms(1) r(1)] movesD [OF assms(2) r(2)] movesD [OF assms(3) r(3)]
  have "P w w3" using P_trans by blast
  with r show "P w (snd (all_three a b c w))"
    by (auto simp: all_three_def split: sum.split)
qed

lemma moves_group_page: "P w (snd (group_detail e cookies g w))"
  unfolding group_detail_def breakdown_def by (intro moves_respond pieces moves_dev moves_three)

lemma moves_report_page: "P w (snd (report_view e cookies rid w))"
  unfolding report_view_def by (intro moves_respond pieces moves_dev moves_read)

lemma moves_public_page: "P w (snd (public_report e slug w))"
  unfolding public_report_def by (intro moves_respond pieces moves_read)

lemma moves_login_post: "P w (snd (login_post e l pw w))"
  using moves_login [of e l pw] unfolding moves_def login_post_def
  by (auto split: prod.split sum.split option.split) (metis snd_conv)+

lemma moves_logout: "P w (snd (logout_post e cookies w))"
  unfolding logout_post_def logout_def snd_conv
  by (auto split: option.split intro: ignoring_moves moves_update P_logout P_refl)

lemma moves_cleanup: "P w (cleanup w)"
proof -
  have "P w (ignoring (update_db (delete_sessions (w_now w))) w)"
    by (intro ignoring_moves moves_update P_cleanup)
  moreover have "P v (ignoring (update_db (delete_tokens t)) v)" for v t
    by (intro ignoring_moves moves_update P_cleanup)
  ultimately show ?thesis unfolding cleanup_def using P_trans by blast
qed

lemma moves_challenge: "P w (snd (device_challenge e pubkey now n w))"
proof (cases "from_base64 (sv_usign e) pubkey")
  case (Inr key)
  obtain r w1 where s: "internal (select (select_device pubkey)) w = (r, w1)" by fastforce
  have "moves P (internal (select (select_device pubkey)))" by (intro pieces)
  from movesD [OF this s] have m: "P w w1" .
  have "P w1 (w1\<lparr>w_ids := Suc (w_ids w1)\<rparr>)" by (rule P_ids)
  moreover have "P (w1\<lparr>w_ids := Suc (w_ids w1)\<rparr>) (w1\<lparr>w_ids := w_ids w1 + 2\<rparr>)"
    using P_ids [of "w1\<lparr>w_ids := Suc (w_ids w1)\<rparr>"] by simp
  ultimately have "P w (w1\<lparr>w_ids := w_ids w1 + 2\<rparr>)" using m P_trans by blast
  with Inr s m show ?thesis
    by (auto simp: device_challenge_def Let_def split: sum.split option.split)
qed (simp add: device_challenge_def P_refl)

lemma moves_device_login: "P w (snd (device_login e pubkey signature now n w))"
  using moves_answer [of e _ pubkey signature] unfolding device_login_def moves_def
  by (auto simp: P_refl split: sum.split prod.split option.split) (metis snd_conv)

lemma kept:
  "(\<And>w. P w (snd (m w))) \<Longrightarrow> P (snd st) (snd (snd (keep_nonces m st)))"
  "P (snd st) (snd (snd (fixed r st)))"
  "(\<And>n w. P w (snd (f n w))) \<Longrightarrow> P (snd st) (snd (snd (with_nonces f st)))"
  "(\<And>y st. P (snd st) (snd (snd (g y st)))) \<Longrightarrow> P (snd st) (snd (snd (extracted v g st)))"
  by (auto simp: keep_nonces_def fixed_def with_nonces_def extracted_def P_refl split: prod.split sum.split)
    (metis snd_conv)+

lemma moves_handle:
  assumes "ep \<notin> {My_Publish, My_Unpublish, Publish, Unpublish}"
  shows "P (snd st) (snd (snd (handle e x now q ep i st)))"
  using assms
  by (cases ep) (auto intro!: kept moves_api moves_api_json moves_post moves_my_reports moves_detail
      moves_groups_json moves_groups_page moves_group_page moves_report_page moves_public_page
      moves_login_post moves_logout moves_challenge moves_device_login split: prod.split)

end

locale server_frame_all = server_frame +
  assumes P_public: "set_public slug rid (w_db w) = Some db \<Longrightarrow> P w (w\<lparr>w_db := db\<rparr>)"
    and P_private: "P w (w\<lparr>w_db := set_private rid (w_db w)\<rparr>)"
begin

lemma moves_visibility: "moves P (set_visibility e rid public)"
  unfolding set_visibility_def new_secret_def
  by (intro pieces moves_exec moves_update P_public P_private)

lemma moves_mine: "moves P (my_set_visibility e h rid public)"
  unfolding my_set_visibility_def by (intro pieces moves_owned moves_visibility)

lemma moves_change: "P w (snd (change_visibility e cookies rid public w))"
  unfolding change_visibility_def by (intro moves_respond pieces moves_dev moves_visibility)

lemma moves_serve: "P (snd st) (snd (snd (serve e x now q st)))"
proof -
  have "P (snd st) (snd (snd (handle e x now q ep i st)))" for ep i
  proof (cases "ep \<in> {My_Publish, My_Unpublish, Publish, Unpublish}")
    case True
    then show ?thesis
      by (auto simp: my_publish_def my_unpublish_def publish_def unpublish_def
          intro!: kept moves_api_json moves_mine moves_change)
  qed (rule moves_handle)
  then show ?thesis by (auto simp: serve_def intro: kept(2) split: option.split)
qed

end

end
