(* ===== verification/Deployment.thy ===== *)
theory Deployment
  imports Server_Frame Decode_Queue
begin

text \<open>
  The database under the whole deployment: what the schema and the handlers keep true of the
  tables, whatever requests come in, whatever the decoder and the periodic tasks do, and
  whichever statements fail. Every operation is composed of statements that keep the
  invariant; the frame rules of \<open>io_frame_fs\<close> do the composing.
\<close>

subsection \<open>The invariant\<close>

definition keys_ok :: "database \<Rightarrow> bool" where
  "keys_ok db \<longleftrightarrow>
     keyed dv_id (db_devices db) \<and> keyed dv_pubkey (db_devices db) \<and>
     keyed cg_id (db_groups db) \<and> keyed cg_signature (db_groups db) \<and>
     keyed rp_id (db_reports db) \<and> keyed us_id (db_users db) \<and> keyed us_login (db_users db) \<and>
     keyed tk_hash (db_tokens db) \<and> keyed ss_hash (db_sessions db) \<and> keyed jb_id (db_jobs db)"

definition report_ok :: "database \<Rightarrow> report_row \<Rightarrow> bool" where
  "report_ok db r \<longleftrightarrow>
     (rp_visibility r = Public \<longleftrightarrow> rp_publish_slug r \<noteq> None) \<and>
     (rp_state r = Decoded \<longrightarrow> rp_group_id r \<noteq> None \<and> rp_raw_deleted_at r \<noteq> None) \<and>
     (\<forall>g. rp_group_id r = Some g \<longrightarrow> references cg_id g (db_groups db)) \<and>
     (\<forall>d. rp_device_id r = Some d \<longrightarrow> references dv_id d (db_devices db))"

definition slugs_ok :: "report_row list \<Rightarrow> bool" where
  "slugs_ok rs \<longleftrightarrow> (\<forall>r\<in>set rs. \<forall>r'\<in>set rs.
     rp_publish_slug r \<noteq> None \<and> rp_publish_slug r' = rp_publish_slug r \<longrightarrow> rp_id r' = rp_id r)"

definition refs_ok :: "database \<Rightarrow> bool" where
  "refs_ok db \<longleftrightarrow>
     (\<forall>t\<in>set (db_tokens db). references dv_id (tk_device_id t) (db_devices db)) \<and>
     (\<forall>s\<in>set (db_sessions db). references us_id (ss_user_id s) (db_users db)) \<and>
     (\<forall>j\<in>set (db_jobs db). references rp_id (jb_report_id j) (db_reports db))"

definition db_ok :: "database \<Rightarrow> bool" where
  "db_ok db \<longleftrightarrow> keys_ok db \<and> refs_ok db \<and> slugs_ok (db_reports db) \<and>
     (\<forall>r\<in>set (db_reports db). report_ok db r)"

lemmas db_ok_defs = db_ok_def keys_ok_def refs_ok_def

lemma references_update [simp]:
  "(\<And>r. key (f r) = key r) \<Longrightarrow> references key k (update_where P f t) = references key k t"
  by (simp add: references_def lookup_update_where)

lemma keyed_insert [simp]: "keyed key (t @ [r]) \<longleftrightarrow> keyed key t \<and> \<not> references key (key r) t"
  by (auto simp: keyed_append references_def)

lemma slugs_okI:
  assumes "\<And>r r' s. r \<in> set rs \<Longrightarrow> r' \<in> set rs \<Longrightarrow> rp_publish_slug r = Some s \<Longrightarrow> rp_publish_slug r' = Some s \<Longrightarrow>
     rp_id r' = rp_id r"
  shows "slugs_ok rs"
  unfolding slugs_ok_def
proof (intro ballI impI)
  fix r r'
  assume r: "r \<in> set rs" "r' \<in> set rs" "rp_publish_slug r \<noteq> None \<and> rp_publish_slug r' = rp_publish_slug r"
  then obtain s where "rp_publish_slug r = Some s" "rp_publish_slug r' = Some s" by auto
  with r(1,2) show "rp_id r' = rp_id r" by (rule assms)
qed

lemma slugs_okD:
  "slugs_ok rs \<Longrightarrow> r \<in> set rs \<Longrightarrow> r' \<in> set rs \<Longrightarrow> rp_publish_slug r = Some s \<Longrightarrow> rp_publish_slug r' = Some s \<Longrightarrow>
     rp_id r' = rp_id r"
  unfolding slugs_ok_def by (drule bspec, assumption, drule bspec, assumption) simp

lemma slugs_append: "slugs_ok rs \<Longrightarrow> rp_publish_slug r = None \<Longrightarrow> slugs_ok (rs @ [r])"
  by (rule slugs_okI) (auto dest: slugs_okD)

lemma slugs_update:
  assumes "slugs_ok rs" "\<And>r. rp_id (f r) = rp_id r"
    and "\<And>r s. P r \<Longrightarrow> rp_publish_slug (f r) = Some s \<Longrightarrow> rp_publish_slug r = Some s"
  shows "slugs_ok (update_where P f rs)"
proof (rule slugs_okI)
  fix r r' s
  assume r: "r \<in> set (update_where P f rs)" "r' \<in> set (update_where P f rs)"
    "rp_publish_slug r = Some s" "rp_publish_slug r' = Some s"
  have old: "\<exists>x0\<in>set rs. rp_id x0 = rp_id x \<and> rp_publish_slug x0 = Some s"
    if "x \<in> set (update_where P f rs)" "rp_publish_slug x = Some s" for x
    using that assms(2,3) by (auto simp: set_update_where split: if_splits)
  from old [OF r(1,3)] old [OF r(2,4)] show "rp_id r' = rp_id r"
    using slugs_okD [OF assms(1)] by metis
qed

subsection \<open>The statements\<close>

lemma insert_user_ok: "db_ok db \<Longrightarrow> insert_user r db = Some db' \<Longrightarrow> db_ok db'"
  by (auto simp: insert_user_def db_ok_defs report_ok_def split: if_splits)

lemma insert_token_ok: "db_ok db \<Longrightarrow> insert_token r db = Some db' \<Longrightarrow> db_ok db'"
  by (auto simp: insert_token_def db_ok_defs report_ok_def split: if_splits)

lemma insert_session_ok: "db_ok db \<Longrightarrow> insert_session r db = Some db' \<Longrightarrow> db_ok db'"
  by (auto simp: insert_session_def db_ok_defs report_ok_def split: if_splits)

lemma insert_job_ok: "db_ok db \<Longrightarrow> insert_job r db = Some db' \<Longrightarrow> db_ok db'"
  by (auto simp: insert_job_def db_ok_defs report_ok_def split: if_splits)

lemma lookup_references: "lookup_by key k t = None \<longleftrightarrow> \<not> references key k t"
  by (simp add: references_def)

lemma upsert_device_ok: "db_ok db \<Longrightarrow> upsert_device r db = Some (x, db') \<Longrightarrow> db_ok db'"
  by (auto simp: upsert_device_def db_ok_defs report_ok_def lookup_references
      split: if_splits option.splits)

lemma upsert_group_ok: "db_ok db \<Longrightarrow> upsert_group r db = Some (x, db') \<Longrightarrow> db_ok db'"
  by (auto simp: upsert_group_def db_ok_defs report_ok_def lookup_references
      split: if_splits option.splits)

lemma insert_report_ok:
  assumes "db_ok db" "insert_report r db = Some db'" "rp_publish_slug r = None"
    "rp_visibility r = Private" "rp_state r = Received" "rp_group_id r = None"
  shows "db_ok db'"
  using assms
  by (auto simp: insert_report_def db_ok_defs report_ok_def slugs_append split: if_splits option.splits)

text \<open>An update of the reports that keeps the ids.\<close>

lemma update_reports_ok:
  assumes "db_ok db" "\<And>r. rp_id (f r) = rp_id r"
    and "\<And>r. r \<in> set (db_reports db) \<Longrightarrow> P r \<Longrightarrow> report_ok db (f r)"
    and "slugs_ok (update_where P f (db_reports db))"
  shows "db_ok (db\<lparr>db_reports := update_where P f (db_reports db)\<rparr>)"
proof -
  have "report_ok (db\<lparr>db_reports := rs\<rparr>) r = report_ok db r" for rs r by (simp add: report_ok_def)
  with assms show ?thesis by (auto simp: db_ok_defs set_update_where)
qed

lemma db_ok_slugs: "db_ok db \<Longrightarrow> slugs_ok (db_reports db)"
  by (simp add: db_ok_def)

lemma db_ok_report: "db_ok db \<Longrightarrow> r \<in> set (db_reports db) \<Longrightarrow> report_ok db r"
  by (simp add: db_ok_def)

lemma mark_raw_deleted_ok: "db_ok db \<Longrightarrow> db_ok (mark_raw_deleted ts rid db)"
  unfolding mark_raw_deleted_def
  by (rule update_reports_ok) (auto simp: report_ok_def dest: db_ok_report intro: slugs_update db_ok_slugs)

lemma set_report_failed_ok: "db_ok db \<Longrightarrow> db_ok (set_report_failed rid db)"
  unfolding set_report_failed_def
  by (rule update_reports_ok) (auto simp: report_ok_def dest: db_ok_report intro: slugs_update db_ok_slugs)

lemma set_report_decoded_ok:
  assumes "db_ok db" "set_report_decoded gid ts rid db = Some db'"
  shows "db_ok db'"
proof -
  let ?f = "\<lambda>r. r\<lparr>rp_state := Decoded, rp_group_id := Some gid, rp_raw_deleted_at := Some ts\<rparr>"
  have "db_ok (db\<lparr>db_reports := update_where (\<lambda>r. rp_id r = rid) ?f (db_reports db)\<rparr>)"
  proof (rule update_reports_ok [OF assms(1)])
    fix r assume r: "r \<in> set (db_reports db)" "rp_id r = rid"
    then have "references rp_id rid (db_reports db)" by (auto simp: references_def lookup_by_None)
    with assms(2) have "references cg_id gid (db_groups db)"
      by (auto simp: set_report_decoded_def split: if_splits)
    with db_ok_report [OF assms(1) r(1)] show "report_ok db (?f r)" by (auto simp: report_ok_def)
  qed (auto intro: slugs_update db_ok_slugs [OF assms(1)])
  with assms(2) show ?thesis by (auto simp: set_report_decoded_def split: if_splits)
qed

lemma set_private_ok: "db_ok db \<Longrightarrow> db_ok (set_private rid db)"
  unfolding set_private_def
  by (rule update_reports_ok)
    (auto simp: report_ok_def dest: db_ok_report intro: slugs_update db_ok_slugs)

lemma set_public_ok:
  assumes "db_ok db" "set_public slug rid db = Some db'"
  shows "db_ok db'"
proof -
  let ?f = "\<lambda>r. r\<lparr>rp_visibility := Public, rp_publish_slug := Some slug\<rparr>"
  have free: "rp_id r = rid" if "r \<in> set (db_reports db)" "rp_publish_slug r = Some slug"
    "r0 \<in> set (db_reports db)" "rp_id r0 = rid" for r r0
    using assms(2) that by (auto simp: set_public_def references_def lookup_by_None split: if_splits)
  have "db_ok (db\<lparr>db_reports := update_where (\<lambda>r. rp_id r = rid) ?f (db_reports db)\<rparr>)"
  proof (rule update_reports_ok [OF assms(1)])
    fix r assume "r \<in> set (db_reports db)"
    from db_ok_report [OF assms(1) this] show "report_ok db (?f r)" by (auto simp: report_ok_def)
  next
    show "slugs_ok (update_where (\<lambda>r. rp_id r = rid) ?f (db_reports db))"
    proof (rule slugs_okI)
      fix r r' s
      assume r: "r \<in> set (update_where (\<lambda>r. rp_id r = rid) ?f (db_reports db))"
        "r' \<in> set (update_where (\<lambda>r. rp_id r = rid) ?f (db_reports db))"
        "rp_publish_slug r = Some s" "rp_publish_slug r' = Some s"
      have old: "\<exists>x0\<in>set (db_reports db). rp_id x0 = rp_id x \<and>
          (if rp_id x = rid then s = slug else rp_publish_slug x0 = Some s)"
        if "x \<in> set (update_where (\<lambda>r. rp_id r = rid) ?f (db_reports db))" "rp_publish_slug x = Some s" for x
      proof -
        from that(1) obtain x0 where x0: "x0 \<in> set (db_reports db)" "x = (if rp_id x0 = rid then ?f x0 else x0)"
          by (auto simp only: set_update_where image_iff)
        with that(2) show ?thesis by (intro bexI [OF _ x0(1)]) (cases "rp_id x0 = rid"; simp)
      qed
      from old [OF r(1,3)] obtain a where a: "a \<in> set (db_reports db)" "rp_id a = rp_id r"
        "if rp_id r = rid then s = slug else rp_publish_slug a = Some s" by blast
      from old [OF r(2,4)] obtain b where b: "b \<in> set (db_reports db)" "rp_id b = rp_id r'"
        "if rp_id r' = rid then s = slug else rp_publish_slug b = Some s" by blast
      note ab = a b
      show "rp_id r' = rp_id r"
      proof (cases "rp_id r = rid")
        case True
        with ab(3) have "s = slug" by simp
        show ?thesis
        proof (cases "rp_id r' = rid")
          case False
          with ab(6) \<open>s = slug\<close> have "rp_publish_slug b = Some slug" by simp
          with free [OF ab(4) _ ab(1)] ab(2,5) True show ?thesis by simp
        qed (simp add: True)
      next
        case False
        with ab(3) have sa: "rp_publish_slug a = Some s" by simp
        show ?thesis
        proof (cases "rp_id r' = rid")
          case True
          with ab(6) have "s = slug" by simp
          with free [OF ab(1) _ ab(4)] sa ab(2,5) True show ?thesis by simp
        next
          case False
          with ab(6) have "rp_publish_slug b = Some s" by simp
          from slugs_okD [OF db_ok_slugs [OF assms(1)] ab(1) ab(4) sa this] ab(2,5) show ?thesis by simp
        qed
      qed
    qed
  qed simp
  with assms(2) show ?thesis by (auto simp: set_public_def split: if_splits)
qed

lemma delete_ok:
  "db_ok db \<Longrightarrow> db_ok (delete_tokens t db)" "db_ok db \<Longrightarrow> db_ok (delete_sessions t db)"
  "db_ok db \<Longrightarrow> db_ok (delete_session h db)"
  by (auto simp: delete_tokens_def delete_sessions_def delete_session_def db_ok_defs report_ok_def)

lemma update_jobs_ok:
  "db_ok db \<Longrightarrow> (\<And>j. jb_id (f j) = jb_id j) \<Longrightarrow> (\<And>j. jb_report_id (f j) = jb_report_id j) \<Longrightarrow>
     db_ok (db\<lparr>db_jobs := update_where P f (db_jobs db)\<rparr>)"
  by (auto simp: db_ok_defs report_ok_def set_update_where)

subsection \<open>Everything that happens\<close>

text \<open>A step of the deployment: a request, with the instant of the monotonic clock; the creation
  of a user; the hourly cleanup; a step of the decoder.\<close>

inductive deployment_step ::
  "'k server_env \<Rightarrow> extractors \<Rightarrow> 'n decoder_env \<Rightarrow> server_state \<Rightarrow> server_state \<Rightarrow> bool" for e x d where
  request: "serve e x now q st = (r, st') \<Longrightarrow> deployment_step e x d st st'"
| adduser: "create_user e login_name w = (r, w') \<Longrightarrow> deployment_step e x d (n, w) (n, w')"
| restart: "deployment_step e x d (n, w) (Map.empty, w)"
| hourly: "deployment_step e x d (n, w) (n, cleanup w)"
| decoder: "decoder_step d w w' \<Longrightarrow> deployment_step e x d (n, w) (n, w')"

text \<open>A relation that every statement keeps, and that does not look at the clock and the coming
  faults, holds between any state and every later one.\<close>

locale decoder_run_frame = decoder_frame_all P for P :: "world \<Rightarrow> world \<Rightarrow> bool" +
  assumes P_enqueue: "insert_job j (w_db w) = Some db \<Longrightarrow> P w (w\<lparr>w_db := db\<rparr>)"
    and P_env: "P w (w\<lparr>w_now := t, w_faults := faults\<rparr>)"
begin

lemma decoder_step_kept: "decoder_step d w w' \<Longrightarrow> P w w'"
proof (induction rule: decoder_step.induct)
  case (work w w')
  then obtain r w1 where c: "claim_job w = (r, w1)" by fastforce
  from movesD [OF moves_claim c] have "P w w1" .
  moreover from work c have "P w1 w'"
    by (auto simp: work_round_def P_refl moves_process split: sum.splits option.splits)
  ultimately show ?case by (rule P_trans)
next
  case (crash_claimed w job w')
  then show ?case by (rule movesD [OF moves_claim])
next
  case (crash_decoded w job w1 r w')
  from movesD [OF moves_claim crash_decoded(1)] movesD [OF moves_decode crash_decoded(2)]
  show ?case by (rule P_trans)
qed (auto simp: P_fs P_env moves_gc intro: P_enqueue)

end

locale deployment_frame = server_frame_all P + decoder_run_frame P
  for P :: "world \<Rightarrow> world \<Rightarrow> bool"
begin

lemma step_kept: "deployment_step e x d st st' \<Longrightarrow> P (snd st) (snd st')"
proof (induction rule: deployment_step.induct)
  case (request now q st r st')
  then show ?case using moves_serve [of st e x now q] by simp
next
  case (adduser l w r w' n)
  then show ?case using movesD [OF moves_create_user] by simp
qed (simp_all add: P_refl moves_cleanup decoder_step_kept)

lemma run_kept: "(deployment_step e x d)\<^sup>*\<^sup>* st st' \<Longrightarrow> P (snd st) (snd st')"
proof (induction rule: rtranclp_induct)
  case (step u v)
  then show ?case using step_kept P_trans by blast
qed (rule P_refl)

end

subsection \<open>The tables stay consistent\<close>

definition keeps_ok :: "world \<Rightarrow> world \<Rightarrow> bool" where
  "keeps_ok w w' \<longleftrightarrow> (db_ok (w_db w) \<longrightarrow> db_ok (w_db w'))"

lemma issue_ok:
  "db_ok db \<Longrightarrow> issue_token h d t db = Some db' \<Longrightarrow> db_ok db'"
  "db_ok db \<Longrightarrow> issue_session h u t db = Some db' \<Longrightarrow> db_ok db'"
  by (auto simp: issue_token_def issue_session_def intro: insert_token_ok insert_session_ok)

lemma claim_ok: "db_ok db \<Longrightarrow> claim_statement db = Some (x, db') \<Longrightarrow> db_ok db'"
  by (auto simp: claim_statement_def intro: update_jobs_ok split: option.splits)

lemma set_job_ok: "db_ok db \<Longrightarrow> db_ok (set_job_done jid db)" "db_ok db \<Longrightarrow> db_ok (set_job_error st err jid db)"
  by (auto simp: set_job_done_def set_job_error_def intro: update_jobs_ok)

interpretation server_ok: server_frame_all keeps_ok
  by unfold_locales
    (auto simp: keeps_ok_def intro: insert_report_ok insert_job_ok upsert_device_ok issue_ok
      insert_user_ok delete_ok set_public_ok set_private_ok)

interpretation decoder_ok: decoder_frame_all keeps_ok
  by unfold_locales
    (auto simp: keeps_ok_def intro: upsert_group_ok set_report_decoded_ok claim_ok set_job_ok
      set_report_failed_ok mark_raw_deleted_ok)

interpretation deployed_ok: deployment_frame keeps_ok
  by unfold_locales (simp_all add: keeps_ok_def insert_job_ok)

lemma empty_ok: "db_ok empty_db"
  by (simp add: empty_db_def db_ok_defs slugs_ok_def)

text \<open>C2. In every state a deployment reaches from an empty database, through any requests, crashes
  of the decoder, periodic tasks and failing statements: all keys are unique, the slugs among
  them; every reference leads to a row; a report is public exactly when it has a slug, and a
  decoded one has a group and its raw payload marked as deleted.\<close>

theorem tables_consistent:
  assumes "(deployment_step e x d)\<^sup>*\<^sup>* (n, w) st" "w_db w = empty_db"
  shows "db_ok (w_db (snd st))"
  using deployed_ok.run_kept [OF assms(1)] assms(2) empty_ok by (simp add: keeps_ok_def)

end
