(* ===== verification/Access.thy ===== *)
theory Access
  imports Deployment
begin

text \<open>
  Who may do what: the visibility of a report changes only on request of its device or of a
  developer, and the public page shows exactly the published reports.
\<close>

subsection \<open>What keeps the visibility\<close>

definition same_sight :: "world \<Rightarrow> world \<Rightarrow> bool" where
  "same_sight w w' \<longleftrightarrow> (\<forall>rid r. lookup_by rp_id rid (db_reports (w_db w)) = Some r \<longrightarrow>
     (\<exists>r'. lookup_by rp_id rid (db_reports (w_db w')) = Some r' \<and> rp_visibility r' = rp_visibility r
        \<and> rp_publish_slug r' = rp_publish_slug r \<and> rp_device_id r' = rp_device_id r))"

lemma same_reports_sight: "db_reports (w_db w') = db_reports (w_db w) \<Longrightarrow> same_sight w w'"
  by (simp add: same_sight_def)

lemma statements_reports:
  "insert_job j db = Some db' \<Longrightarrow> db_reports db' = db_reports db"
  "upsert_device d db = Some (x, db') \<Longrightarrow> db_reports db' = db_reports db"
  "upsert_group g db = Some (y, db') \<Longrightarrow> db_reports db' = db_reports db"
  "issue_token h dev t db = Some db' \<Longrightarrow> db_reports db' = db_reports db"
  "issue_session h user t db = Some db' \<Longrightarrow> db_reports db' = db_reports db"
  "insert_user u db = Some db' \<Longrightarrow> db_reports db' = db_reports db"
  "claim_statement db = Some (z, db') \<Longrightarrow> db_reports db' = db_reports db"
  by (auto simp: insert_job_def upsert_device_def upsert_group_def issue_token_def insert_token_def
      issue_session_def insert_session_def insert_user_def claim_statement_def
      split: if_splits option.splits)

lemma deletes_reports:
  "db_reports (delete_session h db) = db_reports db" "db_reports (delete_tokens t db) = db_reports db"
  "db_reports (delete_sessions t db) = db_reports db" "db_reports (set_job_done jid db) = db_reports db"
  "db_reports (set_job_error st err jid db) = db_reports db"
  by (simp_all add: delete_session_def delete_tokens_def delete_sessions_def set_job_done_def set_job_error_def)

lemma update_sight:
  assumes "\<And>r. rp_id (f r) = rp_id r \<and> rp_visibility (f r) = rp_visibility r \<and>
      rp_publish_slug (f r) = rp_publish_slug r \<and> rp_device_id (f r) = rp_device_id r"
    and "db_reports (w_db w') = update_where P f (db_reports (w_db w))"
  shows "same_sight w w'"
  using assms by (auto simp: same_sight_def lookup_update_where)

lemma insert_sight: "insert_report r (w_db w) = Some db \<Longrightarrow> same_sight w (w\<lparr>w_db := db\<rparr>)"
  by (auto simp: insert_report_def same_sight_def lookup_by_append split: if_splits)

interpretation sight: server_frame same_sight
proof
  show "same_sight u v \<Longrightarrow> same_sight v w \<Longrightarrow> same_sight u w" for u v w
    unfolding same_sight_def by (metis (no_types))
qed (auto intro: insert_sight, (auto intro!: same_reports_sight simp: deletes_reports dest: statements_reports)+)

interpretation decoder_sight: decoder_run_frame same_sight
proof
  fix w db x y and g gid ts rid
  show "upsert_group g (w_db w) = Some (x, db) \<Longrightarrow> same_sight w (w\<lparr>w_db := db\<rparr>)"
    by (auto intro!: same_reports_sight dest: statements_reports)
  show "claim_statement (w_db w) = Some (y, db) \<Longrightarrow> same_sight w (w\<lparr>w_db := db\<rparr>)"
    by (auto intro!: same_reports_sight dest: statements_reports)
  show "set_report_decoded gid ts rid (w_db w) = Some db \<Longrightarrow> same_sight w (w\<lparr>w_db := db\<rparr>)"
    by (rule update_sight [where f = "\<lambda>r. r\<lparr>rp_state := Decoded, rp_group_id := Some gid, rp_raw_deleted_at := Some ts\<rparr>"
        and P = "\<lambda>r. rp_id r = rid"]) (auto simp: set_report_decoded_def split: if_splits)
  show "same_sight w (w\<lparr>w_db := set_report_failed rid (w_db w)\<rparr>)"
    by (rule update_sight [where f = "\<lambda>r. r\<lparr>rp_state := Report_Failed\<rparr>" and P = "\<lambda>r. rp_id r = rid"])
      (auto simp: set_report_failed_def)
  show "same_sight w (w\<lparr>w_db := mark_raw_deleted ts rid (w_db w)\<rparr>)"
    by (rule update_sight [where f = "\<lambda>r. r\<lparr>rp_raw_deleted_at := Some ts\<rparr>" and P = "\<lambda>r. rp_id r = rid"])
      (auto simp: mark_raw_deleted_def)
qed (auto intro!: same_reports_sight simp: deletes_reports dest: statements_reports(1))

subsection \<open>What a change of one report leaves alone\<close>

definition same_report :: "ustr \<Rightarrow> world \<Rightarrow> world \<Rightarrow> bool" where
  "same_report rid w w' \<longleftrightarrow>
     lookup_by rp_id rid (db_reports (w_db w')) = lookup_by rp_id rid (db_reports (w_db w))"

interpretation one: io_frame_fs "same_report rid" for rid
  by unfold_locales (auto simp: same_report_def)

lemma set_private_other: "rid' \<noteq> rid \<Longrightarrow>
    lookup_by rp_id rid' (db_reports (set_private rid db)) = lookup_by rp_id rid' (db_reports db)"
  by (auto simp: set_private_def lookup_update_where option.map_ident_strong dest!: lookup_by_SomeD
      intro!: map_option_idI)

lemma set_public_other: "rid' \<noteq> rid \<Longrightarrow> set_public slug rid db = Some db' \<Longrightarrow>
    lookup_by rp_id rid' (db_reports db') = lookup_by rp_id rid' (db_reports db)"
  by (auto simp: set_public_def lookup_update_where dest!: lookup_by_SomeD split: if_splits
      intro!: map_option_idI)

lemma visibility_other: "rid' \<noteq> rid \<Longrightarrow> moves (same_report rid') (set_visibility e rid public)"
  unfolding set_visibility_def new_secret_def
  by (intro one.moves_bind one.moves_select moves_option moves_if one.moves_pure one.moves_exec one.moves_update)
    (auto simp: same_report_def set_public_other set_private_other)

subsection \<open>Who changes the visibility\<close>

lemma require_db: "require_device e h w = (r, w') \<Longrightarrow> w_db w' = w_db w"
  using bearer_world [of e h w] by (auto simp: require_device_def split: prod.splits)

lemma require_Inr: "require_device e h w = (Inr d, w') \<longleftrightarrow> device_from_bearer e h w = (Some d, w')"
  by (auto simp: require_device_def split: prod.splits)

lemma owned_report_Inr:
  assumes "owned_report e h rid w = (Inr r, w')"
  obtains d where "fst (device_from_bearer e h w) = Some d" "r \<in> set (db_reports (w_db w))"
    "rp_id r = rid" "rp_device_id r = Some d" "w_db w' = w_db w"
proof -
  from assms obtain d w1 where d: "require_device e h w = (Inr d, w1)"
    and f: "List.find (\<lambda>r. rp_id r = rid \<and> rp_device_id r = Some d) (db_reports (w_db w1)) = Some r"
    and w': "w' = w1\<lparr>w_faults := tl (w_faults w1)\<rparr>"
    by (auto simp: owned_report_def io_inv io_basic)
  from require_db [OF d] f w' have "List.find (\<lambda>r. rp_id r = rid \<and> rp_device_id r = Some d) (db_reports (w_db w)) = Some r"
    "w_db w' = w_db w" by simp_all
  moreover from d have "fst (device_from_bearer e h w) = Some d" by (simp add: require_Inr)
  ultimately show ?thesis using that by (auto simp: find_Some_iff)
qed

lemma my_set_visibility_cases:
  assumes "my_set_visibility e h rid b w = (r, w')"
  shows "same_sight w w' \<or>
    (\<exists>d row. fst (device_from_bearer e h w) = Some d \<and> row \<in> set (db_reports (w_db w)) \<and> rp_id row = rid
       \<and> rp_device_id row = Some d) \<and> (\<forall>rid'. rid' \<noteq> rid \<longrightarrow> same_report rid' w w')"
proof -
  obtain r0 w0 where o: "owned_report e h rid w = (r0, w0)" by fastforce
  show ?thesis
  proof (cases r0)
    case (Inl err)
    with assms o have "w' = w0" by (simp add: my_set_visibility_def bindE_def)
    then show ?thesis using movesD [OF sight.moves_owned o] by simp
  next
    case (Inr row)
    with o owned_report_Inr obtain d where d: "fst (device_from_bearer e h w) = Some d"
      "row \<in> set (db_reports (w_db w))" "rp_id row = rid" "rp_device_id row = Some d" "w_db w0 = w_db w"
      by metis
    have "same_report rid' w w'" if "rid' \<noteq> rid" for rid'
    proof -
      have "moves (same_report rid') (bindE (internal (set_visibility e rid b)) (\<lambda>r.
          bindE (lift_result (ok_or no_such_report r)) (\<lambda>slug. ret (f slug))))" for f :: "ustr option \<Rightarrow> json"
        by (intro one.moves_bind one.moves_map_err one.moves_pure visibility_other that)
      note mv = this
      from o Inr have o': "owned_report e h rid w = (Inr row, w0)" by simp
      have "bindE (owned_report e h rid) g w = g row w0" for g :: "report_row \<Rightarrow> (api_error, json) io"
        by (simp add: bindE_def o')
      from movesD [OF mv assms [unfolded my_set_visibility_def this]] have "same_report rid' w0 w'" .
      with d(5) show ?thesis by (simp add: same_report_def)
    qed
    with d show ?thesis by blast
  qed
qed

lemma change_visibility_cases:
  assumes "change_visibility e cookies rid b w = (r, w')"
  shows "same_sight w w' \<or>
    (\<exists>u w1. from_request_parts e cookies w = (Inr u, w1)) \<and> (\<forall>rid'. rid' \<noteq> rid \<longrightarrow> same_report rid' w w')"
proof -
  obtain r0 w0 where o: "from_request_parts e cookies w = (r0, w0)" by fastforce
  show ?thesis
  proof (cases r0)
    case (Inl resp)
    with assms o have "w' = w0" by (simp add: change_visibility_def respond_def bindE_def)
    then show ?thesis using movesD [OF sight.moves_dev o] by simp
  next
    case (Inr u)
    then have db: "w_db w0 = w_db w" using o dev_accepted [of e cookies w u w0] by auto
    have "same_report rid' w w'" if "rid' \<noteq> rid" for rid'
    proof -
      let ?m = "bindE (map_err db_err (set_visibility e rid b)) (\<lambda>r.
          case r of Some _ \<Rightarrow> ret (Redirect_To (lit ''/reports/'' @ rid)) | None \<Rightarrow> ret report_missing)
          :: (response, response) io"
      have m: "moves (same_report rid') ?m"
        by (intro one.moves_bind one.moves_map_err moves_option one.moves_pure visibility_other that)
      obtain r1 w1 where r1: "?m w0 = (r1, w1)" by fastforce
      from assms o Inr r1 have "w' = w1"
        by (cases r1) (simp_all add: change_visibility_def respond_def bindE_eval del: lit_Cons)
      with movesD [OF m r1] db show ?thesis by (simp add: same_report_def)
    qed
    with o Inr show ?thesis by blast
  qed
qed

lemma own_publishing:
  assumes "db_ok (w_db w)" "my_set_visibility e h i b w = (v, w')" "\<not> same_sight w w'"
    and "\<not> same_report rid w w'" "lookup_by rp_id rid (db_reports (w_db w)) = Some r"
  shows "i = rid \<and> rp_device_id r \<noteq> None \<and> fst (device_from_bearer e h w) = rp_device_id r"
proof -
  from my_set_visibility_cases [OF assms(2)] assms(3,4) obtain d r0 where
    d: "fst (device_from_bearer e h w) = Some d" "r0 \<in> set (db_reports (w_db w))" "rp_id r0 = i"
    "rp_device_id r0 = Some d" and others: "rid \<noteq> i \<longrightarrow> same_report rid w w'" by auto
  with assms(4) have i: "i = rid" by auto
  have "keyed rp_id (db_reports (w_db w))" using assms(1) by (simp add: db_ok_defs)
  with d i have "lookup_by rp_id rid (db_reports (w_db w)) = Some r0" by (simp add: lookup_by_keyed)
  with assms(5) d i show ?thesis by simp
qed

lemma dev_publishing:
  assumes "change_visibility e cookies i b w = (v, w')" "\<not> same_sight w w'" "\<not> same_report rid w w'"
  shows "i = rid \<and> (\<exists>u w1. from_request_parts e cookies w = (Inr u, w1))"
proof -
  from change_visibility_cases [OF assms(1)] assms(2)
  have "\<exists>u w1. from_request_parts e cookies w = (Inr u, w1)" "rid \<noteq> i \<longrightarrow> same_report rid w w'" by simp_all
  with assms(3) show ?thesis by auto
qed

lemma api_json_world: "snd (api_json m w) = snd (m w)"
  by (auto simp: api_json_def api_def respond_def map_err_def bindE_def ret_def split: prod.split sum.split)

lemma answered_json: "keep_nonces (api_json m) (n, w) = (resp, n', w') \<Longrightarrow> \<exists>v. m w = (v, w')"
  using api_json_world [of m w] by (cases "m w") (auto simp: keep_nonces_def split: prod.splits)

lemma answered: "keep_nonces m (n, w) = (resp, n', w') \<Longrightarrow> m w = (resp, w')"
  by (auto simp: keep_nonces_def split: prod.splits)

text \<open>Requests that change the visibility of a report.\<close>

definition may_publish :: "'k server_env \<Rightarrow> http_request \<Rightarrow> world \<Rightarrow> report_row \<Rightarrow> bool" where
  "may_publish e q w r \<longleftrightarrow> (\<exists>ep ids. find_route (hq_method q) (hq_path q) = Some (ep, ids) \<and> concat ids = rp_id r \<and>
    (ep \<in> {My_Publish, My_Unpublish} \<and> rp_device_id r \<noteq> None
       \<and> fst (device_from_bearer e (hq_headers q) w) = rp_device_id r \<or>
     ep \<in> {Publish, Unpublish} \<and> (\<exists>u w1. from_request_parts e (hq_cookies q) w = (Inr u, w1))))"

lemma request_guarded:
  assumes ok: "db_ok (w_db w)" and served: "serve e x now q (n, w) = (resp, n', w')"
    and row: "lookup_by rp_id rid (db_reports (w_db w)) = Some r"
    and diff: "\<not> same_sight w w'" "\<not> same_report rid w w'"
  shows "may_publish e q w r"
proof -
  obtain ep ids where ep: "find_route (hq_method q) (hq_path q) = Some (ep, ids)"
    using served diff(1) by (auto simp: serve_def fixed_def sight.P_refl split: option.splits)
  have h: "handle e x now q ep (concat ids) (n, w) = (resp, n', w')" using served ep by (simp add: serve_def)
  have i: "rp_id r = rid" using lookup_by_SomeD [OF row] by simp
  have "ep \<in> {My_Publish, My_Unpublish, Publish, Unpublish}"
    using sight.moves_handle [of ep "(n, w)" e x now q "concat ids"] h diff(1) by auto
  then consider b where "keep_nonces (api_json (my_set_visibility e (hq_headers q) (concat ids) b)) (n, w) = (resp, n', w')"
      "ep \<in> {My_Publish, My_Unpublish}"
    | b where "keep_nonces (change_visibility e (hq_cookies q) (concat ids) b) (n, w) = (resp, n', w')"
      "ep \<in> {Publish, Unpublish}"
    using h by (auto simp: my_publish_def my_unpublish_def publish_def unpublish_def)
  then show ?thesis
  proof cases
    case (1 b)
    from answered_json [OF 1(1)] obtain v where "my_set_visibility e (hq_headers q) (concat ids) b w = (v, w')" ..
    from own_publishing [OF ok this diff row] 1(2) ep i show ?thesis by (auto simp: may_publish_def)
  next
    case (2 b)
    from dev_publishing [OF answered [OF 2(1)] diff] 2(2) ep i show ?thesis by (auto simp: may_publish_def)
  qed
qed

lemma sight_changed:
  assumes "lookup_by rp_id rid (db_reports (w_db w)) = Some r" "lookup_by rp_id rid (db_reports (w_db w')) = Some r'"
    and "rp_visibility r' \<noteq> rp_visibility r \<or> rp_publish_slug r' \<noteq> rp_publish_slug r"
  shows "\<not> same_sight w w'" "\<not> same_report rid w w'"
proof
  assume "same_sight w w'"
  with assms(1) obtain r'' where "lookup_by rp_id rid (db_reports (w_db w')) = Some r''"
    "rp_visibility r'' = rp_visibility r" "rp_publish_slug r'' = rp_publish_slug r"
    unfolding same_sight_def by blast
  with assms(2,3) show False by simp
next
  show "\<not> same_report rid w w'" using assms by (auto simp: same_report_def)
qed

lemma step_request:
  assumes "deployment_step e x d st st'" "\<not> same_sight (snd st) (snd st')"
  obtains now q resp where "serve e x now q st = (resp, st')"
  using assms
proof (cases rule: deployment_step.cases)
  case (adduser l w r w' n)
  with assms(2) movesD [OF sight.moves_create_user adduser(3)] show ?thesis by simp
qed (auto simp: sight.P_refl sight.moves_cleanup dest: decoder_sight.decoder_step_kept)

text \<open>C3. The visibility and the slug of a report are changed by its own device or by a
  developer, by nobody else and by nothing else: if a step of the deployment changes them, the
  step is the answer to one of the four publishing requests for this very report, and the
  request carried a valid token of the device that sent the report, or a valid session.\<close>

theorem visibility_guarded:
  assumes "db_ok (w_db w)" and "deployment_step e x d (n, w) (n', w')"
    and "lookup_by rp_id rid (db_reports (w_db w)) = Some r"
    and "lookup_by rp_id rid (db_reports (w_db w')) = Some r'"
    and "rp_visibility r' \<noteq> rp_visibility r \<or> rp_publish_slug r' \<noteq> rp_publish_slug r"
  shows "\<exists>now q resp. serve e x now q (n, w) = (resp, n', w') \<and> may_publish e q w r"
proof -
  note diff = sight_changed [OF assms(3-5)]
  from step_request [OF assms(2)] diff(1) obtain now q resp where "serve e x now q (n, w) = (resp, n', w')" by auto
  with request_guarded [OF assms(1) this assms(3) diff] show ?thesis by blast
qed

end
