(* ===== verification/Publishing.thy ===== *)
theory Publishing
  imports Access
begin

text \<open>
  Publishing a report and withdrawing it: what the public page shows after each, and the list
  of a device's own reports.
\<close>

lemma find_SomeD: "List.find P xs = Some x \<Longrightarrow> x \<in> set xs \<and> P x"
  by (auto simp: find_Some_iff)

definition slug_of :: "'k server_env \<Rightarrow> world \<Rightarrow> report_row \<Rightarrow> ustr" where
  "slug_of e w r = (case rp_publish_slug r of Some t \<Rightarrow> t | None \<Rightarrow> take 16 (au_secret_at e (w_ids w)))"

lemma set_visibility_public:
  assumes "set_visibility e rid True w = (Inr (Some x), w')"
  shows "\<exists>r. lookup_by rp_id rid (db_reports (w_db w)) = Some r \<and> x = Some (slug_of e w r)
    \<and> set_public (slug_of e w r) rid (w_db w) = Some (w_db w') \<and> w_fs w' = w_fs w"
proof (cases "lookup_by rp_id rid (db_reports (w_db w))")
  case None
  with assms show ?thesis by (auto simp: set_visibility_def io_inv io_basic)
next
  case (Some r)
  with assms show ?thesis unfolding set_visibility_def new_secret_def
    by (cases "rp_publish_slug r") (auto simp: io_inv io_basic slug_of_def split: option.splits, metis+)
qed

lemma set_visibility_private:
  assumes "set_visibility e rid False w = (Inr (Some x), w')"
  shows "x = None \<and> w_db w' = set_private rid (w_db w) \<and> w_fs w' = w_fs w"
  using assms unfolding set_visibility_def
  by (auto simp: io_inv io_basic split: option.splits)

lemma visibility_ok: "db_ok (w_db w) \<Longrightarrow> set_visibility e rid b w = (r, w') \<Longrightarrow> db_ok (w_db w')"
  by (drule movesD [OF server_ok.moves_visibility]) (simp add: keeps_ok_def)

text \<open>The published report of a slug is unique, and it is the one with the slug.\<close>

lemma published_iff:
  assumes "db_ok db"
  shows "published s db = Some r \<longleftrightarrow> r \<in> set (db_reports db) \<and> rp_publish_slug r = Some s"
proof
  assume "published s db = Some r"
  then show "r \<in> set (db_reports db) \<and> rp_publish_slug r = Some s"
    by (auto simp: published_def dest: find_SomeD)
next
  assume r: "r \<in> set (db_reports db) \<and> rp_publish_slug r = Some s"
  with db_ok_report [OF assms, of r] have "rp_visibility r = Public" by (auto simp: report_ok_def)
  with r have "published s db \<noteq> None" by (auto simp: published_def find_None_iff)
  then obtain r' where r': "published s db = Some r'" by blast
  then have m: "r' \<in> set (db_reports db)" "rp_publish_slug r' = Some s"
    by (auto simp: published_def dest: find_SomeD)
  have "rp_id r' = rp_id r" using slugs_okD [OF db_ok_slugs [OF assms]] r m by blast
  moreover have "keyed rp_id (db_reports db)" using assms by (simp add: db_ok_defs)
  ultimately have "r' = r" using m(1) r by (auto simp: keyed_def distinct_map inj_on_def)
  with r' show "published s db = Some r" by simp
qed

lemma set_public_row:
  "set_public s rid db = Some db' \<Longrightarrow> lookup_by rp_id rid (db_reports db) = Some r \<Longrightarrow>
     lookup_by rp_id rid (db_reports db') = Some (r\<lparr>rp_visibility := Public, rp_publish_slug := Some s\<rparr>)"
  by (auto simp: set_public_def lookup_update_where dest: lookup_by_SomeD split: if_splits)

definition public_context :: "'k server_env \<Rightarrow> file_system \<Rightarrow> report_row \<Rightarrow> fields" where
  "public_context e fs r =
     [(lit ''instance'', JStr (instance_name (sv_cfg e))), (lit ''kind'', JStr (rp_kind r)),
      (lit ''version'', JStr (rp_version r)), (lit ''revision'', JStr (rp_revision r)),
      (lit ''target'', JStr (rp_target r)), (lit ''arch'', JStr (rp_arch r)),
      (lit ''board'', JStr (rp_board_name r)), (lit ''kernel'', JStr (rp_kernel r)),
      (lit ''decoded'', decoded_or_empty e fs (rp_id r))]"

lemma public_report_page:
  assumes "w_faults w = []"
  shows "fst (public_report e slug w) =
    (case published slug (w_db w) of None \<Rightarrow> report_missing
     | Some r \<Rightarrow> page ''public_report.html'' (public_context e (w_fs w) r))"
  using assms
  by (simp add: public_report_def respond_def bindE_def map_err_def select_def query_def lift_result_def
      ok_or_def public_context_def del: lit_Cons split: option.split)

lemma published_row:
  assumes "set_public s rid db = Some db'" "lookup_by rp_id rid (db_reports db) = Some r" "db_ok db'"
  shows "published s db' = Some (r\<lparr>rp_visibility := Public, rp_publish_slug := Some s\<rparr>)"
  using lookup_by_SomeD [OF set_public_row [OF assms(1,2)]] published_iff [OF assms(3), of s] by auto

lemma set_private_reports:
  "db_reports (set_private rid db) = update_where (\<lambda>r. rp_id r = rid)
     (\<lambda>r. r\<lparr>rp_visibility := Private, rp_publish_slug := None\<rparr>) (db_reports db)"
  by (simp add: set_private_def)

lemma withdrawn:
  assumes "db_ok db" "lookup_by rp_id rid (db_reports db) = Some r" "rp_publish_slug r = Some s"
  shows "published s (set_private rid db) = None"
proof (rule ccontr)
  assume "published s (set_private rid db) \<noteq> None"
  then obtain r' where r': "r' \<in> set (db_reports (set_private rid db))" "rp_publish_slug r' = Some s"
    by (auto simp: published_def dest: find_SomeD)
  from r'(1) obtain x0 where x0: "x0 \<in> set (db_reports db)"
    "r' = (if rp_id x0 = rid then x0\<lparr>rp_visibility := Private, rp_publish_slug := None\<rparr> else x0)"
    using update_where_origin [of r' "\<lambda>r. rp_id r = rid" _ "db_reports db"] by (auto simp only: set_private_reports)
  with r'(2) have o: "r' \<in> set (db_reports db)" "rp_id r' \<noteq> rid"
    by (cases "rp_id x0 = rid"; simp)+
  from lookup_by_SomeD [OF assms(2)] have "r \<in> set (db_reports db)" "rp_id r = rid" by simp_all
  with slugs_okD [OF db_ok_slugs [OF assms(1)] _ o(1) assms(3) r'(2)] o(2) show False by simp
qed

text \<open>C15. Publishing gives the report a slug whose public page shows the data and the decoded
  text of this report; publishing again keeps the slug; and once the report is withdrawn, the
  slug leads nowhere.\<close>

theorem publish_then_withdraw:
  assumes "db_ok (w_db w)" and pub: "set_visibility e rid True w = (Inr (Some x), w1)"
    and "w_faults w1 = []"
  shows "\<exists>r s. x = Some s \<and> lookup_by rp_id rid (db_reports (w_db w)) = Some r
    \<and> fst (public_report e s w1) = page ''public_report.html'' (public_context e (w_fs w) r)
    \<and> fst (set_visibility e rid True w1) = Inr (Some (Some s))
    \<and> (\<forall>y w2. set_visibility e rid False w1 = (Inr y, w2) \<longrightarrow> w_faults w2 = []
         \<longrightarrow> fst (public_report e s w2) = report_missing)"
proof -
  from set_visibility_public [OF pub] obtain r s where r: "lookup_by rp_id rid (db_reports (w_db w)) = Some r"
    and x: "x = Some s" and db1: "set_public s rid (w_db w) = Some (w_db w1)" and fs: "w_fs w1 = w_fs w"
    by blast
  let ?r = "r\<lparr>rp_visibility := Public, rp_publish_slug := Some s\<rparr>"
  have ok1: "db_ok (w_db w1)" using visibility_ok [OF assms(1) pub] .
  have r1: "lookup_by rp_id rid (db_reports (w_db w1)) = Some ?r" by (rule set_public_row [OF db1 r])
  have "published s (w_db w1) = Some ?r" by (rule published_row [OF db1 r ok1])
  then have p1: "fst (public_report e s w1) = page ''public_report.html'' (public_context e (w_fs w) r)"
    using public_report_page [OF assms(3), of e s] fs by (simp add: public_context_def del: lit_Cons)
  have "set_public s rid (w_db w1) \<noteq> None"
  proof -
    have "rp_id r' = rid" if "r' \<in> set (db_reports (w_db w1))" "rp_publish_slug r' = Some s" for r'
      using slugs_okD [OF db_ok_slugs [OF ok1], of ?r r' s] that lookup_by_SomeD [OF r1] by auto
    then show ?thesis by (auto simp: set_public_def)
  qed
  then have again: "fst (set_visibility e rid True w1) = Inr (Some (Some s))"
    using r1 assms(3)
    by (auto simp: set_visibility_def bindE_def select_def query_def exec_def ret_def)
  have gone: "fst (public_report e s w2) = report_missing"
    if "set_visibility e rid False w1 = (Inr y, w2)" "w_faults w2 = []" for y w2
  proof (cases y)
    case None
    with that(1) r1 show ?thesis
      by (auto simp: set_visibility_def io_inv io_basic split: option.splits)
  next
    case (Some z)
    with set_visibility_private that(1) have "w_db w2 = set_private rid (w_db w1)" by blast
    with withdrawn [OF ok1 r1, of s] have "published s (w_db w2) = None" by simp
    then show ?thesis using public_report_page [OF that(2), of e s] by simp
  qed
  from x r p1 again gone show ?thesis by blast
qed

end
