(* ===== verification/Views.thy ===== *)
theory Views
  imports Publishing
begin

text \<open>
  Who can see what, as a comparison of two states: a visitor without credentials gets the same
  answers from any two states that agree on what is published, and a device gets the same list
  and the same details of its reports from any two states that agree on these reports. So
  neither learns anything of what the states may differ in.
\<close>

subsection \<open>Visitors\<close>





lemma find_filter_map:
  "(\<And>x. P x \<longleftrightarrow> Q x \<and> R (f x)) \<Longrightarrow>
     map_option f (List.find P xs) = List.find R (map f (filter Q xs))"
  by (induction xs) auto















subsection \<open>Devices\<close>

text \<open>What the list and the details show of a report.\<close>

definition report_detail :: "'k server_env \<Rightarrow> file_system \<Rightarrow> report_row \<Rightarrow> json" where
  "report_detail e fs r = JObj
     [(lit ''report_id'', JStr (rp_id r)), (lit ''kind'', JStr (rp_kind r)),
      (lit ''received_at'', JInt (rp_received_at r)), (lit ''version'', JStr (rp_version r)),
      (lit ''target'', JStr (rp_target r)), (lit ''kernel'', JStr (rp_kernel r)),
      (lit ''state'', JStr (report_state_text (rp_state r))),
      (lit ''visibility'', JStr (visibility_text (rp_visibility r))),
      (lit ''decoded'', jopt JStr (read_to_string fs (path_join (decoded_dir (sv_cfg e)) (rp_id r))))]"

text \<open>The device's own reports, as far as the two answers show them.\<close>

definition own_view :: "'k server_env \<Rightarrow> ustr \<Rightarrow> world \<Rightarrow> (ustr \<times> int \<times> fields \<times> json) list" where
  "own_view e d w =
     map (\<lambda>r. (rp_id r, rp_received_at r, report_summary r, report_detail e (w_fs w) r))
       (filter (\<lambda>r. rp_device_id r = Some d) (db_reports (w_db w)))"

lemma map_insort_key: "(\<And>x. g (f x) = k x) \<Longrightarrow> map f (insort_key k x xs) = insort_key g (f x) (map f xs)"
  by (induction xs) auto

lemma map_sort_key: "(\<And>x. g (f x) = k x) \<Longrightarrow> map f (sort_key k xs) = sort_key g (map f xs)"
  by (induction xs) (simp_all add: map_insort_key [where g = g])

lemma own_list:
  "map report_summary (own_reports d (w_db w)) =
     map (\<lambda>(i, t, s, j). s) (sort_key (\<lambda>(i, t, s, j). Desc t) (own_view e d w))"
proof -
  let ?f = "\<lambda>r. (rp_id r, rp_received_at r, report_summary r, report_detail e (w_fs w) r)"
  have "sort_key (\<lambda>(i, t, s, j). Desc t) (own_view e d w) = map ?f (own_reports d (w_db w))"
    unfolding own_view_def own_reports_def by (rule map_sort_key [symmetric]) simp
  then show ?thesis by (simp add: comp_def)
qed

lemma own_detail:
  "map_option (report_detail e (w_fs w)) (List.find (\<lambda>r. rp_id r = i \<and> rp_device_id r = Some d) (db_reports (w_db w))) =
     map_option (\<lambda>(i, t, s, j). j) (List.find (\<lambda>v. fst v = i) (own_view e d w))"
proof -
  let ?f = "\<lambda>r. (rp_id r, rp_received_at r, report_summary r, report_detail e (w_fs w) r)"
  have "map_option ?f (List.find (\<lambda>r. rp_id r = i \<and> rp_device_id r = Some d) (db_reports (w_db w))) =
      List.find (\<lambda>v. fst v = i) (own_view e d w)"
    unfolding own_view_def by (rule find_filter_map) auto
  from arg_cong [OF this, of "map_option (\<lambda>(i, t, s, j). j)"] show ?thesis
    by (simp add: option.map_comp comp_def)
qed

lemma require_after:
  assumes "fst (device_from_bearer e h w) = Some d"
  shows "require_device e h w = (Inr d, w\<lparr>w_faults := tl (w_faults w)\<rparr>)"
  using assms
  by (auto simp: require_device_def device_from_bearer_def select_def query_def ok_or_def
      split: option.splits prod.splits if_splits)

lemma my_reports_fst:
  assumes "fst (device_from_bearer e h w) = Some d"
  shows "fst (my_reports e h w) =
    (if tl (w_faults w) \<noteq> [] \<and> hd (tl (w_faults w))
     then Inl (internal_error [External (lit ''database error'')])
     else Inr (JObj [(lit ''reports'', JList (map JObj (map report_summary (own_reports d (w_db w)))))]))"
  by (simp add: my_reports_def bindE_def require_after [OF assms] map_err_def select_def query_def ret_def
      comp_def del: lit_Cons)

lemma my_report_detail_fst:
  assumes "fst (device_from_bearer e h w) = Some d"
  shows "fst (my_report_detail e h i w) =
    (if tl (w_faults w) \<noteq> [] \<and> hd (tl (w_faults w))
     then Inl (internal_error [External (lit ''database error'')])
     else case map_option (report_detail e (w_fs w))
            (List.find (\<lambda>r. rp_id r = i \<and> rp_device_id r = Some d) (db_reports (w_db w))) of
          None \<Rightarrow> Inl no_such_report | Some j \<Rightarrow> Inr j)"
  by (auto simp: my_report_detail_def owned_report_def bindE_def require_after [OF assms] map_err_def
      select_def query_def lift_result_def ok_or_def report_detail_def simp del: lit_Cons
      dest!: find_SomeD split: option.split)

text \<open>C9. A device sees its own reports only: its list and the details of any report it asks
  for are the same from any two states that agree on the reports of this device, as far as
  these answers show them; of the reports of others it learns not even that they exist.\<close>

theorem device_sees_own:
  assumes "fst (device_from_bearer e h w) = Some d" "fst (device_from_bearer e h w') = Some d"
    and "own_view e d w = own_view e d w'" "w_faults w = w_faults w'"
  shows "fst (my_reports e h w) = fst (my_reports e h w')
    \<and> fst (my_report_detail e h i w) = fst (my_report_detail e h i w')"
  unfolding my_reports_fst [OF assms(1)] my_reports_fst [OF assms(2)]
    my_report_detail_fst [OF assms(1)] my_report_detail_fst [OF assms(2)] own_list [where e = e] own_detail
    assms(3,4)
  by simp

end
