(* ===== verification/Shown_Text.thy ===== *)
theory Shown_Text
  imports Decode_Props Views
begin

text \<open>
  The way of a text through the whole program: the payload is decoded to text, annotated and
  scrubbed by the decoder, written as UTF-8, read back by the server, and shown. Every step
  keeps it a sequence of Unicode scalar values, so the file can always be read back, and what
  the pages show is exactly what the scrubbing has passed.
\<close>

subsection \<open>Every step yields text\<close>

lemma list_all_subset: "set xs \<subseteq> set ys \<Longrightarrow> list_all P ys \<Longrightarrow> list_all P xs"
  by (auto simp: list_all_iff)

lemma set_part: "set (take n (drop m xs)) \<subseteq> set xs"
  by (rule order_trans [OF set_take_subset set_drop_subset])

lemma list_all_part [intro]: "list_all P xs \<Longrightarrow> list_all P (take n (drop m xs))"
  by (rule list_all_subset [OF set_part])

lemma list_all_drop [intro]: "list_all P xs \<Longrightarrow> list_all P (drop m xs)"
  by (rule list_all_subset [OF set_drop_subset])

lemma scalar_replace_spans:
  "list_all scalar s \<Longrightarrow> (\<And>h. list_all scalar (f h)) \<Longrightarrow> list_all scalar (replace_spans s pos hs f)"
  by (induction s pos hs f rule: replace_spans.induct) auto

lemma scalar_span [intro]: "list_all scalar s \<Longrightarrow> list_all scalar (span s a b)"
  unfolding span_def by (rule list_all_part)

lemma scalar_lit_masks:
  "list_all scalar (lit '':xx:xx:xx'')" "list_all scalar (lit ''x.x.x.x'')" "list_all scalar (lit ''x:x::x'')"
  "list_all scalar (lit '' ('')" "list_all scalar (lit '')'')" "list_all scalar (lit ''::'')"
  "list_all scalar (lit ''::1'')"
  by code_simp+

lemma scalar_masks:
  assumes "list_all scalar s"
  shows "list_all scalar (mac_mask s h)" "list_all scalar (ipv4_mask s h)" "list_all scalar (ipv6_mask s h)"
  using assms scalar_lit_masks
  by (auto simp: mac_mask_def ipv4_mask_def ipv6_mask_def capture_text_def Let_def simp del: lit_Cons
      split: prod.split option.split)

context regex_crate begin

lemma scrub_scalar:
  assumes "list_all scalar s"
  shows "list_all scalar (scrub eng d s)"
  unfolding scrub_def ipv6_pass_def ipv4_pass_def mac_pass_def replace_all_spans
  by (intro scalar_replace_spans scalar_masks assms)

end

text \<open>What the reader of debug information gives as a file name is text, as its type says.\<close>

definition text_loader :: "'n symbols_env \<Rightarrow> bool" where
  "text_loader e \<longleftrightarrow> (\<forall>data l addr file line.
     sy_loader e data = Some l \<longrightarrow> l addr = Some (Some file, line) \<longrightarrow> list_all scalar file)"

lemma scalar_decimal: "list_all scalar (decimal n)"
  using decimal_digits [of n] by (auto simp: list_all_iff is_ascii_digit_def scalar_def)

lemma strip_build_prefix_scalar:
  assumes "list_all scalar file"
  shows "list_all scalar (strip_build_prefix file)"
proof (cases "Option.bind (rsplit_once (lit ''/linux-'') file) (\<lambda>(_, rest). map_option snd (split_once [47] rest))")
  case None
  with assms show ?thesis by (simp add: strip_build_prefix_def del: lit_Cons)
next
  case (Some p)
  then obtain x rest y where "rsplit_once (lit ''/linux-'') file = Some (x, rest)" "split_once [47] rest = Some (y, p)"
    by (auto simp: bind_eq_Some_conv)
  then have "file = x @ lit ''/linux-'' @ y @ [47] @ p"
    by (auto dest!: rsplit_once_Some split_once_Some simp del: lit_Cons)
  with assms have "list_all scalar p" by (simp del: lit_Cons)
  with Some show ?thesis by (simp add: strip_build_prefix_def del: lit_Cons)
qed

lemma find_location_scalar:
  assumes "\<And>addr file line. bn_loader bin addr = Some (Some file, line) \<Longrightarrow> list_all scalar file"
    and "find_location bin symbol offset = Some t"
  shows "list_all scalar t"
  using assms(2) assms(1) [THEN strip_build_prefix_scalar]
  by (auto simp: find_location_def bind_eq_Some_conv Let_def scalar_decimal scalar_def split: option.splits)

lemma load_binary_scalar:
  assumes "text_loader e" "load_binary e fs path = Inr bin" "bn_loader bin addr = Some (Some file, line)"
  shows "list_all scalar file"
proof -
  from assms(2) obtain data where b: "(case sy_object e data of
       None \<Rightarrow> Inl [External (lit ''not an object file'')]
     | Some obj \<Rightarrow>
         (case sy_loader e data of
            None \<Rightarrow> Inl [External (lit ''loading '' @ path)]
          | Some l \<Rightarrow> Inr \<lparr>bn_syms = collect_syms [] (of_symbols obj), bn_build_id = of_build_id obj,
              bn_loader = l\<rparr>)) = Inr bin"
    by (auto simp: load_binary_def and_then_Inr simp del: lit_Cons)
  then have "sy_loader e data = Some (bn_loader bin)"
    by (cases "sy_object e data"; cases "sy_loader e data") auto
  with assms(1,3) show ?thesis unfolding text_loader_def by blast
qed

lemma locate_scalar:
  assumes "text_loader e" "\<And>bin. vmlinux = Some bin \<Longrightarrow> \<exists>path. load_binary e fs path = Inr bin"
    and "locate e fs vmlinux dir line = Some t"
  shows "list_all scalar t"
proof -
  from assms(3) obtain symbol offset m bin where
    b: "(case m of None \<Rightarrow> vmlinux | Some name \<Rightarrow> load_module e fs dir name) = Some bin"
    and t: "find_location bin symbol offset = Some t"
    by (auto simp: locate_def bind_eq_Some_conv)
  from b assms(2) obtain path where "load_binary e fs path = Inr bin"
    by (auto simp: load_module_def Let_def split: option.splits if_splits)
  from find_location_scalar [OF load_binary_scalar [OF assms(1) this] t] show ?thesis .
qed

lemma lines_from_scalar:
  "list_all scalar cur \<Longrightarrow> list_all scalar s \<Longrightarrow> list_all (list_all scalar) (lines_from cur s)"
proof (induction cur s rule: lines_from.induct)
  case (2 cur c cs)
  have "list_all scalar (strip_cr cur)"
    using 2(3) by (auto simp: strip_cr_def list_all_iff dest: in_set_butlastD)
  with 2 show ?case by simp
qed simp

lemma annotated_scalar:
  assumes "text_loader e" "list_all scalar log"
  shows "list_all scalar (fst (annotate e fs log (new_symbolizer e fs dir expected)))"
proof -
  let ?z = "new_symbolizer e fs dir expected"
  have line: "list_all scalar (annotated_line e fs (sz_vmlinux ?z) (sz_modules_dir ?z) l)"
    if "list_all scalar l" for l
  proof (cases "locate e fs (sz_vmlinux ?z) (sz_modules_dir ?z) l")
    case None
    with that show ?thesis by (simp add: annotated_line_def scalar_def)
  next
    case (Some t)
    have "list_all scalar t"
      by (rule locate_scalar [OF assms(1) _ Some]) (auto simp: new_symbolizer_vmlinux simp del: lit_Cons)
    with Some that scalar_lit_masks show ?thesis
      by (simp add: annotated_line_def scalar_def [of 10] del: lit_Cons)
  qed
  have "list_all (list_all scalar) (str_lines log)"
    unfolding str_lines_def by (rule lines_from_scalar) (simp_all add: assms(2))
  with line show ?thesis unfolding annotate_eq by (auto simp: list_all_iff)
qed

lemma decoded_scalar:
  assumes "regex_crate (sy_regex (de_sym e)) wd (de_digit e)" "text_loader (de_sym e)" "list_all scalar log"
  shows "list_all scalar (decoded_text e fs dir expected log)"
  using annotated_scalar [OF assms(2,3), of fs dir expected] assms(3)
  by (simp add: decoded_text_def Let_def regex_crate.scrub_scalar [OF assms(1)])


subsection \<open>From the payload to the pages\<close>

lemma read_stored:
  "fs_read fs p = Some (as_bytes t) \<Longrightarrow> list_all scalar t \<Longrightarrow> read_to_string fs p = Some t"
  by (simp add: read_to_string_def)

lemma decoded_clean:
  assumes "regex_crate (sy_regex (de_sym e)) wd (de_digit e)"
  shows "no_match wd (decoded_text e fs dir expected log) mac_re"
    and "no_match wd (decoded_text e fs dir expected log) ipv6_re"
  by (simp_all add: decoded_text_def Let_def regex_crate.scrub_mac [OF assms] regex_crate.scrub_ipv6 [OF assms])

text \<open>C8. What the pages show of a report after it was decoded is exactly the annotated and
  scrubbed text of the payload the device sent, read back from disk without loss; and it has no
  MAC address and no IPv6 address of the patterns' form in it.\<close>

theorem pages_show_scrubbed:
  assumes laws: "unpack_law (de_sym e)" "hex_ids (de_sym e)" "text_loader (de_sym e)"
    "regex_crate (sy_regex (de_sym e)) wd (de_digit e)"
    and run: "decode_report e rid w = (Inr gid, w')"
    and row: "lookup_by rp_id rid (db_reports (w_db w)) = Some row"
    and layout: "plain_layout e rid row (w_fs w)"
    and raw: "node_at (w_fs w) (raw_key e (fs_cwd (w_fs w)) rid) = Some (File raw)"
    and cfg: "sv_cfg s = de_cfg e"
  shows "\<exists>encoding log dir fs1 shown. parse_encoding (rp_payload_encoding row) = Inr encoding
    \<and> Payload.decode (de_payload e) raw encoding = Inr log
    \<and> shown = decoded_text e fs1 dir (rp_kernel_buildid row) log
    \<and> read_to_string (w_fs w') (path_join (decoded_dir (sv_cfg s)) rid) = Some shown
    \<and> decoded_or_empty s (w_fs w') rid = JStr shown
    \<and> no_match wd shown mac_re \<and> no_match wd shown ipv6_re"
proof -
  let ?w0 = "w\<lparr>w_faults := tl (w_faults w)\<rparr>"
  from decode_report_cases [OF run row] have "decode_row e rid row ?w0 = (Inr gid, w')" by auto
  with decode_row_stored(2) [OF laws(1,2), where w = ?w0 and w' = w'] layout row raw
  have "stored_as e rid row raw gid ?w0 w'" by simp
  then obtain encoding log dir fs1 where
    d: "parse_encoding (rp_payload_encoding row) = Inr encoding" "Payload.decode (de_payload e) raw encoding = Inr log"
    and f: "fs_read (w_fs w') (path_join (decoded_dir (de_cfg e)) rid) =
        Some (as_bytes (decoded_text e fs1 dir (rp_kernel_buildid row) log))"
    unfolding stored_as_def by blast
  have "list_all scalar (decoded_text e fs1 dir (rp_kernel_buildid row) log)"
    using decoded_scalar [OF laws(4,3)] decode_bounds [OF d(2)] by blast
  from read_stored [OF f this] have "read_to_string (w_fs w') (path_join (decoded_dir (sv_cfg s)) rid) =
      Some (decoded_text e fs1 dir (rp_kernel_buildid row) log)" by (simp add: cfg)
  with d decoded_clean [OF laws(4)] show ?thesis
    by (auto simp: decoded_or_empty_def text_or_empty_def)
qed

end
