(* ===== verification/Ingest_Props.thy ===== *)
theory Ingest_Props
  imports Access
begin

text \<open>
  What an accepted upload has done, what a rejected one leaves behind, and the trust on first
  use of device keys.
\<close>

subsection \<open>Reading off an upload\<close>

lemma collect_fields_sizes:
  assumes "collect_fields fs m p = Inr (m', p')"
    and "\<forall>t. m = Some t \<longrightarrow> str_len t \<le> MAX_METADATA_SIZE" "\<forall>d. p = Some d \<longrightarrow> length d \<le> MAX_PAYLOAD_SIZE"
  shows "(\<forall>t. m' = Some t \<longrightarrow> str_len t \<le> MAX_METADATA_SIZE) \<and> (\<forall>d. p' = Some d \<longrightarrow> length d \<le> MAX_PAYLOAD_SIZE)"
  using assms by (induction fs m p rule: collect_fields.induct) (auto split: if_splits option.splits)

declare and_then_Inr [simp]

lemma parse_multipart_payload:
  assumes "parse_multipart e h body = Inr (meta, payload)"
  shows "length payload \<le> 262144"
proof -
  from assms obtain fs m p where c: "collect_fields fs None None = Inr (Some m, Some p)"
    and j: "(case sv_json e m of Inl msg \<Rightarrow> Inl (bad (lit ''invalid metadata: '' @ msg))
      | Inr meta \<Rightarrow> Inr (meta, p)) = Inr (meta, payload)"
    by (auto simp: parse_multipart_def)
  from j have "payload = p" by (cases "sv_json e m") auto
  with collect_fields_sizes [OF c] show ?thesis by (simp add: MAX_PAYLOAD_SIZE_def)
qed

text \<open>The key of a request, when it has one, has signed the body.\<close>

definition signed_by :: "'k server_env \<Rightarrow> headers \<Rightarrow> byte list \<Rightarrow> ustr \<Rightarrow> bool" where
  "signed_by e h body pubkey \<longleftrightarrow> h (lit ''x-ucr-pubkey'') = Some pubkey \<and>
     (\<exists>sig_b64 key. h (lit ''x-ucr-signature'') = Some sig_b64
        \<and> from_base64 (sv_usign e) pubkey = Inr key \<and> verify (sv_usign e) key sig_b64 body = Inr ())"

lemma upsert_device_selected:
  assumes "upsert_device r db = Some (d, db')"
  shows "select_device (dv_pubkey r) db' = Some d
    \<and> (\<forall>pk d0. select_device pk db = Some d0 \<longrightarrow> select_device pk db' = Some d0)
    \<and> db_reports db' = db_reports db \<and> db_jobs db' = db_jobs db"
  using assms
  by (auto simp: upsert_device_def select_device_def lookup_update_where lookup_by_append lookup_by_Cons
      dest: lookup_by_SomeD split: option.splits if_splits)

lemma authenticated:
  assumes "authenticate_device e h body w = (Inr device, w')"
  shows "(case device of
      None \<Rightarrow> h (lit ''x-ucr-pubkey'') = None \<and> w' = w
    | Some d \<Rightarrow> \<exists>pk. signed_by e h body pk \<and> select_device pk (w_db w') = Some d)
    \<and> db_reports (w_db w') = db_reports (w_db w) \<and> db_jobs (w_db w') = db_jobs (w_db w)
    \<and> w_fs w' = w_fs w \<and> w_now w' = w_now w"
proof (cases "h (lit ''x-ucr-pubkey'')")
  case None
  with assms show ?thesis by (auto simp: authenticate_device_def ret_def simp del: lit_Cons)
next
  case (Some pk)
  with assms obtain sg key d db where
    s: "h (lit ''x-ucr-signature'') = Some sg" "from_base64 (sv_usign e) pk = Inr key"
      "verify (sv_usign e) key sg body = Inr ()"
    and u: "upsert_device \<lparr>dv_id = au_id_at e (w_ids w), dv_pubkey = pk, dv_first_seen = w_now w,
        dv_last_seen = w_now w\<rparr> (w_db w) = Some (d, db)"
    and d: "device = Some d" and w': "w_db w' = db" "w_fs w' = w_fs w" "w_now w' = w_now w"
    by (auto simp: authenticate_device_def io_inv io_basic new_id_def simp del: lit_Cons split: option.splits)
  from Some s have "signed_by e h body pk" by (auto simp: signed_by_def simp del: lit_Cons)
  with upsert_device_selected [OF u] d w' show ?thesis by auto
qed

lemma store_report_Inr:
  assumes "store_report e rid device meta payload w = (Inr resp, w')"
  shows "resp = respond_created (sv_cfg e) rid
    \<and> lookup_by rp_id rid (db_reports (w_db w)) = None
    \<and> db_reports (w_db w') = db_reports (w_db w) @ [new_report e rid device (w_now w) meta]
    \<and> (\<exists>jid. db_jobs (w_db w') = db_jobs (w_db w) @ [new_job jid rid])
    \<and> fs_read (w_fs w') (path_join (raw_dir (sv_cfg e)) rid) = Some payload
    \<and> (\<forall>pk. select_device pk (w_db w') = select_device pk (w_db w))"
proof -
  from assms obtain fs1 fs2 db1 db2 jid where
    f: "fs_write fs1 (path_join (raw_dir (sv_cfg e)) rid) payload = Some fs2"
    and r: "insert_report (new_report e rid device (w_now w) meta) (w_db w) = Some db1"
    and j: "insert_job (new_job jid rid) db1 = Some db2"
    and e: "resp = respond_created (sv_cfg e) rid" "w_db w' = db2" "w_fs w' = fs2"
    by (auto simp: store_report_def io_inv io_basic new_id_def)
  from fs_read_write [OF f] r j e show ?thesis
    by (auto simp: insert_report_def insert_job_def new_report_def references_def select_device_def split: if_splits option.splits)
qed

lemma post_report_Inr:
  assumes "post_report e h body w = (Inr resp, w')"
  obtains device meta payload w1 w2 where "authenticate_device e h body w = (Inr device, w1)"
    "parse_multipart e h body = Inr (meta, payload)" "md_format meta = FORMAT_VERSION"
    "au_sha_hex e payload = sv_lowercase e (md_payload_sha256 meta)" "sv_is_uuid e (md_uuid meta)"
    "w_db w2 = w_db w1" "w_fs w2 = w_fs w1" "w_now w2 = w_now w1"
    "(case lookup_by rp_id (md_uuid meta) (db_reports (w_db w1)) of
        None \<Rightarrow> store_report e (md_uuid meta) device meta payload w2 = (Inr resp, w')
      | Some r \<Rightarrow>
          if rp_device_id r \<noteq> None \<and> rp_device_id r = device
          then resp = respond_created (sv_cfg e) (md_uuid meta) \<and> w' = w2
          else \<exists>rid. store_report e rid device meta payload w2 = (Inr resp, w'))"
proof -
  from assms obtain device w1 meta payload where a: "authenticate_device e h body w = (Inr device, w1)"
    and p: "parse_multipart e h body = Inr (meta, payload)"
    by (auto simp: post_report_def bindE_Inr lift_result_def)
  let ?w2 = "w1\<lparr>w_faults := tl (w_faults w1)\<rparr>"
  from assms a p have c: "md_format meta = FORMAT_VERSION"
    "au_sha_hex e payload = sv_lowercase e (md_payload_sha256 meta)" "sv_is_uuid e (md_uuid meta)"
    by (auto simp: post_report_def bindE_Inr io_basic split: if_splits)
  show ?thesis
  proof (cases "lookup_by rp_id (md_uuid meta) (db_reports (w_db w1))")
    case None
    with assms a p c have "store_report e (md_uuid meta) device meta payload ?w2 = (Inr resp, w')"
      by (auto simp: post_report_def io_inv io_basic)
    with that [OF a p c, of ?w2] None show ?thesis by simp
  next
    case (Some r)
    show ?thesis
    proof (cases "rp_device_id r \<noteq> None \<and> rp_device_id r = device")
      case True
      with assms a p c Some have "resp = respond_created (sv_cfg e) (md_uuid meta) \<and> w' = ?w2"
        by (auto simp: post_report_def io_inv io_basic)
      moreover from True obtain d where "rp_device_id r = Some d" "device = Some d" by auto
      ultimately show ?thesis using that [OF a p c, of ?w2] Some by simp
    next
      case False
      with assms a p c Some have
        "\<exists>rid. store_report e rid device meta payload (?w2\<lparr>w_ids := Suc (w_ids w1)\<rparr>) = (Inr resp, w')"
        by (auto simp: post_report_def io_inv io_basic new_id_def split: if_splits)
      with Some False have "case lookup_by rp_id (md_uuid meta) (db_reports (w_db w1)) of
          None \<Rightarrow> store_report e (md_uuid meta) device meta payload (?w2\<lparr>w_ids := Suc (w_ids w1)\<rparr>) = (Inr resp, w')
        | Some r \<Rightarrow>
            if rp_device_id r \<noteq> None \<and> rp_device_id r = device
            then resp = respond_created (sv_cfg e) (md_uuid meta) \<and> w' = ?w2\<lparr>w_ids := Suc (w_ids w1)\<rparr>
            else \<exists>rid. store_report e rid device meta payload (?w2\<lparr>w_ids := Suc (w_ids w1)\<rparr>) = (Inr resp, w')"
        by auto
      from that [OF a p c _ _ _ this] show ?thesis by simp
    qed
  qed
qed

subsection \<open>Properties\<close>

text \<open>C11. An upload that is answered with success was well-formed and, when it names a key,
  signed by that key, whose device is then registered; it has either changed no report and no
  job, being the repetition of an upload by the same device, or it has added exactly one
  private report under an id that was free, one pending job for it, and the payload in the file
  of the report.\<close>

theorem accepted_upload:
  assumes "post_report e h body w = (Inr resp, w')"
  shows "\<exists>device meta payload rid. parse_multipart e h body = Inr (meta, payload)
    \<and> md_format meta = 1 \<and> length payload \<le> 262144
    \<and> au_sha_hex e payload = sv_lowercase e (md_payload_sha256 meta)
    \<and> (case device of None \<Rightarrow> h (lit ''x-ucr-pubkey'') = None
        | Some d \<Rightarrow> \<exists>pk. signed_by e h body pk \<and> select_device pk (w_db w') = Some d)
    \<and> resp = respond_created (sv_cfg e) rid
    \<and> (rid = md_uuid meta \<and> device \<noteq> None
         \<and> map_option rp_device_id (lookup_by rp_id rid (db_reports (w_db w))) = Some device
         \<and> db_reports (w_db w') = db_reports (w_db w) \<and> db_jobs (w_db w') = db_jobs (w_db w) \<and> w_fs w' = w_fs w
       \<or> lookup_by rp_id rid (db_reports (w_db w)) = None
         \<and> db_reports (w_db w') = db_reports (w_db w) @ [new_report e rid device (w_now w) meta]
         \<and> (\<exists>jid. db_jobs (w_db w') = db_jobs (w_db w) @ [new_job jid rid])
         \<and> fs_read (w_fs w') (path_join (raw_dir (sv_cfg e)) rid) = Some payload)"
proof -
  from assms obtain device meta payload w1 w2 where a: "authenticate_device e h body w = (Inr device, w1)"
    and p: "parse_multipart e h body = Inr (meta, payload)" "md_format meta = FORMAT_VERSION"
      "au_sha_hex e payload = sv_lowercase e (md_payload_sha256 meta)"
    and w2: "w_db w2 = w_db w1" "w_fs w2 = w_fs w1" "w_now w2 = w_now w1"
    and c: "case lookup_by rp_id (md_uuid meta) (db_reports (w_db w1)) of
        None \<Rightarrow> store_report e (md_uuid meta) device meta payload w2 = (Inr resp, w')
      | Some r \<Rightarrow>
          if rp_device_id r \<noteq> None \<and> rp_device_id r = device
          then resp = respond_created (sv_cfg e) (md_uuid meta) \<and> w' = w2
          else \<exists>rid. store_report e rid device meta payload w2 = (Inr resp, w')"
    by (rule post_report_Inr)
  have dev: "case device of None \<Rightarrow> h (lit ''x-ucr-pubkey'') = None
      | Some d \<Rightarrow> \<exists>pk. signed_by e h body pk \<and> select_device pk (w_db w1) = Some d"
    and au: "db_reports (w_db w1) = db_reports (w_db w)" "db_jobs (w_db w1) = db_jobs (w_db w)"
      "w_fs w1 = w_fs w" "w_now w1 = w_now w"
    using authenticated [OF a] by (auto split: option.splits)
  have "length payload \<le> 262144" by (rule parse_multipart_payload [OF p(1)])
  note wf = p(1) p(2) [unfolded FORMAT_VERSION_def] this p(3)
  have stored: ?thesis if st: "store_report e rid device meta payload w2 = (Inr resp, w')" for rid
  proof -
    note sr = store_report_Inr [OF st, unfolded w2 au]
    have "case device of None \<Rightarrow> h (lit ''x-ucr-pubkey'') = None
      | Some d \<Rightarrow> \<exists>pk. signed_by e h body pk \<and> select_device pk (w_db w') = Some d"
      using dev sr by (auto split: option.splits)
    with wf sr show ?thesis by blast
  qed
  show ?thesis
  proof (cases "lookup_by rp_id (md_uuid meta) (db_reports (w_db w1))")
    case None
    with c stored show ?thesis by simp
  next
    case (Some r)
    show ?thesis
    proof (cases "rp_device_id r \<noteq> None \<and> rp_device_id r = device")
      case True
      then obtain d where "rp_device_id r = Some d" "device = Some d" by auto
      with c Some have "resp = respond_created (sv_cfg e) (md_uuid meta)" "w' = w2" by simp_all
      with wf dev au w2 Some True show ?thesis
        by (intro exI [of _ device] exI [of _ meta] exI [of _ payload] exI [of _ "md_uuid meta"]) auto
    next
      case False
      with c Some stored show ?thesis by auto
    qed
  qed
qed

subsection \<open>A failure between report and job\<close>

text \<open>An upload with a key, step by step.\<close>

lemma keyed_upload_parts:
  assumes "post_report e h body w = (Inr r, w0)" "parse_multipart e h body = Inr (meta, payload)"
    and "h (lit ''x-ucr-pubkey'') = Some pk" "lookup_by rp_id (md_uuid meta) (db_reports (w_db w)) = None"
  obtains sg key d db1 fs1 fs2 db2 where
    "h (lit ''x-ucr-signature'') = Some sg" "from_base64 (sv_usign e) pk = Inr key"
    "verify (sv_usign e) key sg body = Inr ()"
    "upsert_device \<lparr>dv_id = au_id_at e (w_ids w), dv_pubkey = pk, dv_first_seen = w_now w,
       dv_last_seen = w_now w\<rparr> (w_db w) = Some (d, db1)"
    "md_format meta = FORMAT_VERSION" "au_sha_hex e payload = sv_lowercase e (md_payload_sha256 meta)"
    "sv_is_uuid e (md_uuid meta)"
    "fs_create_dir_all (w_fs w) (raw_dir (sv_cfg e)) = Some fs1"
    "fs_write fs1 (path_join (raw_dir (sv_cfg e)) (md_uuid meta)) payload = Some fs2"
    "insert_report (new_report e (md_uuid meta) (Some d) (w_now w) meta) db1 = Some db2"
proof -
  from assms(1) obtain device w1 where a: "authenticate_device e h body w = (Inr device, w1)"
    by (auto simp: post_report_def bindE_Inr)
  with assms(3) obtain sg key d db1 where
    s: "h (lit ''x-ucr-signature'') = Some sg" "from_base64 (sv_usign e) pk = Inr key"
      "verify (sv_usign e) key sg body = Inr ()"
      "upsert_device \<lparr>dv_id = au_id_at e (w_ids w), dv_pubkey = pk, dv_first_seen = w_now w,
        dv_last_seen = w_now w\<rparr> (w_db w) = Some (d, db1)"
    and d: "device = Some d" and w1: "w_db w1 = db1" "w_fs w1 = w_fs w" "w_now w1 = w_now w"
    by (auto simp: authenticate_device_def io_inv io_basic new_id_def simp del: lit_Cons split: option.splits)
  have none: "lookup_by rp_id (md_uuid meta) (db_reports db1) = None"
    using upsert_device_selected [OF s(4)] assms(4) by simp
  from assms(1,2) a have c: "md_format meta = FORMAT_VERSION"
    "au_sha_hex e payload = sv_lowercase e (md_payload_sha256 meta)" "sv_is_uuid e (md_uuid meta)"
    by (auto simp: post_report_def bindE_Inr io_basic split: if_splits)
  with assms(1,2) a none w1 d have
    "store_report e (md_uuid meta) (Some d) meta payload (w1\<lparr>w_faults := tl (w_faults w1)\<rparr>) = (Inr r, w0)"
    by (auto simp: post_report_def io_inv io_basic)
  with w1 obtain fs1 fs2 db2 where "fs_create_dir_all (w_fs w) (raw_dir (sv_cfg e)) = Some fs1"
    "fs_write fs1 (path_join (raw_dir (sv_cfg e)) (md_uuid meta)) payload = Some fs2"
    "insert_report (new_report e (md_uuid meta) (Some d) (w_now w) meta) db1 = Some db2"
    by (auto simp: store_report_def io_inv io_basic)
  with that [OF s c] show ?thesis by blast
qed

text \<open>C12. Report and job are two statements without a transaction: if the second fails, the
  device is told of an internal error, and when it sends the report again, it is told that all
  is well, while no job exists for the report: it is never decoded.\<close>

theorem failed_upload_lost:
  assumes "db_ok (w_db w)" and "post_report e h body w = (Inr r, w0)"
    and "parse_multipart e h body = Inr (meta, payload)" and "h (lit ''x-ucr-pubkey'') = Some pk"
    and "lookup_by rp_id (md_uuid meta) (db_reports (w_db w)) = None"
    and "post_report e h body (w\<lparr>w_faults := [False, False, False, True]\<rparr>) = (x, w1)"
    and "post_report e h body (w1\<lparr>w_faults := []\<rparr>) = (y, w2)"
  shows "x = Inl (Api_Error 500 (lit ''internal error''))
    \<and> y = Inr (respond_created (sv_cfg e) (md_uuid meta))
    \<and> map_option rp_state (lookup_by rp_id (md_uuid meta) (db_reports (w_db w2))) = Some Received
    \<and> (\<forall>j\<in>set (db_jobs (w_db w2)). jb_report_id j \<noteq> md_uuid meta)"
proof -
  let ?v = "w\<lparr>w_faults := [False, False, False, True]\<rparr>"
  let ?rid = "md_uuid meta"
  from assms(2-5) obtain sg key d db1 fs1 fs2 db2 where
    s: "h (lit ''x-ucr-signature'') = Some sg" "from_base64 (sv_usign e) pk = Inr key"
      "verify (sv_usign e) key sg body = Inr ()"
    and u: "upsert_device \<lparr>dv_id = au_id_at e (w_ids w), dv_pubkey = pk, dv_first_seen = w_now w,
        dv_last_seen = w_now w\<rparr> (w_db w) = Some (d, db1)"
    and c: "md_format meta = FORMAT_VERSION" "au_sha_hex e payload = sv_lowercase e (md_payload_sha256 meta)"
      "sv_is_uuid e ?rid"
    and f: "fs_create_dir_all (w_fs w) (raw_dir (sv_cfg e)) = Some fs1"
      "fs_write fs1 (path_join (raw_dir (sv_cfg e)) ?rid) payload = Some fs2"
    and i: "insert_report (new_report e ?rid (Some d) (w_now w) meta) db1 = Some db2"
    by (rule keyed_upload_parts)
  note us = upsert_device_selected [OF u]
  have none: "lookup_by rp_id ?rid (db_reports db1) = None" using us assms(5) by simp
  have i2: "db2 = db1\<lparr>db_reports := db_reports db1 @ [new_report e ?rid (Some d) (w_now w) meta]\<rparr>"
    using i by (auto simp: insert_report_def split: if_splits)
  have x: "x = Inl (internal_error [External (lit ''database error'')])
      \<and> w_db w1 = db2"
    using assms(3,4,6) s u c f i none
    by (auto simp: post_report_def authenticate_device_def store_report_def new_id_def bindE_def map_err_def
        query_def exec_def select_def fs_do_def lift_result_def on_error_def get_now_def draw_def ret_def
        simp del: lit_Cons)
  have l2: "lookup_by rp_id ?rid (db_reports db2) = Some (new_report e ?rid (Some d) (w_now w) meta)"
    using none i2 by (simp add: lookup_by_append lookup_by_Cons new_report_def)
  have sel: "select_device pk db2 = Some d" using us i2 by (simp add: select_device_def)
  let ?dv = "\<lparr>dv_id = au_id_at e (w_ids w1), dv_pubkey = pk, dv_first_seen = w_now w1, dv_last_seen = w_now w1\<rparr>"
  from sel obtain db3 where u3: "upsert_device ?dv db2 = Some (d, db3)"
    and db3: "db_reports db3 = db_reports db2" "db_jobs db3 = db_jobs db2"
    by (auto simp: select_device_def upsert_device_def)
  have y: "y = Inr (respond_created (sv_cfg e) ?rid) \<and> w_db w2 = db3"
    using assms(3,4,7) s c x u3 db3 l2
    by (auto simp: post_report_def authenticate_device_def new_id_def bindE_def map_err_def new_report_def
        query_def select_def lift_result_def on_error_def get_now_def draw_def ret_def
        simp del: lit_Cons)
  have "jb_report_id j \<noteq> ?rid" if "j \<in> set (db_jobs (w_db w))" for j
    using that assms(1,5) by (auto simp: db_ok_defs references_def)
  moreover have "db_jobs db3 = db_jobs (w_db w)" using db3 i2 us by simp
  ultimately show ?thesis using x y l2 db3
    by (simp add: internal_error_def new_report_def del: lit_Cons)
qed

subsection \<open>Two uploads at once\<close>

text \<open>\<open>post_report\<close> in two stages: the checks, up to the choice of the id, and the storing.
  Requests of other devices may be handled between the two.\<close>

datatype admission = Known ustr | Fresh ustr "ustr option" report_metadata "byte list"

definition admit_report :: "'k server_env \<Rightarrow> headers \<Rightarrow> byte list \<Rightarrow> (api_error, admission) io" where
  "admit_report e headers body =
     bindE (authenticate_device e headers body) (\<lambda>device_id.
     bindE (lift_result (parse_multipart e headers body)) (\<lambda>(meta, payload).
     if md_format meta \<noteq> FORMAT_VERSION then throw (bad (lit ''unsupported format''))
     else if au_sha_hex e payload \<noteq> sv_lowercase e (md_payload_sha256 meta)
     then throw (bad (lit ''payload_sha256 mismatch''))
     else if \<not> sv_is_uuid e (md_uuid meta) then throw (bad (lit ''invalid uuid''))
     else
       bindE (internal (select (\<lambda>db. map_option rp_device_id (lookup_by rp_id (md_uuid meta) (db_reports db)))))
         (\<lambda>row. case row of
            Some existing_dev \<Rightarrow>
              if existing_dev \<noteq> None \<and> existing_dev = device_id then ret (Known (md_uuid meta))
              else bindE (new_id e) (\<lambda>report_id. ret (Fresh report_id device_id meta payload))
          | None \<Rightarrow> ret (Fresh (md_uuid meta) device_id meta payload))))"

definition finish_report :: "'k server_env \<Rightarrow> admission \<Rightarrow> (api_error, response) io" where
  "finish_report e a = (case a of
     Known rid \<Rightarrow> ret (respond_created (sv_cfg e) rid)
   | Fresh rid device meta payload \<Rightarrow> store_report e rid device meta payload)"

lemma finish_report_stages:
  "finish_report e (Known rid) = ret (respond_created (sv_cfg e) rid)"
  "finish_report e (Fresh rid device meta payload) = store_report e rid device meta payload"
  by (simp_all add: finish_report_def)

lemma bindE_assoc: "bindE (bindE m f) g = bindE m (\<lambda>x. bindE (f x) g)"
  by (rule ext) (simp add: bindE_def split: prod.split sum.split)

lemma bindE_unit: "bindE (ret x) g = g x" "bindE (throw err) g = throw err"
  by (simp_all add: bindE_def ret_def throw_def fun_eq_iff)

lemma bindE_cases:
  "bindE (if b then m else m') g = (if b then bindE m g else bindE m' g)"
  "bindE (case p of (a, b) \<Rightarrow> f a b) g = (case p of (a, b) \<Rightarrow> bindE (f a b) g)"
  "bindE (case x of None \<Rightarrow> n | Some y \<Rightarrow> k y) g = (case x of None \<Rightarrow> bindE n g | Some y \<Rightarrow> bindE (k y) g)"
  by (simp_all split: prod.split option.split)

lemma post_report_stages: "post_report e h body = bindE (admit_report e h body) (finish_report e)"
  unfolding post_report_def admit_report_def bindE_assoc bindE_cases bindE_unit finish_report_stages ..

lemma report_known:
  assumes "post_report e h body w = (Inr (respond_created (sv_cfg e) rid), w')"
  shows "lookup_by rp_id rid (db_reports (w_db w')) \<noteq> None"
proof -
  have inj: "respond_created (sv_cfg e) rid = respond_created (sv_cfg e) i \<longleftrightarrow> rid = i" for i
    by (auto simp: respond_created_def simp del: lit_Cons)
  have st: "store_report e i device meta payload v = (Inr (respond_created (sv_cfg e) rid), w') \<Longrightarrow>
      lookup_by rp_id rid (db_reports (w_db w')) \<noteq> None" for i device meta payload v
    using store_report_Inr [of e i device meta payload v] inj
    by (auto simp: lookup_by_append lookup_by_Cons new_report_def split: option.split)
  show ?thesis
    by (rule post_report_Inr [OF assms])
      (auto dest!: st simp: inj simp del: lit_Cons split: option.splits if_splits)
qed

text \<open>C13. The check that keeps one device from writing over the report of another is not atomic
  with the writing: when two requests use the same id, and the first is handled between the
  check and the storing of the second, then the second is told of an internal error and changes
  nothing in the database, but the payload in the file of the first report is now the one of
  the second.\<close>

theorem upload_race_overwrites:
  assumes checked: "admit_report e h2 body2 w = (Inr (Fresh rid d2 meta2 payload2), w1)"
    and first: "post_report e h1 body1 w1 = (Inr (respond_created (sv_cfg e) rid), w2)"
    and second: "finish_report e (Fresh rid d2 meta2 payload2) w2 = (r, w3)"
    and disk: "fs_create_dir_all (w_fs w2) (raw_dir (sv_cfg e)) = Some fs1"
      "fs_write fs1 (path_join (raw_dir (sv_cfg e)) rid) payload2 = Some fs2"
  shows "r = Inl (Api_Error 500 (lit ''internal error'')) \<and> w_db w3 = w_db w2
    \<and> lookup_by rp_id rid (db_reports (w_db w3)) \<noteq> None
    \<and> fs_read (w_fs w3) (path_join (raw_dir (sv_cfg e)) rid) = Some payload2"
proof -
  note known = report_known [OF first]
  then have "insert_report (new_report e rid d2 t meta2) (w_db w2) = None" for t
    by (simp add: insert_report_def new_report_def references_def)
  with second disk have "r = Inl (Api_Error 500 (lit ''internal error''))" "w_db w3 = w_db w2" "w_fs w3 = fs2"
    by (auto simp: finish_report_def store_report_def bindE_def map_err_def fs_do_def os_def get_now_def
        exec_def query_def internal_error_def simp del: lit_Cons split: if_splits)
  with known fs_read_write [OF disk(2)] show ?thesis by simp
qed

end
