(* ===== verification/Devices.thy ===== *)
theory Devices
  imports Access
begin

text \<open>
  Devices over time: the key a device first used stays bound to its id, what it sent stays as
  received, and a login answers one fresh challenge with the key's own signature.
\<close>

subsection \<open>What is kept\<close>

text \<open>The columns of a report that the upload fills.\<close>

definition sent :: "report_row \<Rightarrow> report_row" where
  "sent r = r\<lparr>rp_state := Received, rp_visibility := Private, rp_group_id := None,
     rp_publish_slug := None, rp_raw_deleted_at := None\<rparr>"

definition same_origin :: "world \<Rightarrow> world \<Rightarrow> bool" where
  "same_origin w w' \<longleftrightarrow>
     (\<forall>pk i. select_device pk (w_db w) = Some i \<longrightarrow> select_device pk (w_db w') = Some i) \<and>
     (\<forall>rid r. lookup_by rp_id rid (db_reports (w_db w)) = Some r \<longrightarrow>
        (\<exists>r'. lookup_by rp_id rid (db_reports (w_db w')) = Some r' \<and> sent r' = sent r))"

lemma same_tables_origin:
  "db_devices db = db_devices (w_db w) \<Longrightarrow> db_reports db = db_reports (w_db w) \<Longrightarrow>
     same_origin w (w\<lparr>w_db := db\<rparr>)"
  by (auto simp: same_origin_def select_device_def)

lemma update_origin:
  assumes "\<And>r. rp_id (f r) = rp_id r" "\<And>r. sent (f r) = sent r"
    and "db_devices db = db_devices (w_db w)" "db_reports db = update_where P f (db_reports (w_db w))"
  shows "same_origin w (w\<lparr>w_db := db\<rparr>)"
  using assms by (auto simp: same_origin_def select_device_def lookup_update_where)

lemma upsert_device_lookup:
  "upsert_device d db = Some (x, db') \<Longrightarrow> select_device pk db = Some i \<Longrightarrow> select_device pk db' = Some i"
  by (auto simp: upsert_device_def select_device_def lookup_update_where lookup_by_append
      split: option.splits if_splits)

lemma upsert_origin: "upsert_device d (w_db w) = Some (x, db) \<Longrightarrow> same_origin w (w\<lparr>w_db := db\<rparr>)"
  using upsert_device_lookup [of d "w_db w" x db] statements_reports(2) [of d "w_db w" x db]
  by (auto simp: same_origin_def)

lemma insert_report_origin: "insert_report r (w_db w) = Some db \<Longrightarrow> same_origin w (w\<lparr>w_db := db\<rparr>)"
  by (auto simp: insert_report_def same_origin_def select_device_def lookup_by_append split: if_splits)

lemma statements_devices:
  "insert_job j db = Some db' \<Longrightarrow> db_devices db' = db_devices db"
  "upsert_group g db = Some (y, db') \<Longrightarrow> db_devices db' = db_devices db"
  "issue_token h dev t db = Some db' \<Longrightarrow> db_devices db' = db_devices db"
  "issue_session h user t db = Some db' \<Longrightarrow> db_devices db' = db_devices db"
  "insert_user u db = Some db' \<Longrightarrow> db_devices db' = db_devices db"
  "claim_statement db = Some (z, db') \<Longrightarrow> db_devices db' = db_devices db"
  by (auto simp: insert_job_def upsert_group_def issue_token_def insert_token_def
      issue_session_def insert_session_def insert_user_def claim_statement_def
      split: if_splits option.splits)

lemma deletes_devices:
  "db_devices (delete_session h db) = db_devices db" "db_devices (delete_tokens t db) = db_devices db"
  "db_devices (delete_sessions t db) = db_devices db" "db_devices (set_job_done jid db) = db_devices db"
  "db_devices (set_job_error st err jid db) = db_devices db"
  by (simp_all add: delete_session_def delete_tokens_def delete_sessions_def set_job_done_def set_job_error_def)

lemmas tables_same = statements_reports statements_devices

interpretation origin: server_frame_all same_origin
proof
  show "same_origin u v \<Longrightarrow> same_origin v w \<Longrightarrow> same_origin u w" for u v w
    unfolding same_origin_def by (metis (no_types))
  fix w db slug rid
  show "set_public slug rid (w_db w) = Some db \<Longrightarrow> same_origin w (w\<lparr>w_db := db\<rparr>)"
    by (rule update_origin [where f = "\<lambda>r. r\<lparr>rp_visibility := Public, rp_publish_slug := Some slug\<rparr>"
        and P = "\<lambda>r. rp_id r = rid"]) (auto simp: set_public_def sent_def split: if_splits)
  show "same_origin w (w\<lparr>w_db := set_private rid (w_db w)\<rparr>)"
    by (rule update_origin [where f = "\<lambda>r. r\<lparr>rp_visibility := Private, rp_publish_slug := None\<rparr>"
        and P = "\<lambda>r. rp_id r = rid"]) (auto simp: set_private_def sent_def)
qed ((erule upsert_origin | erule insert_report_origin
    | (rule same_tables_origin; (erule tables_same | simp add: deletes_devices deletes_reports))
    | (simp add: same_origin_def))+)

interpretation decoder_origin: decoder_frame_all same_origin
proof
  fix w db gid ts rid
  show "set_report_decoded gid ts rid (w_db w) = Some db \<Longrightarrow> same_origin w (w\<lparr>w_db := db\<rparr>)"
    by (rule update_origin [where f = "\<lambda>r. r\<lparr>rp_state := Decoded, rp_group_id := Some gid, rp_raw_deleted_at := Some ts\<rparr>"
        and P = "\<lambda>r. rp_id r = rid"]) (auto simp: set_report_decoded_def sent_def split: if_splits)
  show "same_origin w (w\<lparr>w_db := set_report_failed rid (w_db w)\<rparr>)"
    by (rule update_origin [where f = "\<lambda>r. r\<lparr>rp_state := Report_Failed\<rparr>" and P = "\<lambda>r. rp_id r = rid"])
      (auto simp: set_report_failed_def sent_def)
  show "same_origin w (w\<lparr>w_db := mark_raw_deleted ts rid (w_db w)\<rparr>)"
    by (rule update_origin [where f = "\<lambda>r. r\<lparr>rp_raw_deleted_at := Some ts\<rparr>" and P = "\<lambda>r. rp_id r = rid"])
      (auto simp: mark_raw_deleted_def sent_def)
qed ((rule same_tables_origin; (erule tables_same | simp add: deletes_devices deletes_reports))+)

interpretation deployed_origin: deployment_frame same_origin
  by unfold_locales (erule origin.P_job, simp add: same_origin_def)

text \<open>C14. Trust on first use: once a key is registered as a device, it is that device in every
  later state of the deployment; and a report, once accepted, is never lost, and what its sender
  said of it, its device among it, never changes.\<close>

theorem origin_kept:
  assumes "(deployment_step e x d)\<^sup>*\<^sup>* st st'"
  shows "(select_device pk (w_db (snd st)) = Some i \<longrightarrow> select_device pk (w_db (snd st')) = Some i)
    \<and> (lookup_by rp_id rid (db_reports (w_db (snd st))) = Some r \<longrightarrow>
       (\<exists>r'. lookup_by rp_id rid (db_reports (w_db (snd st'))) = Some r' \<and> sent r' = sent r))"
  using deployed_origin.run_kept [OF assms] unfolding same_origin_def by blast

subsection \<open>Login\<close>

text \<open>The challenges under other requests, as the contract of the store sees them.\<close>

fun nonce_step :: "nonce_map \<Rightarrow> (ustr, byte list) nonce_op \<Rightarrow> nonce_map" where
  "nonce_step m (Put k n t) = insert_nonce k n t m"
| "nonce_step m (Take k t) = snd (remove_nonce k t m)"

lemma nonce_step_eq: "nonce_step m op = nonces.run_op m op"
  by (cases op) simp_all

lemma nonce_steps_eq: "foldl nonce_step m ops = foldl nonces.run_op m ops"
  by (rule foldl_cong_state) (simp add: nonce_step_eq)

text \<open>A request takes or puts at most one challenge, for the key it names; only the challenge
  request puts one.\<close>

lemma device_challenge_nonces:
  "device_challenge e pubkey now m w = ((r, m'), w') \<Longrightarrow> m' = m \<or> (\<exists>n. m' = nonce_step m (Put pubkey n now))"
  by (auto simp: device_challenge_def Let_def split: sum.splits option.splits prod.splits)

lemma device_login_nonces:
  "device_login e pubkey signature now m w = ((r, m'), w') \<Longrightarrow> m' = m \<or> m' = nonce_step m (Take pubkey now)"
  by (auto simp: device_login_def split: sum.splits option.splits prod.splits)

lemma answer_challenge_Inr:
  assumes "answer_challenge e key pubkey signature nonce w = (Inr j, w')"
  shows "\<exists>d tok. verify (sv_usign e) key signature nonce = Inr () \<and> select_device pubkey (w_db w) = Some d
    \<and> j = JObj [(lit ''token'', JStr tok), (lit ''expires_in'', JInt 3600)]
    \<and> issue_token (token_hash e tok) d (w_now w + 3600) (w_db w) = Some (w_db w')"
  using assms
  by (auto simp: answer_challenge_def io_inv io_basic new_secret_def TOKEN_TTL_SECS_def simp del: lit_Cons)

text \<open>C10. A device logs in only with the signature of its own key over a challenge that the key
  was given and that is less than 60 seconds old; it then gets a token that is valid for exactly
  an hour. The challenge is used up: whatever other requests come in between, with the same key
  no login succeeds before a new challenge was asked for.\<close>

theorem device_login_sound:
  assumes login: "device_login e pubkey signature now (foldl nonce_step Map.empty ops) w = ((Inr j, m'), w')"
    and past: "list_all (\<lambda>op. op_time op \<le> now) ops"
  shows "\<exists>key nonce t0 older later d tok. from_base64 (sv_usign e) pubkey = Inr key
    \<and> ops = older @ Put pubkey nonce t0 # later \<and> list_all (\<lambda>op. op_key op \<noteq> pubkey) later
    \<and> now - t0 < 60 * 1000000000 \<and> verify (sv_usign e) key signature nonce = Inr ()
    \<and> select_device pubkey (w_db w) = Some d
    \<and> j = JObj [(lit ''token'', JStr tok), (lit ''expires_in'', JInt 3600)]
    \<and> (\<forall>t. select_token (token_hash e tok) t (w_db w') = (if t < w_now w + 3600 then Some d else None))
    \<and> (\<forall>ops' now' s w2. list_all (\<lambda>op. op_time op \<le> now' \<and> \<not> (is_put op \<and> op_key op = pubkey)) ops' \<longrightarrow>
         fst (fst (device_login e pubkey s now' (foldl nonce_step m' ops') w2)) =
           Inl (Api_Error 401 (lit ''no valid challenge'')))"
proof -
  let ?m = "foldl nonce_step Map.empty ops"
  from login obtain key where key: "from_base64 (sv_usign e) pubkey = Inr key"
    by (auto simp: device_login_def split: sum.splits)
  from login key obtain nonce where n: "fst (remove_nonce pubkey now ?m) = Some nonce"
    and m': "m' = snd (remove_nonce pubkey now ?m)"
    and a: "answer_challenge e key pubkey signature nonce w = (Inr j, w')"
    by (auto simp: device_login_def split: prod.splits option.splits)
  from answer_challenge_Inr [OF a] obtain d tok where
    d: "verify (sv_usign e) key signature nonce = Inr ()" "select_device pubkey (w_db w) = Some d"
      "j = JObj [(lit ''token'', JStr tok), (lit ''expires_in'', JInt 3600)]"
    and i: "issue_token (token_hash e tok) d (w_now w + 3600) (w_db w) = Some (w_db w')" by blast
  from nonces.picked_was_put [OF n [unfolded nonce_steps_eq] past] obtain older t0 later where
    p: "ops = older @ Put pubkey nonce t0 # later" "now - t0 < 60 * 1000000000"
      "list_all (\<lambda>op. op_key op \<noteq> pubkey) later"
    unfolding NONCE_TTL_def by blast
  have valid: "select_token (token_hash e tok) t (w_db w') = (if t < w_now w + 3600 then Some d else None)" for t
    using device_tokens.issue_valid [OF i] .
  have replay: "fst (fst (device_login e pubkey s now' (foldl nonce_step m' ops') w2)) =
      Inl (Api_Error 401 (lit ''no valid challenge''))"
    if "list_all (\<lambda>op. op_time op \<le> now' \<and> \<not> (is_put op \<and> op_key op = pubkey)) ops'" for ops' now' s w2
    using nonces.single_use [OF that, of now ?m] key m' nonce_steps_eq
    by (auto simp: device_login_def simp del: lit_Cons split: prod.splits option.splits)
  from key p d valid replay show ?thesis by blast
qed

end
