(* ===== verification/Ranking.thy ===== *)
theory Ranking
  imports Dashboard
begin










end
