(* ===== verification/Grouping.thy ===== *)
theory Grouping
  imports Deployment Decode_Props
begin

text \<open>
  Crash groups over time: a group keeps its id and its signature, so that the group a report
  was given stays the group of its signature.
\<close>

definition group_keys :: "database \<Rightarrow> (ustr \<times> ustr) set" where
  "group_keys db = (\<lambda>g. (cg_id g, cg_signature g)) ` set (db_groups db)"

definition same_groups :: "world \<Rightarrow> world \<Rightarrow> bool" where
  "same_groups w w' \<longleftrightarrow> group_keys (w_db w) \<subseteq> group_keys (w_db w')"

lemma groups_unchanged: "db_groups db = db_groups (w_db w) \<Longrightarrow> same_groups w (w\<lparr>w_db := db\<rparr>)"
  by (simp add: same_groups_def group_keys_def)

lemma map_update_where: "(\<And>r. k (f r) = k r) \<Longrightarrow> map k (update_where P f t) = map k t"
  by (simp add: update_where_def)

lemma group_keys_map: "group_keys db = set (map (\<lambda>g. (cg_id g, cg_signature g)) (db_groups db))"
  by (simp add: group_keys_def)

lemma upsert_group_keeps:
  assumes "upsert_group r (w_db w) = Some (x, db)"
  shows "same_groups w (w\<lparr>w_db := db\<rparr>)"
proof (cases "lookup_by cg_signature (cg_signature r) (db_groups (w_db w))")
  case None
  with assms show ?thesis by (auto simp: upsert_group_def same_groups_def group_keys_def split: if_splits)
next
  case (Some old)
  with assms have "db_groups db = update_where (\<lambda>g. cg_signature g = cg_signature r)
      (\<lambda>g. g\<lparr>cg_last_seen := cg_last_seen r\<rparr>) (db_groups (w_db w))"
    by (auto simp: upsert_group_def)
  then have "group_keys db = group_keys (w_db w)"
    by (simp only: group_keys_map) (subst map_update_where; simp)
  then show ?thesis by (simp add: same_groups_def)
qed

lemma statements_groups:
  "insert_job j db = Some db' \<Longrightarrow> db_groups db' = db_groups db"
  "insert_report r db = Some db' \<Longrightarrow> db_groups db' = db_groups db"
  "upsert_device dv db = Some (y, db') \<Longrightarrow> db_groups db' = db_groups db"
  "issue_token h dev t db = Some db' \<Longrightarrow> db_groups db' = db_groups db"
  "issue_session h user t db = Some db' \<Longrightarrow> db_groups db' = db_groups db"
  "insert_user u db = Some db' \<Longrightarrow> db_groups db' = db_groups db"
  "set_public s rid db = Some db' \<Longrightarrow> db_groups db' = db_groups db"
  "claim_statement db = Some (z, db') \<Longrightarrow> db_groups db' = db_groups db"
  "set_report_decoded gid ts rid db = Some db' \<Longrightarrow> db_groups db' = db_groups db"
  by (auto simp: insert_job_def insert_report_def upsert_device_def issue_token_def insert_token_def
      issue_session_def insert_session_def insert_user_def set_public_def claim_statement_def
      set_report_decoded_def split: if_splits option.splits)

lemma updates_groups:
  "db_groups (delete_session h db) = db_groups db" "db_groups (delete_tokens t db) = db_groups db"
  "db_groups (delete_sessions t db) = db_groups db" "db_groups (set_private rid db) = db_groups db"
  "db_groups (set_job_done jid db) = db_groups db" "db_groups (set_job_error st err jid db) = db_groups db"
  "db_groups (set_report_failed rid db) = db_groups db" "db_groups (mark_raw_deleted ts rid db) = db_groups db"
  by (simp_all add: delete_session_def delete_tokens_def delete_sessions_def set_private_def
      set_job_done_def set_job_error_def set_report_failed_def mark_raw_deleted_def)

interpretation grouped: deployment_frame same_groups
proof
  show "same_groups u v \<Longrightarrow> same_groups v w \<Longrightarrow> same_groups u w" for u v w
    unfolding same_groups_def by (rule subset_trans)
qed ((erule upsert_group_keeps | (rule groups_unchanged; (erule statements_groups | simp add: updates_groups))
    | (simp add: same_groups_def))+)

lemma stored_group:
  assumes "store_decoded e rid report txt sig w = (Inr gid, w')"
  shows "(gid, cs_signature sig) \<in> group_keys (w_db w')"
proof -
  from assms obtain fs1 fs2 db1 where
    u: "upsert_group (new_group (de_id_at e (w_ids w)) sig (rp_kind report) (w_now w) (rp_version report)) (w_db w) = Some (gid, db1)"
    and sd: "set_report_decoded gid (w_now w) rid db1 = Some (w_db w')"
    by (rule store_decoded_Inr)
  from upsert_group_row [OF u] set_report_decoded_Some [OF sd] show ?thesis
    by (force simp: new_group_def group_keys_def)
qed

text \<open>C6. Two reports are in the same group exactly when their signatures are equal, however much
  happens in the deployment between the two.\<close>

theorem grouping_exact:
  assumes "db_ok (w_db w1)"
    and first: "store_decoded e1 rid1 report1 text1 sig1 w1 = (Inr gid1, v1)"
    and between: "(deployment_step e x d)\<^sup>*\<^sup>* (n, v1) (n', w2)"
    and second: "store_decoded e2 rid2 report2 text2 sig2 w2 = (Inr gid2, v2)"
  shows "gid1 = gid2 \<longleftrightarrow> cs_signature sig1 = cs_signature sig2"
proof -
  have "same_groups v1 w2" using grouped.run_kept [OF between] by simp
  moreover have "same_groups w2 v2" by (rule movesD [OF grouped.moves_store_decoded second])
  ultimately have kept: "same_groups v1 v2" by (rule grouped.P_trans)
  have "keeps_ok w1 v1" by (rule movesD [OF decoder_ok.moves_store_decoded first])
  moreover have "keeps_ok v1 w2" using deployed_ok.run_kept [OF between] by simp
  moreover have "keeps_ok w2 v2" by (rule movesD [OF decoder_ok.moves_store_decoded second])
  ultimately have ok: "db_ok (w_db v2)" using assms(1) by (simp add: keeps_ok_def)
  have both: "(gid1, cs_signature sig1) \<in> group_keys (w_db v2)" "(gid2, cs_signature sig2) \<in> group_keys (w_db v2)"
    using stored_group [OF first] stored_group [OF second] kept by (auto simp: same_groups_def)
  from ok have inj: "inj_on cg_id (set (db_groups (w_db v2)))" "inj_on cg_signature (set (db_groups (w_db v2)))"
    by (auto simp: db_ok_defs keyed_def distinct_map)
  from both obtain g1 g2 where g: "g1 \<in> set (db_groups (w_db v2))" "cg_id g1 = gid1" "cg_signature g1 = cs_signature sig1"
    "g2 \<in> set (db_groups (w_db v2))" "cg_id g2 = gid2" "cg_signature g2 = cs_signature sig2"
    by (auto simp: group_keys_def)
  show ?thesis
  proof
    assume "gid1 = gid2"
    with g inj_onD [OF inj(1), of g1 g2] show "cs_signature sig1 = cs_signature sig2" by simp
  next
    assume "cs_signature sig1 = cs_signature sig2"
    with g inj_onD [OF inj(2), of g1 g2] show "gid1 = gid2" by simp
  qed
qed

end
