(* ===== verification/Report_Spec.thy ===== *)
theory Report_Spec
  imports Access Grouping
begin

text \<open>
  What the program is for, in five rules: reports are submitted, published, withdrawn,
  classified, or given up. The whole deployment, with all its requests, statements, periodic
  tasks and failures, is proved to be an implementation of these rules: every run of it is, seen
  on the reports, a run of the specification.
\<close>

subsection \<open>The specification\<close>

record filed =
  fl_device :: "ustr option"
  fl_state :: report_state
  fl_slug :: "ustr option"
  fl_crash :: "ustr option"

type_synonym filing = "ustr \<rightharpoonup> filed"

inductive spec_step :: "filing \<Rightarrow> filing \<Rightarrow> bool" where
  submit: "m rid = None \<Longrightarrow>
     spec_step m (m(rid \<mapsto> \<lparr>fl_device = d, fl_state = Received, fl_slug = None, fl_crash = None\<rparr>))"
| publish: "m rid = Some r \<Longrightarrow> (\<And>i r'. m i = Some r' \<Longrightarrow> fl_slug r' = Some s \<Longrightarrow> i = rid) \<Longrightarrow>
     spec_step m (m(rid \<mapsto> r\<lparr>fl_slug := Some s\<rparr>))"
| withdraw: "m rid = Some r \<Longrightarrow> spec_step m (m(rid \<mapsto> r\<lparr>fl_slug := None\<rparr>))"
| classify: "m rid = Some r \<Longrightarrow> spec_step m (m(rid \<mapsto> r\<lparr>fl_state := Decoded, fl_crash := Some c\<rparr>))"
| give_up: "m rid = Some r \<Longrightarrow> spec_step m (m(rid \<mapsto> r\<lparr>fl_state := Report_Failed\<rparr>))"

text \<open>The invariants of the specification: a slug has one report, and a decoded report its crash.\<close>

definition spec_ok :: "filing \<Rightarrow> bool" where
  "spec_ok m \<longleftrightarrow>
     (\<forall>i j r r' s. m i = Some r \<longrightarrow> m j = Some r' \<longrightarrow> fl_slug r = Some s \<longrightarrow> fl_slug r' = Some s \<longrightarrow> i = j) \<and>
     (\<forall>i r. m i = Some r \<longrightarrow> fl_state r = Decoded \<longrightarrow> fl_crash r \<noteq> None)"

lemma spec_step_ok: "spec_step m m' \<Longrightarrow> spec_ok m \<Longrightarrow> spec_ok m'"
  by (induction rule: spec_step.induct) (auto simp: spec_ok_def split: if_splits)

lemma spec_run_ok: "spec_step\<^sup>*\<^sup>* m m' \<Longrightarrow> spec_ok m \<Longrightarrow> spec_ok m'"
  by (induction rule: rtranclp_induct) (auto intro: spec_step_ok)

subsection \<open>The abstraction of a database\<close>

definition filed_of :: "group_row list \<Rightarrow> report_row \<Rightarrow> filed" where
  "filed_of gs r = \<lparr>fl_device = rp_device_id r, fl_state = rp_state r, fl_slug = rp_publish_slug r,
     fl_crash = Option.bind (rp_group_id r) (\<lambda>g. map_option cg_signature (lookup_by cg_id g gs))\<rparr>"

definition filing_of :: "database \<Rightarrow> filing" where
  "filing_of db = (\<lambda>rid. map_option (filed_of (db_groups db)) (lookup_by rp_id rid (db_reports db)))"

lemma filing_update:
  assumes "\<And>r. rp_id (f r) = rp_id r" "db_groups db' = db_groups db"
    and "db_reports db' = update_where (\<lambda>r. rp_id r = rid) f (db_reports db)"
  shows "filing_of db' = (case lookup_by rp_id rid (db_reports db) of None \<Rightarrow> filing_of db
    | Some r \<Rightarrow> (filing_of db)(rid \<mapsto> filed_of (db_groups db) (f r)))"
proof
  fix i
  show "filing_of db' i = (case lookup_by rp_id rid (db_reports db) of None \<Rightarrow> filing_of db
    | Some r \<Rightarrow> (filing_of db)(rid \<mapsto> filed_of (db_groups db) (f r))) i"
    using assms lookup_by_SomeD [of rp_id i "db_reports db"]
    by (cases "lookup_by rp_id i (db_reports db)")
      (auto simp: filing_of_def lookup_update_where split: option.split)
qed

text \<open>An update of one report is a step, if it is one on its abstraction.\<close>

lemma update_step:
  assumes "\<And>r. rp_id (f r) = rp_id r" "db_groups db' = db_groups db"
    and "db_reports db' = update_where (\<lambda>r. rp_id r = rid) f (db_reports db)"
    and "\<And>r. lookup_by rp_id rid (db_reports db) = Some r \<Longrightarrow>
      spec_step (filing_of db) ((filing_of db)(rid \<mapsto> filed_of (db_groups db) (f r)))"
  shows "spec_step\<^sup>*\<^sup>* (filing_of db) (filing_of db')"
  using assms(4) by (auto simp: filing_update [OF assms(1-3)] split: option.split)

lemma filing_same:
  "db_reports db' = db_reports db \<Longrightarrow> db_groups db' = db_groups db \<Longrightarrow>
     spec_step\<^sup>*\<^sup>* (filing_of db) (filing_of db')"
  by (simp add: filing_of_def)

lemma filing_row: "lookup_by rp_id rid (db_reports db) = Some r \<Longrightarrow> filing_of db rid = Some (filed_of (db_groups db) r)"
  by (simp add: filing_of_def)

subsection \<open>Every statement is a step or none\<close>

lemma insert_report_step:
  assumes "insert_report r db = Some db'" "rp_publish_slug r = None" "rp_state r = Received" "rp_group_id r = None"
  shows "spec_step\<^sup>*\<^sup>* (filing_of db) (filing_of db')"
proof -
  from assms(1) have new: "lookup_by rp_id (rp_id r) (db_reports db) = None"
    and db': "db' = db\<lparr>db_reports := db_reports db @ [r]\<rparr>"
    by (auto simp: insert_report_def references_def split: if_splits)
  have "filing_of db' = (filing_of db)(rp_id r \<mapsto>
      \<lparr>fl_device = rp_device_id r, fl_state = Received, fl_slug = None, fl_crash = None\<rparr>)"
    using new assms(2-4)
    by (auto simp: filing_of_def db' lookup_by_append lookup_by_Cons filed_of_def fun_eq_iff split: option.split)
  moreover have "filing_of db (rp_id r) = None" using new by (simp add: filing_of_def)
  ultimately show ?thesis using spec_step.submit by (metis r_into_rtranclp)
qed

lemma decoded_step:
  assumes "set_report_decoded gid ts rid db = Some db'"
  shows "spec_step\<^sup>*\<^sup>* (filing_of db) (filing_of db')"
proof (rule update_step [where rid = rid
    and f = "\<lambda>r. r\<lparr>rp_state := Decoded, rp_group_id := Some gid, rp_raw_deleted_at := Some ts\<rparr>"])
  fix r assume r: "lookup_by rp_id rid (db_reports db) = Some r"
  with assms obtain g where g: "lookup_by cg_id gid (db_groups db) = Some g"
    by (auto simp: set_report_decoded_def references_def split: if_splits)
  show "spec_step (filing_of db) ((filing_of db)(rid \<mapsto>
      filed_of (db_groups db) (r\<lparr>rp_state := Decoded, rp_group_id := Some gid, rp_raw_deleted_at := Some ts\<rparr>)))"
    using spec_step.classify [where m = "filing_of db", OF filing_row [OF r], of "cg_signature g"] g by (simp add: filed_of_def)
qed (use assms in \<open>auto simp: set_report_decoded_def split: if_splits\<close>)

lemma failed_step: "spec_step\<^sup>*\<^sup>* (filing_of db) (filing_of (set_report_failed rid db))"
proof (rule update_step [where rid = rid and f = "\<lambda>r. r\<lparr>rp_state := Report_Failed\<rparr>"])
  fix r assume r: "lookup_by rp_id rid (db_reports db) = Some r"
  show "spec_step (filing_of db) ((filing_of db)(rid \<mapsto> filed_of (db_groups db) (r\<lparr>rp_state := Report_Failed\<rparr>)))"
    using spec_step.give_up [where m = "filing_of db", OF filing_row [OF r]] by (simp add: filed_of_def)
qed (simp_all add: set_report_failed_def)

lemma private_step: "spec_step\<^sup>*\<^sup>* (filing_of db) (filing_of (set_private rid db))"
proof (rule update_step [where rid = rid and f = "\<lambda>r. r\<lparr>rp_visibility := Private, rp_publish_slug := None\<rparr>"])
  fix r assume r: "lookup_by rp_id rid (db_reports db) = Some r"
  show "spec_step (filing_of db)
      ((filing_of db)(rid \<mapsto> filed_of (db_groups db) (r\<lparr>rp_visibility := Private, rp_publish_slug := None\<rparr>)))"
    using spec_step.withdraw [where m = "filing_of db", OF filing_row [OF r]] by (simp add: filed_of_def)
qed (simp_all add: set_private_def)

lemma public_step:
  assumes "set_public s rid db = Some db'"
  shows "spec_step\<^sup>*\<^sup>* (filing_of db) (filing_of db')"
proof (rule update_step [where rid = rid and f = "\<lambda>r. r\<lparr>rp_visibility := Public, rp_publish_slug := Some s\<rparr>"])
  fix r assume r: "lookup_by rp_id rid (db_reports db) = Some r"
  then have "\<not> (\<exists>r'\<in>set (db_reports db). rp_id r' \<noteq> rid \<and> rp_publish_slug r' = Some s)"
    using assms by (auto simp: set_public_def references_def split: if_splits)
  then have "i = rid" if "filing_of db i = Some r'" "fl_slug r' = Some s" for i r'
    using that by (auto simp: filing_of_def filed_of_def dest!: lookup_by_SomeD)
  from spec_step.publish [where m = "filing_of db", OF filing_row [OF r] this]
  show "spec_step (filing_of db)
      ((filing_of db)(rid \<mapsto> filed_of (db_groups db) (r\<lparr>rp_visibility := Public, rp_publish_slug := Some s\<rparr>)))"
    by (simp add: filed_of_def)
qed (use assms in \<open>auto simp: set_public_def split: if_splits\<close>)

lemma marked_step: "filing_of (mark_raw_deleted ts rid db) = filing_of db"
proof
  fix i
  show "filing_of (mark_raw_deleted ts rid db) i = filing_of db i"
    by (cases "lookup_by rp_id i (db_reports db)")
      (auto simp: filing_of_def filed_of_def mark_raw_deleted_def lookup_update_where)
qed

lemma upsert_group_step:
  assumes ok: "db_ok db" and u: "upsert_group g db = Some (x, db')"
  shows "filing_of db' = filing_of db"
proof
  fix i
  have gs: "map_option cg_signature (lookup_by cg_id k (db_groups db')) =
      map_option cg_signature (lookup_by cg_id k (db_groups db))" if "references cg_id k (db_groups db)" for k
    using u that by (auto simp: upsert_group_def lookup_update_where lookup_by_append references_def
        option.map_comp comp_def split: option.splits if_splits intro!: option.map_cong0)
  have "db_reports db' = db_reports db" using statements_reports(3) [OF u] .
  moreover have "filed_of (db_groups db') r = filed_of (db_groups db) r"
    if "lookup_by rp_id i (db_reports db) = Some r" for r
    using db_ok_report [OF ok, of r] lookup_by_SomeD [OF that] gs
    by (cases "rp_group_id r") (auto simp: filed_of_def report_ok_def)
  ultimately show "filing_of db' i = filing_of db i"
    by (cases "lookup_by rp_id i (db_reports db)") (simp_all add: filing_of_def)
qed

subsection \<open>The deployment implements the specification\<close>

definition implements :: "world \<Rightarrow> world \<Rightarrow> bool" where
  "implements w w' \<longleftrightarrow>
     (db_ok (w_db w) \<longrightarrow> db_ok (w_db w') \<and> spec_step\<^sup>*\<^sup>* (filing_of (w_db w)) (filing_of (w_db w')))"

lemma implementsI:
  "keeps_ok w (w\<lparr>w_db := db\<rparr>) \<Longrightarrow> (db_ok (w_db w) \<Longrightarrow> spec_step\<^sup>*\<^sup>* (filing_of (w_db w)) (filing_of db)) \<Longrightarrow>
     implements w (w\<lparr>w_db := db\<rparr>)"
  by (simp add: implements_def keeps_ok_def)

lemma implements_silent:
  "keeps_ok w (w\<lparr>w_db := db\<rparr>) \<Longrightarrow> db_reports db = db_reports (w_db w) \<Longrightarrow> db_groups db = db_groups (w_db w) \<Longrightarrow>
     implements w (w\<lparr>w_db := db\<rparr>)"
  by (rule implementsI) (simp_all add: filing_same)

interpretation impl: deployment_frame implements
proof
  fix w db x y and r g j d u and h dev user gid rid slug :: ustr and t ts
  show "implements w w" by (simp add: implements_def)
  show "insert_report r (w_db w) = Some db \<Longrightarrow> rp_publish_slug r = None \<Longrightarrow> rp_visibility r = Private \<Longrightarrow>
      rp_state r = Received \<Longrightarrow> rp_group_id r = None \<Longrightarrow> implements w (w\<lparr>w_db := db\<rparr>)"
    by (rule implementsI) (rule server_ok.P_report, assumption+, rule insert_report_step, assumption+)
  show "set_public slug rid (w_db w) = Some db \<Longrightarrow> implements w (w\<lparr>w_db := db\<rparr>)"
    by (rule implementsI) (erule server_ok.P_public, erule public_step)
  show "implements w (w\<lparr>w_db := set_private rid (w_db w)\<rparr>)"
    by (rule implementsI) (rule server_ok.P_private, rule private_step)
  show "upsert_group g (w_db w) = Some (x, db) \<Longrightarrow> implements w (w\<lparr>w_db := db\<rparr>)"
    by (rule implementsI) (erule decoder_ok.P_group, simp add: upsert_group_step)
  show "set_report_decoded gid ts rid (w_db w) = Some db \<Longrightarrow> implements w (w\<lparr>w_db := db\<rparr>)"
    by (rule implementsI) (erule decoder_ok.P_decoded, erule decoded_step)
  show "implements w (w\<lparr>w_db := set_report_failed rid (w_db w)\<rparr>)"
    by (rule implementsI) (rule decoder_ok.P_failed, rule failed_step)
  show "implements w (w\<lparr>w_db := mark_raw_deleted ts rid (w_db w)\<rparr>)"
    by (rule implementsI) (rule decoder_ok.P_marked, simp add: marked_step)
  show "insert_job j (w_db w) = Some db \<Longrightarrow> implements w (w\<lparr>w_db := db\<rparr>)"
    by (rule implements_silent) (erule server_ok.P_job, erule statements_reports, erule statements_groups)
  show "upsert_device d (w_db w) = Some (x, db) \<Longrightarrow> implements w (w\<lparr>w_db := db\<rparr>)"
    by (rule implements_silent) (erule server_ok.P_device, erule statements_reports, erule statements_groups)
  show "issue_token h dev t (w_db w) = Some db \<Longrightarrow> implements w (w\<lparr>w_db := db\<rparr>)"
    by (rule implements_silent) (erule server_ok.P_token, erule statements_reports, erule statements_groups)
  show "issue_session h user t (w_db w) = Some db \<Longrightarrow> implements w (w\<lparr>w_db := db\<rparr>)"
    by (rule implements_silent) (erule server_ok.P_session, erule statements_reports, erule statements_groups)
  show "insert_user u (w_db w) = Some db \<Longrightarrow> implements w (w\<lparr>w_db := db\<rparr>)"
    by (rule implements_silent) (erule server_ok.P_user, erule statements_reports, erule statements_groups)
  show "claim_statement (w_db w) = Some (y, db) \<Longrightarrow> implements w (w\<lparr>w_db := db\<rparr>)"
    by (rule implements_silent) (erule decoder_ok.P_claim, erule statements_reports, erule statements_groups)
qed (auto intro!: implements_silent server_ok.P_logout server_ok.P_cleanup decoder_ok.P_done decoder_ok.P_error
    deployed_ok.P_enqueue simp: deletes_reports updates_groups dest: statements_reports(1) statements_groups(1),
    (auto simp: implements_def)+)

lemma filing_empty: "filing_of empty_db = Map.empty" "spec_ok Map.empty"
  by (simp_all add: filing_of_def empty_db_def spec_ok_def fun_eq_iff)

text \<open>C1. The deployment implements the specification of reports: whatever requests, decoder
  rounds, periodic tasks, crashes and failing statements a run from an empty database consists
  of, seen on the reports it is a run of the five rules. So reports appear only by submission
  and never disappear, a slug names at most one of them, a decoded report has a crash, and
  nothing else than the rules allow happens to them.\<close>

theorem deployment_implements_spec:
  assumes "(deployment_step e x d)\<^sup>*\<^sup>* (n, w) st" "w_db w = empty_db"
  shows "spec_step\<^sup>*\<^sup>* Map.empty (filing_of (w_db (snd st))) \<and> spec_ok (filing_of (w_db (snd st)))"
proof -
  from impl.run_kept [OF assms(1)] assms(2) empty_ok
  have "spec_step\<^sup>*\<^sup>* Map.empty (filing_of (w_db (snd st)))" by (simp add: implements_def filing_empty)
  with spec_run_ok [OF this filing_empty(2)] show ?thesis by blast
qed

end
