(* ===== verification/Retention.thy ===== *)
theory Retention
  imports Decode_Props
begin

text \<open>
  \<open>gc_failed_raw\<close> of crates/ucrs-decoder/src/decode.rs: exactly which rows and which files the
  hourly round over failed reports changes, and what becomes of a payload that
  \<open>decode_report\<close> could not remove in its last step.
\<close>

definition expired :: "int \<Rightarrow> report_row \<Rightarrow> bool" where
  "expired cutoff r \<longleftrightarrow> rp_state r = Report_Failed \<and> rp_raw_deleted_at r = None \<and> rp_received_at r < cutoff"

definition raw_file :: "config \<Rightarrow> file_system \<Rightarrow> ustr \<Rightarrow> ustr list" where
  "raw_file cfg fs rid = path_key fs (path_join (raw_dir cfg) rid)"

definition removable :: "file_system \<Rightarrow> ustr list \<Rightarrow> bool" where
  "removable fs k \<longleftrightarrow> node_at fs k \<noteq> None \<and> \<not> is_dir fs k \<and> \<not> fs_denied fs k"

lemma remove_file_removable:
  "fs_remove_file fs (path_join (raw_dir cfg) rid) =
     (if removable fs (raw_file cfg fs rid) then Some (drop_node fs (raw_file cfg fs rid)) else None)"
  by (simp add: fs_remove_file_def Let_def removable_def raw_file_def)

lemma raw_file_drop [simp]: "raw_file cfg (drop_node fs k) rid = raw_file cfg fs rid"
  by (simp add: raw_file_def)

text \<open>One report: its file, if it can be removed, and its row, in any case.\<close>

definition drop_one :: "config \<Rightarrow> ustr \<Rightarrow> world \<Rightarrow> world" where
  "drop_one cfg rid w =
     ignoring (update_db (mark_raw_deleted (w_now w) rid))
       (ignoring (fs_do (\<lambda>fs. fs_remove_file fs (path_join (raw_dir cfg) rid))) w)"

lemma drop_raw_one: "drop_raw cfg (rid # ids) w = drop_raw cfg ids (drop_one cfg rid w)"
  by (simp add: drop_one_def)

lemma drop_one_effect:
  assumes "w_faults w = []"
  shows "w_faults (drop_one cfg rid w) = []" "w_now (drop_one cfg rid w) = w_now w"
    and "w_db (drop_one cfg rid w) = mark_raw_deleted (w_now w) rid (w_db w)"
    and "w_fs (drop_one cfg rid w) = (if removable (w_fs w) (raw_file cfg (w_fs w) rid)
        then drop_node (w_fs w) (raw_file cfg (w_fs w) rid) else w_fs w)"
  using assms
  by (simp_all add: drop_one_def ignoring_def fs_do_def remove_file_removable update_db_def query_def os_def)

lemma failed_raw_stamped:
  assumes "keyed rp_id (db_reports db)" "lookup_by rp_id rid (db_reports db) = Some r" "rp_raw_deleted_at r \<noteq> None"
  shows "rid \<notin> set (failed_raw cutoff db)"
proof
  assume "rid \<in> set (failed_raw cutoff db)"
  then obtain r' where r': "r' \<in> set (db_reports db)" "rp_id r' = rid" "rp_raw_deleted_at r' = None"
    by (auto simp: failed_raw_def)
  with lookup_by_keyed [OF assms(1), of rid r'] assms(2,3) show False by simp
qed

lemma removable_drop: "k' \<noteq> k \<Longrightarrow> removable (drop_node fs k) k' = removable fs k'"
  by (simp add: removable_def is_dir_def)

lemma removable_dropped: "\<not> removable (drop_node fs k) k"
  by (simp add: removable_def)

lemma drop_raw_effect:
  assumes "w_faults w = []"
  shows "db_reports (w_db (drop_raw cfg ids w)) =
      map (\<lambda>r. if rp_id r \<in> set ids then r\<lparr>rp_raw_deleted_at := Some (w_now w)\<rparr> else r) (db_reports (w_db w))
    \<and> (\<forall>k. node_at (w_fs (drop_raw cfg ids w)) k =
        (if k \<in> raw_file cfg (w_fs w) ` set ids \<and> removable (w_fs w) k then None else node_at (w_fs w) k))"
  using assms
proof (induction ids arbitrary: w)
  case Nil
  then show ?case by simp
next
  case (Cons rid ids)
  note one = drop_one_effect [OF Cons.prems, of cfg rid]
  note IH = Cons.IH [OF one(1)]
  have rows: "db_reports (w_db (drop_raw cfg (rid # ids) w)) =
      map (\<lambda>r. if rp_id r \<in> set (rid # ids) then r\<lparr>rp_raw_deleted_at := Some (w_now w)\<rparr> else r) (db_reports (w_db w))"
    unfolding drop_raw_one using IH by (simp add: one mark_raw_deleted_def update_where_def)
  have "node_at (w_fs (drop_raw cfg (rid # ids) w)) k =
      (if k \<in> raw_file cfg (w_fs w) ` set (rid # ids) \<and> removable (w_fs w) k then None else node_at (w_fs w) k)" for k
    unfolding drop_raw_one using IH
    by (cases "k = raw_file cfg (w_fs w) rid") (auto simp: one removable_drop removable_dropped)
  with rows show ?case by blast
qed

text \<open>C36. The hourly round over failed reports, with all statements succeeding: exactly the rows
  of failed reports whose payload was kept beyond the window are stamped as deleted; exactly the
  payload files of these reports that can be removed are gone, and every other file is as
  before. A payload that cannot be removed is stamped all the same, so that the next round
  passes it over.\<close>

theorem failed_payloads_expire:
  assumes "w_faults w = []" "keyed rp_id (db_reports (w_db w))"
    and "cutoff = w_now w - uint (raw_failed_retention_days cfg) * 86400"
  shows "db_reports (w_db (gc_failed_raw cfg w)) =
      map (\<lambda>r. if expired cutoff r then r\<lparr>rp_raw_deleted_at := Some (w_now w)\<rparr> else r) (db_reports (w_db w))
    \<and> (\<forall>k. node_at (w_fs (gc_failed_raw cfg w)) k =
        (if k \<in> raw_file cfg (w_fs w) ` rp_id ` {r \<in> set (db_reports (w_db w)). expired cutoff r}
            \<and> removable (w_fs w) k then None else node_at (w_fs w) k))
    \<and> failed_raw cutoff (w_db (gc_failed_raw cfg w)) = []"
proof -
  let ?rs = "db_reports (w_db w)" let ?ids = "failed_raw cutoff (w_db w)"
  have ids: "set ?ids = rp_id ` {r \<in> set ?rs. expired cutoff r}"
    by (auto simp: failed_raw_def expired_def)
  have "gc_failed_raw cfg w = drop_raw cfg ?ids w"
    using assms(1,3) by (cases w) (simp add: gc_failed_raw_def select_def query_def Let_def)
  note effect = drop_raw_effect [OF assms(1), of cfg ?ids, folded this, unfolded ids]
  have one: "rp_id r \<in> rp_id ` {r \<in> set ?rs. expired cutoff r} \<longleftrightarrow> expired cutoff r" if "r \<in> set ?rs" for r
    using assms(2) that by (auto simp: keyed_def distinct_map dest: inj_onD)
  have rows: "db_reports (w_db (gc_failed_raw cfg w)) =
      map (\<lambda>r. if expired cutoff r then r\<lparr>rp_raw_deleted_at := Some (w_now w)\<rparr> else r) ?rs"
    using effect one by (simp cong: map_cong)
  then have "failed_raw cutoff (w_db (gc_failed_raw cfg w)) = []"
    by (auto simp: failed_raw_def expired_def filter_empty_conv)
  with rows effect show ?thesis by blast
qed

subsection \<open>The last step fails\<close>

definition removal_error :: anyhow where
  "removal_error = [Text (lit ''deleting raw payload''), Os_Error]"

lemma payload_errors: "Payload.decode z raw enc \<noteq> Inl removal_error"
  by (auto simp: removal_error_def Payload.decode_def read_capped_def read_to_end_def and_then_def bail_def
      simp del: lit_Cons split: payload_encoding.splits sum.splits option.splits if_splits)

lemma other_steps:
  "fs_do f w \<noteq> (Inl removal_error, w')" "exec g w \<noteq> (Inl removal_error, w')"
  "c \<noteq> lit ''deleting raw payload'' \<Longrightarrow> context_io c m w \<noteq> (Inl removal_error, w')"
  "parse_encoding s \<noteq> Inl removal_error"
  by (auto simp: removal_error_def fs_do_Inl exec_def query_def context_io_def parse_encoding_def
      split: option.splits sum.splits if_splits simp del: lit_Cons)

lemma other_contexts:
  "lit ''writing decoded text'' \<noteq> lit ''deleting raw payload''"
  "lit ''upserting crash group'' \<noteq> lit ''deleting raw payload''"
  "lit ''reading raw payload'' \<noteq> lit ''deleting raw payload''"
  "lit ''loading report'' \<noteq> lit ''deleting raw payload''"
  by code_simp+

lemma removal_failed:
  "context_io (lit ''deleting raw payload'') (fs_do f) w = (Inl removal_error, w') \<longleftrightarrow> f (w_fs w) = None \<and> w' = w"
  by (auto simp: context_io_def fs_do_Inl removal_error_def)

lemmas removal_simps = other_steps other_contexts removal_failed payload_errors

lemma store_decoded_removal:
  assumes "store_decoded e rid row d sig w = (Inl removal_error, w')"
  obtains gid fs1 db1 where
    "fs_create_dir_all (w_fs w) (decoded_dir (de_cfg e)) = Some fs1"
    "fs_write fs1 (path_join (decoded_dir (de_cfg e)) rid) (as_bytes d) = Some (w_fs w')"
    "upsert_group (new_group (de_id_at e (w_ids w)) sig (rp_kind row) (w_now w) (rp_version row)) (w_db w) = Some (gid, db1)"
    "set_report_decoded gid (w_now w) rid db1 = Some (w_db w')"
    "fs_remove_file (w_fs w') (path_join (raw_dir (de_cfg e)) rid) = None"
  using assms unfolding store_decoded_def
  by (auto simp: bindE_Inl io_inv io_basic removal_simps intro: that simp del: lit_Cons)

lemma decode_report_removal:
  assumes "decode_report e rid w = (Inl removal_error, w')" "lookup_by rp_id rid (db_reports (w_db w)) = Some row"
  obtains d w1 where "store_decoded e rid row d (classify e (rp_kind row) d) w1 = (Inl removal_error, w')"
    "w_db w1 = w_db w" "w_now w1 = w_now w"
proof -
  from assms(1) obtain report dir w1 d where
    "lookup_by rp_id rid (db_reports (w_db w)) = Some report"
    "ensure_kernel (de_sym e) (de_pool e) (rp_version report) (rp_target report) (rp_kernel_buildid report)
       (w\<lparr>w_faults := tl (w_faults w)\<rparr>) = (dir, w1)"
    "store_decoded e rid report d (classify e (rp_kind report) d) w1 = (Inl removal_error, w')"
    unfolding decode_report_def fetch_one_def Let_def
    by (auto simp: bindE_Inl io_inv io_basic removal_simps lift_result_def attempt_def fs_get_Inr
        split: option.splits prod.splits simp del: lit_Cons)
  moreover from movesD [OF dbk.moves_ensure this(2)] have "w_db w1 = w_db w" "w_now w1 = w_now w"
    by (simp_all add: same_db_def)
  ultimately show thesis using assms(2) that by simp
qed

text \<open>C35. When the removal of the raw payload, the last step of \<open>decode_report\<close>, is what fails
  at the last attempt, the report ends up as failed although its text is stored and it belongs to
  a crash group; its payload is still there, unchanged, and since the row says that the payload
  was deleted, no round of \<open>gc_failed_raw\<close> will select it.\<close>

theorem undeletable_payload_orphaned:
  assumes laws: "unpack_law (de_sym e)" "hex_ids (de_sym e)"
    and run: "decode_report e (jo_report_id job) w = (Inl removal_error, w1)"
    and last: "jo_attempts job \<ge> 3" "w_faults w1 = []"
    and keys: "keyed rp_id (db_reports (w_db w))"
    and row: "lookup_by rp_id (jo_report_id job) (db_reports (w_db w)) = Some row"
    and layout: "plain_layout e (jo_report_id job) row (w_fs w)"
    and raw: "node_at (w_fs w) (raw_key e (fs_cwd (w_fs w)) (jo_report_id job)) = Some (File raw)"
  shows "\<exists>g\<in>set (db_groups (w_db (process_job e job w))).
      lookup_by rp_id (jo_report_id job) (db_reports (w_db (process_job e job w))) =
        Some (row\<lparr>rp_state := Report_Failed, rp_group_id := Some (cg_id g), rp_raw_deleted_at := Some (w_now w)\<rparr>)
    \<and> node_at (w_fs (process_job e job w)) (raw_key e (fs_cwd (w_fs w)) (jo_report_id job)) = Some (File raw)
    \<and> (\<forall>cutoff. jo_report_id job \<notin> set (failed_raw cutoff (w_db (process_job e job w))))"
proof -
  let ?rid = "jo_report_id job" let ?w' = "process_job e job w"
  let ?row = "\<lambda>gid. row\<lparr>rp_state := Report_Failed, rp_group_id := Some gid, rp_raw_deleted_at := Some (w_now w)\<rparr>"
  from decode_report_removal [OF run row] obtain d w0 where
    st: "store_decoded e ?rid row d (classify e (rp_kind row) d) w0 = (Inl removal_error, w1)"
    and w0: "w_db w0 = w_db w" "w_now w0 = w_now w" .
  from st obtain gid db1 where
    u: "upsert_group (new_group (de_id_at e (w_ids w0)) (classify e (rp_kind row) d) (rp_kind row) (w_now w) (rp_version row)) (w_db w) = Some (gid, db1)"
    and sd: "set_report_decoded gid (w_now w) ?rid db1 = Some (w_db w1)"
    by (rule store_decoded_removal) (simp add: w0)
  note sd' = set_report_decoded_Some [OF sd]
  have w': "w_fs ?w' = w_fs w1" "db_groups (w_db ?w') = db_groups (w_db w1)"
    "db_reports (w_db ?w') = update_where (\<lambda>r. rp_id r = ?rid) (\<lambda>r. r\<lparr>rp_state := Report_Failed\<rparr>) (db_reports (w_db w1))"
    using run last by (simp_all add: process_job_def MAX_ATTEMPTS_def ignoring_def update_db_def query_def
        set_job_error_def set_report_failed_def)
  have reports: "lookup_by rp_id ?rid (db_reports (w_db ?w')) = Some (?row gid)"
    using w'(3) sd' upsert_group_reports [OF u] row lookup_by_SomeD [OF row] by (simp add: lookup_update_where)
  have keys': "keyed rp_id (db_reports (w_db ?w'))"
    using keys w'(3) sd' upsert_group_reports [OF u] by simp
  have "?rid \<notin> set (failed_raw cutoff (w_db ?w'))" for cutoff
    by (rule failed_raw_stamped [OF keys' reports]) simp
  moreover obtain g where "g \<in> set (db_groups (w_db ?w'))" "cg_id g = gid"
    using upsert_group_row [OF u] w'(2) sd' by auto
  moreover have "node_at (w_fs ?w') (raw_key e (fs_cwd (w_fs w)) ?rid) = Some (File raw)"
    using decode_error_keeps_raw [OF laws run row layout raw] w'(1) by simp
  ultimately show ?thesis using reports by blast
qed

end
