(* ===== verification/Decode_Live.thy ===== *)
theory Decode_Live
  imports Decode_Props
begin

text \<open>
  What it takes for a report to be decoded: a payload that decompresses, a place for the text and
  statements that succeed. Symbols are not needed, as docs and comments promise: the theorem
  holds for every outcome of the download, and for every build-id the device claims to have.
\<close>

text \<open>Nothing is in the way of the decoded text, and no permission is missing.\<close>

definition can_store :: "'n decoder_env \<Rightarrow> ustr \<Rightarrow> file_system \<Rightarrow> bool" where
  "can_store e rid fs \<longleftrightarrow> (\<forall>k. \<not> fs_denied fs k)
     \<and> (\<forall>k. prefix k (abs_key (fs_cwd fs) (decoded_dir (de_cfg e))) \<longrightarrow> node_at fs k \<in> {None, Some Dir})
     \<and> node_at fs (decoded_key e (fs_cwd fs) rid) \<noteq> Some Dir"

definition fresh_ids :: "'n decoder_env \<Rightarrow> database \<Rightarrow> bool" where
  "fresh_ids e db \<longleftrightarrow> (\<forall>n. \<not> references cg_id (de_id_at e n) (db_groups db))"

lemma store_files:
  assumes l: "data_dir (de_cfg e) \<noteq> []" "plain_name rid"
    and can: "can_store e rid fs" and pl: "plain_at fs (decoded_key e (fs_cwd fs) rid)"
    and raw: "node_at fs (raw_key e (fs_cwd fs) rid) = Some (File raw)"
  obtains fs1 fs2 fs3 where "fs_create_dir_all fs (decoded_dir (de_cfg e)) = Some fs1"
    "fs_write fs1 (path_join (decoded_dir (de_cfg e)) rid) d = Some fs2"
    "fs_remove_file fs2 (path_join (raw_dir (de_cfg e)) rid) = Some fs3"
proof -
  let ?cwd = "fs_cwd fs" let ?dir = "abs_key ?cwd (decoded_dir (de_cfg e))"
  let ?dk = "decoded_key e ?cwd rid" let ?rk = "raw_key e ?cwd rid"
  have dir: "path_key fs (decoded_dir (de_cfg e)) = ?dir" by (simp add: path_key_abs)
  have dk: "?dk = ?dir @ [rid]"
    using layout_keys(2) [OF l, of ?cwd] dir_keys(2) [OF l(1), of fs] by (simp add: path_key_abs del: lit_Cons)
  have ne: "?dk \<noteq> ?rk" by (rule layout_distinct [OF l])
  have rk: "?rk \<noteq> []" by (simp add: layout_keys [OF l])
  have "make_dirs fs [] ?dir \<noteq> None"
    using can by (intro make_dirs_success) (auto simp: can_store_def)
  then obtain fs1 where m: "make_dirs fs [] ?dir = Some fs1" by blast
  note fr = make_dirs_frame [OF m]
  have pk: "path_key fs' (path_join (decoded_dir (de_cfg e)) rid) = ?dk"
    "path_key fs' (path_join (raw_dir (de_cfg e)) rid) = ?rk" if "fs_cwd fs' = ?cwd" for fs'
    using that by (simp_all add: path_key_abs decoded_key_def raw_key_def)
  have "node_at fs1 ?dk = node_at fs ?dk" using make_dirs_at [OF m, of ?dk] dk by auto
  then have "\<not> is_dir fs1 ?dk" using can dk by (simp add: can_store_def is_dir_def)
  moreover have "is_dir fs1 (butlast ?dk)" using make_dirs_dir [OF m] dk by (simp add: is_dir_def)
  ultimately have w: "fs_write fs1 (path_join (decoded_dir (de_cfg e)) rid) d = Some (set_node fs1 ?dk (File d))"
    using fr can plain_at_make_dirs [OF m pl] by (simp add: fs_write_plain pk can_store_def)
  let ?fs2 = "set_node fs1 ?dk (File d)"
  have "node_at ?fs2 ?rk = Some (File raw)" using fr raw ne by simp
  with pk(2) [of ?fs2] fr can rk
  have r: "fs_remove_file ?fs2 (path_join (raw_dir (de_cfg e)) rid) = Some (drop_node ?fs2 ?rk)"
    by (simp add: fs_remove_file_def Let_def is_dir_def can_store_def)
  from that [OF _ w r] m dir show thesis by (simp add: fs_create_dir_all_def)
qed

lemma upsert_group_fresh:
  assumes "fresh_ids e db" "cg_id g = de_id_at e n"
  obtains gid db' where "upsert_group g db = Some (gid, db')"
proof (cases "lookup_by cg_signature (cg_signature g) (db_groups db)")
  case None
  with assms that [of "cg_id g"] show thesis by (simp add: upsert_group_def fresh_ids_def)
next
  case (Some old)
  with that [of "cg_id old"] show thesis by (simp add: upsert_group_def)
qed

lemma store_decoded_succeeds:
  assumes "data_dir (de_cfg e) \<noteq> []" "plain_name rid" "can_store e rid (w_fs w)"
    and "plain_at (w_fs w) (decoded_key e (fs_cwd (w_fs w)) rid)"
    and "node_at (w_fs w) (raw_key e (fs_cwd (w_fs w)) rid) = Some (File raw)"
    and ids: "fresh_ids e (w_db w)" and faults: "w_faults w = []"
  shows "\<exists>gid w'. store_decoded e rid row d sig w = (Inr gid, w')"
proof -
  obtain fs1 fs2 fs3 where fs: "fs_create_dir_all (w_fs w) (decoded_dir (de_cfg e)) = Some fs1"
    "fs_write fs1 (path_join (decoded_dir (de_cfg e)) rid) (as_bytes d) = Some fs2"
    "fs_remove_file fs2 (path_join (raw_dir (de_cfg e)) rid) = Some fs3"
    using store_files [OF assms(1-5)] by metis
  obtain gid db1 where u: "upsert_group (new_group (de_id_at e (w_ids w)) sig (rp_kind row) (w_now w) (rp_version row)) (w_db w) = Some (gid, db1)"
    using upsert_group_fresh [OF ids, of "new_group (de_id_at e (w_ids w)) sig (rp_kind row) (w_now w) (rp_version row)" "w_ids w"]
    by (auto simp: new_group_def)
  from upsert_group_row [OF u] have "references cg_id gid (db_groups db1)"
    by (auto simp: references_def lookup_by_None)
  then obtain db2 where s: "set_report_decoded gid (w_now w) rid db1 = Some db2"
    by (simp add: set_report_decoded_def)
  show ?thesis
    unfolding store_decoded_def
    by (intro exI) (simp add: bindE_def context_io_def map_err_def fs_do_def get_now_def draw_def query_def exec_def ret_def
        fs u s faults)
qed

lemma can_store_outside:
  assumes o: "outside cwd (abs_key cwd (symbols_dir (de_cfg e))) s fs fs'"
    and at: "fs_cwd fs = cwd" "plain_at fs s" and l: "data_dir (de_cfg e) \<noteq> []" "plain_name rid"
    and can: "can_store e rid fs"
  shows "can_store e rid fs'"
proof -
  let ?root = "abs_key cwd (symbols_dir (de_cfg e))" let ?dir = "abs_key cwd (decoded_dir (de_cfg e))"
  from o at have fs': "fs_cwd fs' = cwd" "fs_denied fs' = fs_denied fs"
    "\<And>k. \<not> prefix ?root k \<Longrightarrow> node_at fs' k = node_at fs k \<or>
       node_at fs k = None \<and> node_at fs' k = Some Dir \<and> prefix k ?root"
    by (simp_all add: outside_def)
  have dir: "?dir = abs_key cwd (data_dir (de_cfg e)) @ [lit ''decoded'']"
    using dir_keys(2) [OF l(1), of "\<lparr>fs_cwd = cwd, fs_nodes = [], fs_denied = (\<lambda>_. False)\<rparr>"]
    by (simp add: path_key_abs del: lit_Cons)
  have apart: "\<not> prefix ?root k" if "prefix k ?dir" for k
    using that dir layout_keys(3) [OF l, of cwd] by (auto simp: prefix_def append_eq_append_conv2)
  have dk: "\<not> prefix (decoded_key e cwd rid) ?root" "\<not> prefix ?root (decoded_key e cwd rid)"
    by (simp_all add: layout_keys [OF l])
  have "node_at fs' k \<in> {None, Some Dir}" if "prefix k ?dir" for k
    using fs'(3) [OF apart [OF that]] can that at by (auto simp: can_store_def)
  moreover have "node_at fs' (decoded_key e cwd rid) \<noteq> Some Dir"
    using fs'(3) [OF dk(2)] dk(1) can at by (auto simp: can_store_def)
  ultimately show ?thesis using fs' can by (simp add: can_store_def)
qed

lemma decode_report_succeeds:
  assumes laws: "unpack_law (de_sym e)" "hex_ids (de_sym e)"
    and row: "lookup_by rp_id rid (db_reports (w_db w)) = Some row" and faults: "w_faults w = []"
    and layout: "plain_layout e rid row (w_fs w)"
    and raw: "node_at (w_fs w) (raw_key e (fs_cwd (w_fs w)) rid) = Some (File raw)"
    and payload: "parse_encoding (rp_payload_encoding row) = Inr enc" "Payload.decode (de_payload e) raw enc = Inr log"
    and room: "can_store e rid (w_fs w)" "fresh_ids e (w_db w)"
  shows "\<exists>gid w'. decode_report e rid w = (Inr gid, w')"
proof -
  let ?cwd = "fs_cwd (w_fs w)"
  let ?rk = "raw_key e ?cwd rid" let ?dk = "decoded_key e ?cwd rid" let ?s = "stamp_key e ?cwd row"
  from layout have l: "data_dir (de_cfg e) \<noteq> []" "plain_name rid" "plain_at (w_fs w) ?dk" "plain_at (w_fs w) ?s"
    by (simp_all add: plain_layout_def)
  note apart = layout_distinct [OF l(1,2), of ?cwd]
  note frame = ensure_frames [OF laws layout, of ?cwd]
  obtain dir w1 where en: "ensure_kernel (de_sym e) (de_pool e) (rp_version row) (rp_target row) (rp_kernel_buildid row) w = (dir, w1)"
    by fastforce
  have out: "outside ?cwd (abs_key ?cwd (symbols_dir (de_cfg e))) ?s (w_fs w) (w_fs w1)"
    using movesD [OF frame en] by (simp add: outside_io_def)
  have "raw_kept ?cwd ?rk ?dk ?s (File raw) w w1"
    by (rule movesD [OF raw_kept_outside [OF frame apart(2,3)] en]) simp
  then have w1: "fs_cwd (w_fs w1) = ?cwd" "node_at (w_fs w1) ?rk = Some (File raw)" "plain_at (w_fs w1) ?dk"
    using l raw by (simp_all add: raw_kept_def)
  have db: "w_db w1 = w_db w" using movesD [OF dbk.moves_ensure en] by (simp add: same_db_def)
  have "w_faults w1 = []" using movesD [OF clock.moves_ensure en] faults by (simp add: same_clock_def)
  from store_decoded_succeeds [OF l(1,2) can_store_outside [OF out refl l(4) l(1,2) room(1)] _ _ _ this] w1 room(2) db
  have store: "\<exists>gid w'. store_decoded e rid row d sig w1 = (Inr gid, w')" for d sig by simp
  have rd: "fs_read (w_fs w) (path_join (raw_dir (de_cfg e)) rid) = Some raw"
    using raw by (simp add: fs_read_plain path_key_abs raw_key_def [symmetric] plain_at_def)
  obtain d sig where "decode_report e rid w = store_decoded e rid row d sig w1"
    using decode_report_run [OF row faults rd payload en refl] by blast
  with store [of d sig] show ?thesis by simp
qed

text \<open>C5. A report with a payload that decompresses is decoded at the first attempt when the
  statements succeed and nothing is in the way of its text, whatever becomes of the debug symbols:
  its job is done, the scrubbed text is stored, the report is marked as decoded and is in the group
  of its signature, and the raw payload is gone.\<close>

theorem readable_report_decoded:
  assumes laws: "unpack_law (de_sym e)" "hex_ids (de_sym e)"
    and row: "lookup_by rp_id (jo_report_id job) (db_reports (w_db w)) = Some row" and faults: "w_faults w = []"
    and layout: "plain_layout e (jo_report_id job) row (w_fs w)"
    and raw: "node_at (w_fs w) (raw_key e (fs_cwd (w_fs w)) (jo_report_id job)) = Some (File raw)"
    and payload: "parse_encoding (rp_payload_encoding row) = Inr enc" "Payload.decode (de_payload e) raw enc = Inr log"
    and room: "can_store e (jo_report_id job) (w_fs w)" "fresh_ids e (w_db w)"
  shows "(\<exists>gid. stored_as e (jo_report_id job) row raw gid w (process_job e job w))
    \<and> node_at (w_fs (process_job e job w)) (raw_key e (fs_cwd (w_fs w)) (jo_report_id job)) = None
    \<and> list_all (\<lambda>j. jb_id j = jo_id job \<longrightarrow> jb_state j = Done) (db_jobs (w_db (process_job e job w)))"
proof -
  from decode_report_succeeds [OF assms] obtain gid w1 where run: "decode_report e (jo_report_id job) w = (Inr gid, w1)"
    by blast
  note stored = decode_success_stores [OF laws run row layout raw]
  have "w_faults w1 = []" using movesD [OF jobs.moves_decode run] faults by (simp add: same_jobs_def same_clock_def)
  then have w': "w_fs (process_job e job w) = w_fs w1" "w_db (process_job e job w) = set_job_done (jo_id job) (w_db w1)"
    using run by (simp_all add: process_job_def ignoring_def update_db_def query_def)
  have "list_all (\<lambda>j. jb_id j = jo_id job \<longrightarrow> jb_state j = Done) (db_jobs (w_db (process_job e job w)))"
    by (auto simp: w' set_job_done_def update_where_def list_all_iff)
  moreover from stored have "stored_as e (jo_report_id job) row raw gid w (process_job e job w)"
    by (simp add: stored_as_def w' set_job_done_def)
  ultimately show ?thesis using stored w'(1) by auto
qed

end
