(* ===== verification/Demo.thy ===== *)
theory Demo
  imports Shown_Text Ingest_Props Devices Ranking Report_Spec Retention Decode_Live
begin

text \<open>
  A small deployment, and the properties of the server and of the decoder applied to it: one
  device with a toy signature scheme, one developer, one report.
\<close>

subsection \<open>The parameters\<close>

definition demo_usign :: "byte list usign_env" where
  "demo_usign = \<lparr>b64_decode = (\<lambda>s. Some (map word_of_int s)), key_from_bytes = Some,
     verify_strict = (\<lambda>key msg sig. take 4 msg = take 4 sig)\<rparr>"

definition demo_pubkey :: ustr where
  "demo_pubkey = [69, 100] @ replicate 40 7"

definition demo_signature :: "byte list \<Rightarrow> ustr" where
  "demo_signature msg = [69, 100] @ replicate 8 7 @ map uint (take 4 msg) @ replicate 60 8"

definition demo_body :: "byte list" where
  "demo_body = [1, 2, 3, 4]"

definition demo_meta :: report_metadata where
  "demo_meta = \<lparr>md_format = 1, md_kind = Pstore, md_uuid = lit ''u1'', md_captured_at = 5,
     md_openwrt = \<lparr>ow_version = lit ''25'', ow_revision = lit ''r'', ow_target = lit ''x'', ow_arch = lit ''a''\<rparr>,
     md_board = lit ''b'', md_kernel = lit ''6'', md_kernel_buildid = None,
     md_payload_sha256 = [1, 2, 3, 4], md_payload_encoding = Enc_None\<rparr>"

definition demo_server :: "byte list server_env" where
  "demo_server = \<lparr>au_id_at = demo_id, au_secret_at = demo_secret, au_sha_hex = map uint,
     au_salt = (\<lambda>n. Inr [int n]), au_hash = (\<lambda>pw s. Inr (pw @ [36] @ s)),
     au_parse_hash = Some, au_verify = (\<lambda>pw h. prefix (pw @ [36]) h),
     sv_cfg = demo_config, sv_usign = demo_usign, sv_b64 = map uint, sv_boundary = Some,
     sv_fields = (\<lambda>body boundary.
       [Inr \<lparr>mf_name = Some (lit ''metadata''), mf_text = Some (lit ''m''), mf_bytes = None\<rparr>,
        Inr \<lparr>mf_name = Some (lit ''payload''), mf_text = None, mf_bytes = Some body\<rparr>]),
     sv_json = (\<lambda>t. Inr demo_meta), sv_lowercase = (\<lambda>s. s), sv_is_uuid = (\<lambda>s. s \<noteq> []),
     sv_uuid_bytes = (\<lambda>n. replicate 16 5), sv_fmt_ts = (\<lambda>t. None)\<rparr>"

definition demo_headers :: headers where
  "demo_headers = (\<lambda>h.
     if h = lit ''x-ucr-pubkey'' then Some demo_pubkey
     else if h = lit ''x-ucr-signature'' then Some (demo_signature demo_body)
     else if h = lit ''content-type'' then Some (lit ''b'')
     else None)"

definition demo_uploaded :: world where
  "demo_uploaded = snd (post_report demo_server demo_headers demo_body demo_world)"

lemma demo_upload:
  "post_report demo_server demo_headers demo_body demo_world =
     (Inr (respond_created demo_config (lit ''u1'')), demo_uploaded)"
  unfolding demo_uploaded_def by (rule fst_result) code_simp

lemma demo_parsed: "parse_multipart demo_server demo_headers demo_body = Inr (demo_meta, demo_body)"
  by code_simp

theorem accepted_upload_witness:
  "\<exists>rid. map rp_id (db_reports (w_db demo_uploaded)) = [rid] \<and> map jb_report_id (db_jobs (w_db demo_uploaded)) = [rid]
     \<and> fs_read (w_fs demo_uploaded) (path_join (raw_dir demo_config) rid) = Some demo_body"
proof -
  have e: "sv_cfg demo_server = demo_config" "db_reports (w_db demo_world) = []" "db_jobs (w_db demo_world) = []"
    by (simp_all add: demo_server_def demo_world_def empty_db_def)
  from accepted_upload [OF demo_upload] demo_parsed show ?thesis
    by (auto simp: e new_report_def new_job_def simp del: lit_Cons)
qed

definition demo_retry :: world where
  "demo_retry = snd (post_report demo_server demo_headers demo_body
     (snd (post_report demo_server demo_headers demo_body (demo_world\<lparr>w_faults := [False, False, False, True]\<rparr>))\<lparr>w_faults := []\<rparr>))"

theorem failed_upload_lost_witness:
  "fst (post_report demo_server demo_headers demo_body (demo_world\<lparr>w_faults := [False, False, False, True]\<rparr>)) =
     Inl (Api_Error 500 (lit ''internal error'')) \<and> db_jobs (w_db demo_retry) = []"
proof -
  let ?p = "post_report demo_server demo_headers demo_body"
  let ?f = "?p (demo_world\<lparr>w_faults := [False, False, False, True]\<rparr>)"
  let ?g = "?p (snd ?f\<lparr>w_faults := []\<rparr>)"
  have ok: "db_ok (w_db demo_world)" using empty_ok by (simp add: demo_world_def)
  have key: "demo_headers (lit ''x-ucr-pubkey'') = Some demo_pubkey" by (simp add: demo_headers_def)
  have none: "lookup_by rp_id (md_uuid demo_meta) (db_reports (w_db demo_world)) = None"
    by (simp add: demo_world_def empty_db_def)
  have f: "?f = (fst ?f, snd ?f)" and g: "?g = (fst ?g, snd ?g)" by simp_all
  note lost = failed_upload_lost [OF ok demo_upload demo_parsed key none f g]
  have "db_jobs (w_db demo_retry) = []" by code_simp
  with lost show ?thesis by blast
qed

text \<open>Uploads whose metadata is the checksum alone: an unsigned one with another payload passes its
  checks before the upload of the device is handled.\<close>

definition demo_twin :: "byte list server_env" where
  "demo_twin = demo_server
     \<lparr>sv_fields := (\<lambda>body boundary.
        [Inr \<lparr>mf_name = Some (lit ''metadata''), mf_text = Some (map uint body), mf_bytes = None\<rparr>,
         Inr \<lparr>mf_name = Some (lit ''payload''), mf_text = None, mf_bytes = Some body\<rparr>]),
      sv_json := (\<lambda>t. Inr (demo_meta\<lparr>md_payload_sha256 := t\<rparr>))\<rparr>"

definition demo_unsigned :: headers where
  "demo_unsigned = (\<lambda>h. if h = lit ''content-type'' then Some (lit ''b'') else None)"

definition demo_checked :: world where
  "demo_checked = snd (admit_report demo_twin demo_unsigned [9] demo_world)"

definition demo_first_in :: world where
  "demo_first_in = snd (post_report demo_twin demo_headers demo_body demo_checked)"

definition demo_overwritten :: world where
  "demo_overwritten = snd (finish_report demo_twin
     (Fresh (lit ''u1'') None (demo_meta\<lparr>md_payload_sha256 := [9]\<rparr>) [9]) demo_first_in)"

theorem upload_race_overwrites_witness:
  "fs_read (w_fs demo_first_in) (path_join (raw_dir demo_config) (lit ''u1'')) = Some demo_body
     \<and> fs_read (w_fs demo_overwritten) (path_join (raw_dir demo_config) (lit ''u1'')) = Some [9]
     \<and> w_db demo_overwritten = w_db demo_first_in"
proof -
  let ?a = "Fresh (lit ''u1'') None (demo_meta\<lparr>md_payload_sha256 := [9]\<rparr>) [9]"
  have cfg: "sv_cfg demo_twin = demo_config" by (simp add: demo_twin_def demo_server_def)
  have c: "admit_report demo_twin demo_unsigned [9] demo_world = (Inr ?a, demo_checked)"
    unfolding demo_checked_def by (rule fst_result) code_simp
  have f: "post_report demo_twin demo_headers demo_body demo_checked =
      (Inr (respond_created (sv_cfg demo_twin) (lit ''u1'')), demo_first_in)"
    unfolding demo_first_in_def by (rule fst_result) code_simp
  have s: "finish_report demo_twin ?a demo_first_in = (fst (finish_report demo_twin ?a demo_first_in), demo_overwritten)"
    by (simp add: demo_overwritten_def)
  let ?fs1 = "the (fs_create_dir_all (w_fs demo_first_in) (raw_dir demo_config))"
  have "fs_create_dir_all (w_fs demo_first_in) (raw_dir demo_config) \<noteq> None"
    "fs_write ?fs1 (path_join (raw_dir demo_config) (lit ''u1'')) [9] \<noteq> None"
    by code_simp+
  then have d: "fs_create_dir_all (w_fs demo_first_in) (raw_dir (sv_cfg demo_twin)) = Some ?fs1"
    "fs_write ?fs1 (path_join (raw_dir (sv_cfg demo_twin)) (lit ''u1'')) [9] =
       Some (the (fs_write ?fs1 (path_join (raw_dir demo_config) (lit ''u1'')) [9]))"
    unfolding cfg by simp_all
  have "fs_read (w_fs demo_first_in) (path_join (raw_dir demo_config) (lit ''u1'')) = Some demo_body" by code_simp
  with upload_race_overwrites [OF c f s d] show ?thesis unfolding cfg by blast
qed

subsection \<open>Logging in\<close>

definition demo_nonce :: "byte list" where
  "demo_nonce = replicate 32 5"

definition demo_logged :: "((api_error + json) \<times> nonce_map) \<times> world" where
  "demo_logged = device_login demo_server demo_pubkey (demo_signature demo_nonce) 9
     (foldl nonce_step Map.empty [Put demo_pubkey demo_nonce 2]) demo_uploaded"

theorem device_login_sound_witness:
  "\<exists>tok. fst (fst demo_logged) = Inr (JObj [(lit ''token'', JStr tok), (lit ''expires_in'', JInt 3600)])
     \<and> select_token (token_hash demo_server tok) 4599 (w_db (snd demo_logged)) = Some (demo_id 0)
     \<and> select_token (token_hash demo_server tok) 4600 (w_db (snd demo_logged)) = None"
proof -
  let ?j = "JObj [(lit ''token'', JStr (demo_secret 2)), (lit ''expires_in'', JInt 3600)]"
  have f: "fst (fst demo_logged) = Inr ?j" by code_simp
  then have l: "device_login demo_server demo_pubkey (demo_signature demo_nonce) 9
      (foldl nonce_step Map.empty [Put demo_pubkey demo_nonce 2]) demo_uploaded =
      ((Inr ?j, snd (fst demo_logged)), snd demo_logged)"
    unfolding demo_logged_def [symmetric] by (metis prod.collapse)
  have d: "select_device demo_pubkey (w_db demo_uploaded) = Some (demo_id 0)" "w_now demo_uploaded = 1000"
    by code_simp+
  from device_login_sound [OF l] d f show ?thesis by (auto simp del: lit_Cons)
qed

subsection \<open>Requests\<close>

definition demo_extractors :: extractors where
  "demo_extractors = \<lparr>ex_challenge = (\<lambda>h b. Inr (map uint b)), ex_login = (\<lambda>h b. Inr (map uint b, [])),
     ex_form = (\<lambda>h b. Inr ([], [])), ex_query = (\<lambda>q. Inr \<lparr>gq_window = None, gq_kind = None, gq_version = None, gq_target = None\<rparr>)\<rparr>"

definition demo_request :: "http_method \<Rightarrow> string \<Rightarrow> headers \<Rightarrow> http_request" where
  "demo_request m p h = \<lparr>hq_method = m, hq_path = segments (lit p), hq_query = [], hq_headers = h,
     hq_cookies = (\<lambda>_. None), hq_body = demo_body\<rparr>"

definition demo_post :: server_state where
  "demo_post = snd (serve demo_server demo_extractors 0
     (demo_request POST ''/api/v1/reports'' demo_headers) (Map.empty, demo_world))"

lemma demo_posted: "deployment_step demo_server demo_extractors demo_dec (Map.empty, demo_world) demo_post"
  unfolding demo_post_def by (rule deployment_step.request [OF prod.collapse [symmetric]])

theorem tables_consistent_witness:
  "db_ok (w_db (snd demo_post)) \<and> map rp_id (db_reports (w_db (snd demo_post))) = [lit ''u1'']"
proof
  show "db_ok (w_db (snd demo_post))"
    by (rule tables_consistent [OF r_into_rtranclp [of "deployment_step demo_server demo_extractors demo_dec", OF demo_posted]]) (simp add: demo_world_def)
  show "map rp_id (db_reports (w_db (snd demo_post))) = [lit ''u1'']" by code_simp
qed

theorem deployment_implements_spec_witness:
  "spec_step\<^sup>*\<^sup>* Map.empty (filing_of (w_db (snd demo_post)))
     \<and> map_option fl_device (filing_of (w_db (snd demo_post)) (lit ''u1'')) = Some (Some (demo_id 0))"
proof
  have r: "(deployment_step demo_server demo_extractors demo_dec)\<^sup>*\<^sup>* (Map.empty, demo_world) demo_post"
    using demo_posted by (rule r_into_rtranclp)
  have "w_db demo_world = empty_db" by (simp add: demo_world_def)
  from deployment_implements_spec [OF r this] show "spec_step\<^sup>*\<^sup>* Map.empty (filing_of (w_db (snd demo_post)))" by blast
  show "map_option fl_device (filing_of (w_db (snd demo_post)) (lit ''u1'')) = Some (Some (demo_id 0))" by code_simp
qed

theorem origin_kept_witness:
  "select_device demo_pubkey (w_db (cleanup demo_uploaded)) = Some (demo_id 0)"
proof -
  have r: "(deployment_step demo_server demo_extractors demo_dec)\<^sup>*\<^sup>* (Map.empty, demo_uploaded) (Map.empty, cleanup demo_uploaded)"
    by (rule r_into_rtranclp, rule deployment_step.hourly)
  have d: "select_device demo_pubkey (w_db demo_uploaded) = Some (demo_id 0)" by code_simp
  from origin_kept [OF r] d show ?thesis by simp
qed

subsection \<open>Publishing\<close>

lemma demo_uploaded_ok: "db_ok (w_db demo_uploaded)"
proof -
  have "keeps_ok demo_world demo_uploaded" by (rule movesD [OF server_ok.moves_post demo_upload])
  then show ?thesis using empty_ok by (simp add: keeps_ok_def demo_world_def)
qed

definition demo_token :: headers where
  "demo_token = (\<lambda>h. if h = lit ''authorization'' then Some (lit ''Bearer '' @ demo_secret 2) else None)"

definition demo_published :: "response \<times> server_state" where
  "demo_published = serve demo_server demo_extractors 0
     (demo_request POST ''/api/v1/my/reports/u1/publish'' demo_token) (Map.empty, snd demo_logged)"

theorem visibility_guarded_witness:
  "\<exists>now q resp r. serve demo_server demo_extractors now q (Map.empty, snd demo_logged) = (resp, snd demo_published)
     \<and> lookup_by rp_id (lit ''u1'') (db_reports (w_db (snd demo_logged))) = Some r
     \<and> may_publish demo_server q (snd demo_logged) r"
proof -
  let ?q = "demo_request POST ''/api/v1/my/reports/u1/publish'' demo_token"
  have "keeps_ok demo_uploaded (snd demo_logged)"
    unfolding demo_logged_def by (rule server_ok.moves_device_login)
  then have ok: "db_ok (w_db (snd demo_logged))" using demo_uploaded_ok by (simp add: keeps_ok_def)
  have s: "serve demo_server demo_extractors 0 ?q (Map.empty, snd demo_logged) =
      (fst demo_published, fst (snd demo_published), snd (snd demo_published))"
    by (simp add: demo_published_def)
  have before: "map_option rp_visibility (lookup_by rp_id (lit ''u1'') (db_reports (w_db (snd demo_logged)))) = Some Private"
    by code_simp
  have after: "map_option rp_visibility (lookup_by rp_id (lit ''u1'') (db_reports (w_db (snd (snd demo_published))))) = Some Public"
    by code_simp
  from before obtain r where r: "lookup_by rp_id (lit ''u1'') (db_reports (w_db (snd demo_logged))) = Some r"
    "rp_visibility r = Private" by auto
  from after obtain r' where r': "lookup_by rp_id (lit ''u1'') (db_reports (w_db (snd (snd demo_published)))) = Some r'"
    "rp_visibility r' = Public" by auto
  from visibility_guarded [OF ok request [OF s] r(1) r'(1)] r r' show ?thesis by fastforce
qed

definition demo_public :: world where
  "demo_public = snd (set_visibility demo_server (lit ''u1'') True demo_uploaded)"

definition demo_withdrawn :: world where
  "demo_withdrawn = snd (set_visibility demo_server (lit ''u1'') False demo_public)"

theorem publish_then_withdraw_witness:
  "\<exists>s. (\<exists>ctx. fst (public_report demo_server s demo_public) = page ''public_report.html'' ctx)
     \<and> fst (public_report demo_server s demo_withdrawn) = report_missing"
proof -
  have "fst (set_visibility demo_server (lit ''u1'') True demo_uploaded) = Inr (Some (Some (replicate 16 99)))" by code_simp
  from fst_result [OF this] have p: "set_visibility demo_server (lit ''u1'') True demo_uploaded =
      (Inr (Some (Some (replicate 16 99))), demo_public)" by (simp add: demo_public_def)
  have "fst (set_visibility demo_server (lit ''u1'') False demo_public) = Inr (Some None)" by code_simp
  from fst_result [OF this] have q: "set_visibility demo_server (lit ''u1'') False demo_public =
      (Inr (Some None), demo_withdrawn)" by (simp add: demo_withdrawn_def)
  have f: "w_faults demo_public = []" "w_faults demo_withdrawn = []" by code_simp+
  from publish_then_withdraw [OF demo_uploaded_ok p f(1)] q f(2) show ?thesis by blast
qed

subsection \<open>Views\<close>



text \<open>The state after the login, and the same with a report of somebody else.\<close>

definition demo_other :: world where
  "demo_other = (snd demo_logged)\<lparr>w_db := (w_db (snd demo_logged))
     \<lparr>db_reports := demo_report (lit ''r9'') # db_reports (w_db (snd demo_logged))\<rparr>\<rparr>"

theorem device_sees_own_witness:
  "fst (my_reports demo_server demo_token (snd demo_logged)) = fst (my_reports demo_server demo_token demo_other)
     \<and> fst (my_report_detail demo_server demo_token (lit ''r9'') demo_other) = Inl no_such_report"
proof -
  have "fst (device_from_bearer demo_server demo_token (snd demo_logged)) = Some (demo_id 0)"
    "fst (device_from_bearer demo_server demo_token demo_other) = Some (demo_id 0)"
    by code_simp+
  moreover have "own_view demo_server (demo_id 0) (snd demo_logged) = own_view demo_server (demo_id 0) demo_other"
    "w_faults (snd demo_logged) = w_faults demo_other"
    by (simp_all add: own_view_def demo_other_def demo_report_def)
  moreover have "fst (my_report_detail demo_server demo_token (lit ''r9'') (snd demo_logged)) = Inl no_such_report"
    by code_simp
  ultimately show ?thesis
    using device_sees_own [of demo_server demo_token "snd demo_logged" "demo_id 0" demo_other "lit ''r9''"] by simp
qed

subsection \<open>Decoding\<close>

definition demo_decoder :: "ustr decoder_env" where
  "demo_decoder = demo_dec\<lparr>de_pool := new_pool demo_config, de_sym := Symbols.demo_env\<lparr>sy_object := (\<lambda>d. None)\<rparr>\<rparr>"

lemma demo_laws: "unpack_law (de_sym demo_decoder)" "hex_ids (de_sym demo_decoder)"
  by (simp_all add: unpack_law_def hex_ids_def demo_decoder_def Symbols.demo_env_def)

definition demo_decoded :: world where
  "demo_decoded = snd (decode_report demo_decoder (lit ''r1'') (demo_dec_world []))"

definition demo_fetched :: world where
  "demo_fetched = snd (ensure_kernel (de_sym demo_decoder) (de_pool demo_decoder)
     (rp_version (demo_report (lit ''r1''))) (rp_target (demo_report (lit ''r1'')))
     (rp_kernel_buildid (demo_report (lit ''r1''))) (demo_dec_world []))"

lemma demo_oops:
  "parse_encoding (rp_payload_encoding (demo_report (lit ''r1''))) = Inr Enc_None"
  "Payload.decode (de_payload demo_decoder) (as_bytes (lit ''Oops'')) Enc_None = Inr (lit ''Oops'')"
  by code_simp+

lemma demo_decode_run: "fst (decode_report demo_decoder (lit ''r1'') (demo_dec_world [])) = Inr [103]"
proof -
  let ?w = "demo_dec_world []" let ?r = "demo_report (lit ''r1'')"
  have en: "ensure_kernel (de_sym demo_decoder) (de_pool demo_decoder) (rp_version ?r) (rp_target ?r)
      (rp_kernel_buildid ?r) ?w = (Inl [External (lit ''offline'')], demo_fetched)"
    unfolding demo_fetched_def by (rule fst_result) code_simp
  have row: "lookup_by rp_id (lit ''r1'') (db_reports (w_db ?w)) = Some ?r" "w_faults ?w = []" by code_simp+
  have rd: "fs_read (w_fs ?w) (path_join (raw_dir (de_cfg demo_decoder)) (lit ''r1'')) = Some (as_bytes (lit ''Oops''))"
    "decoded_text demo_decoder (w_fs demo_fetched) (ok (Inl [External (lit ''offline'')])) (rp_kernel_buildid ?r) (lit ''Oops'') = lit ''Oops''"
    by code_simp+
  have st: "fst (store_decoded demo_decoder (lit ''r1'') ?r (lit ''Oops'') (classify demo_decoder (rp_kind ?r) (lit ''Oops'')) demo_fetched) = Inr [103]"
    by code_simp
  show ?thesis
    unfolding decode_report_run [OF row rd(1) demo_oops en rd(2)] by (rule st)
qed

lemma demo_text_laws: "text_loader (de_sym demo_decoder)"
  "regex_crate (sy_regex (de_sym demo_decoder)) ascii_word (de_digit demo_decoder)"
  using bt.regex_crate_axioms
  by (simp_all add: text_loader_def demo_decoder_def demo_dec_def Symbols.demo_env_def)


lemma demo_run_parts:
  "decode_report demo_decoder (lit ''r1'') (demo_dec_world []) = (Inr [103], demo_decoded)"
  "lookup_by rp_id (lit ''r1'') (db_reports (w_db (demo_dec_world []))) = Some (demo_report (lit ''r1''))"
  "raw_key demo_decoder (fs_cwd (w_fs (demo_dec_world []))) (lit ''r1'') = map lit [''v'', ''raw'', ''r1'']"
  "node_at (w_fs (demo_dec_world [])) (map lit [''v'', ''raw'', ''r1'']) = Some (File (as_bytes (lit ''Oops'')))"
  unfolding demo_decoded_def by (rule fst_result, rule demo_decode_run, code_simp+)

lemma demo_layout: "plain_layout demo_decoder (lit ''r1'') (demo_report (lit ''r1'')) (w_fs (demo_dec_world []))"
proof -
  let ?w = "demo_dec_world []"
  have "node_at (w_fs ?w) (decoded_key demo_decoder (fs_cwd (w_fs ?w)) (lit ''r1'')) = None"
    "node_at (w_fs ?w) (stamp_key demo_decoder (fs_cwd (w_fs ?w)) (demo_report (lit ''r1''))) = None"
    "plain_name (lit ''r1'') \<and> \<not> is_absolute (rp_version (demo_report (lit ''r1''))) \<and> \<not> is_absolute (rp_target (demo_report (lit ''r1'')))"
    "data_dir (de_cfg demo_decoder) \<noteq> []"
    by code_simp+
  then show ?thesis
    by (simp add: plain_layout_def plain_at_def demo_decoder_def demo_dec_def del: lit_Cons)
qed

theorem raw_deleted_only_when_stored_witness:
  "node_at (w_fs demo_decoded) (map lit [''v'', ''raw'', ''r1'']) = None
     \<and> (\<exists>decoded. fs_read (w_fs demo_decoded) (path_join (decoded_dir demo_config) (lit ''r1'')) = Some (as_bytes decoded))"
proof -
  note run = demo_run_parts
  have cfg: "de_cfg demo_decoder = demo_config" by (simp add: demo_decoder_def demo_dec_def)
  from raw_deleted_only_when_stored [OF demo_laws run(1,2) demo_layout, unfolded run(3), OF run(4)] show ?thesis
    unfolding sum.case cfg stored_as_def by blast
qed

text \<open>The raw payload of the report cannot be removed.\<close>

definition demo_locked :: world where
  "demo_locked = (demo_dec_world [])\<lparr>w_fs := (w_fs (demo_dec_world []))\<lparr>fs_denied := (\<lambda>k. k = map lit [''v'', ''raw'', ''r1''])\<rparr>\<rparr>"

definition demo_last_job :: job where
  "demo_last_job = \<lparr>jo_id = lit ''j1'', jo_report_id = lit ''r1'', jo_attempts = 3\<rparr>"

definition demo_unremoved :: world where
  "demo_unremoved = snd (decode_report demo_decoder (lit ''r1'') demo_locked)"

lemma demo_locked_run: "fst (decode_report demo_decoder (lit ''r1'') demo_locked) = Inl removal_error \<and> w_faults demo_unremoved = []"
proof -
  let ?r = "demo_report (lit ''r1'')"
  let ?f = "snd (ensure_kernel (de_sym demo_decoder) (de_pool demo_decoder) (rp_version ?r) (rp_target ?r) (rp_kernel_buildid ?r) demo_locked)"
  have en: "ensure_kernel (de_sym demo_decoder) (de_pool demo_decoder) (rp_version ?r) (rp_target ?r)
      (rp_kernel_buildid ?r) demo_locked = (Inl [External (lit ''offline'')], ?f)"
    by (rule fst_result) code_simp
  have row: "lookup_by rp_id (lit ''r1'') (db_reports (w_db demo_locked)) = Some ?r" "w_faults demo_locked = []" by code_simp+
  have rd: "fs_read (w_fs demo_locked) (path_join (raw_dir (de_cfg demo_decoder)) (lit ''r1'')) = Some (as_bytes (lit ''Oops''))"
    "decoded_text demo_decoder (w_fs ?f) (ok (Inl [External (lit ''offline'')])) (rp_kernel_buildid ?r) (lit ''Oops'') = lit ''Oops''"
    by code_simp+
  have st: "fst (store_decoded demo_decoder (lit ''r1'') ?r (lit ''Oops'') (classify demo_decoder (rp_kind ?r) (lit ''Oops'')) ?f) = Inl removal_error"
    "w_faults (snd (store_decoded demo_decoder (lit ''r1'') ?r (lit ''Oops'') (classify demo_decoder (rp_kind ?r) (lit ''Oops'')) ?f)) = []"
    by code_simp+
  show ?thesis
    unfolding demo_unremoved_def decode_report_run [OF row rd(1) demo_oops en rd(2)] using st by simp
qed

lemma demo_locked_layout: "plain_layout demo_decoder (lit ''r1'') (demo_report (lit ''r1'')) (w_fs demo_locked)"
proof -
  have "plain_layout e rid row (fs\<lparr>fs_denied := denied\<rparr>) = plain_layout e rid row fs"
    for e :: "ustr decoder_env" and rid row fs denied
    by (simp add: plain_layout_def plain_at_def node_at_def)
  then show ?thesis using demo_layout by (simp add: demo_locked_def del: lit_Cons)
qed

theorem undeletable_payload_orphaned_witness:
  "let w' = process_job demo_decoder demo_last_job demo_locked in
     node_at (w_fs w') (map lit [''v'', ''raw'', ''r1'']) = Some (File (as_bytes (lit ''Oops'')))
     \<and> lit ''r1'' \<notin> set (failed_raw 100 (w_db w'))
     \<and> (\<exists>r gid. lookup_by rp_id (lit ''r1'') (db_reports (w_db w')) = Some r
          \<and> rp_state r = Report_Failed \<and> rp_group_id r = Some gid)"
proof -
  have job: "jo_report_id demo_last_job = lit ''r1''" "jo_attempts demo_last_job \<ge> 3"
    by (simp_all add: demo_last_job_def)
  have run: "decode_report demo_decoder (lit ''r1'') demo_locked = (Inl removal_error, demo_unremoved)"
    "w_faults demo_unremoved = []"
    unfolding demo_unremoved_def
    by (rule fst_result [OF conjunct1 [OF demo_locked_run]]) (fact conjunct2 [OF demo_locked_run, unfolded demo_unremoved_def])
  have w: "keyed rp_id (db_reports (w_db demo_locked))"
    "lookup_by rp_id (lit ''r1'') (db_reports (w_db demo_locked)) = Some (demo_report (lit ''r1''))"
    "raw_key demo_decoder (fs_cwd (w_fs demo_locked)) (lit ''r1'') = map lit [''v'', ''raw'', ''r1'']"
    "node_at (w_fs demo_locked) (map lit [''v'', ''raw'', ''r1'']) = Some (File (as_bytes (lit ''Oops'')))"
    by code_simp+
  from undeletable_payload_orphaned [OF demo_laws, of demo_last_job demo_locked demo_unremoved, unfolded job(1),
      OF run(1) job(2) run(2) w(1,2) demo_locked_layout, unfolded w(3), OF w(4)]
  show ?thesis unfolding Let_def by (auto simp del: lit_Cons)
qed

theorem readable_report_decoded_witness:
  "let w' = process_job demo_decoder demo_last_job (demo_queue []) in
     list_all (\<lambda>j. jb_state j = Done) (filter (\<lambda>j. jb_id j = lit ''j1'') (db_jobs (w_db w')))
     \<and> node_at (w_fs w') (map lit [''v'', ''raw'', ''r1'']) = None
     \<and> (\<exists>r. lookup_by rp_id (lit ''r1'') (db_reports (w_db w')) = Some r \<and> rp_state r = Decoded)"
proof -
  let ?w = "demo_queue []"
  have job: "jo_report_id demo_last_job = lit ''r1''" "jo_id demo_last_job = lit ''j1''"
    by (simp_all add: demo_last_job_def)
  have same: "w_fs ?w = w_fs (demo_dec_world [])" "db_reports (w_db ?w) = db_reports (w_db (demo_dec_world []))"
    "w_faults ?w = []" "db_groups (w_db ?w) = []"
    by (simp_all add: demo_queue_def demo_dec_world_def demo_dec_db_def demo_job_def)
  have keys: "abs_key (fs_cwd (w_fs ?w)) (decoded_dir (de_cfg demo_decoder)) = map lit [''v'', ''decoded'']"
    "node_at (w_fs ?w) [] = None" "node_at (w_fs ?w) (map lit [''v'']) = Some Dir"
    "node_at (w_fs ?w) (map lit [''v'', ''decoded'']) = None"
    "node_at (w_fs ?w) (decoded_key demo_decoder (fs_cwd (w_fs ?w)) (lit ''r1'')) = None"
    by code_simp+
  have "\<not> fs_denied (w_fs ?w) k" for k by (simp add: same(1) demo_dec_world_def)
  moreover have "node_at (w_fs ?w) k \<in> {None, Some Dir}" if "prefix k (map lit [''v'', ''decoded''])" for k
  proof -
    from that have "k = [] \<or> k = map lit [''v''] \<or> k = map lit [''v'', ''decoded'']"
      by (auto simp: prefix_Cons simp del: lit_Cons)
    with keys(2-4) show ?thesis by auto
  qed
  ultimately have can: "can_store demo_decoder (lit ''r1'') (w_fs ?w)"
    using keys(1,5) by (simp add: can_store_def del: lit_Cons list.map)
  have ids: "fresh_ids demo_decoder (w_db ?w)" by (simp add: fresh_ids_def references_def same(4))
  note decoded = readable_report_decoded [OF demo_laws, of demo_last_job ?w, unfolded job same(1,2),
      OF demo_run_parts(2) same(3) demo_layout, unfolded demo_run_parts(3), OF demo_run_parts(4) demo_oops,
      OF can [unfolded same(1)] ids]
  then show ?thesis unfolding Let_def stored_as_def by (auto simp: list_all_iff simp del: lit_Cons)
qed

theorem pages_show_scrubbed_witness:
  "\<exists>shown. decoded_or_empty demo_server (w_fs demo_decoded) (lit ''r1'') = JStr shown
     \<and> no_match ascii_word shown mac_re \<and> no_match ascii_word shown ipv6_re"
proof -
  note run = demo_run_parts
  have cfg: "sv_cfg demo_server = de_cfg demo_decoder"
    by (simp add: demo_server_def demo_decoder_def demo_dec_def)
  from pages_show_scrubbed [OF demo_laws demo_text_laws run(1,2) demo_layout, unfolded run(3), OF run(4) cfg]
  show ?thesis by blast
qed

definition demo_two :: world where
  "demo_two = \<lparr>w_db = demo_dec_db\<lparr>db_reports := [demo_report (lit ''r1''), demo_report (lit ''r2'')]\<rparr>,
     w_fs = \<lparr>fs_cwd = [], fs_nodes = keys_of
       [([''v''], Dir), ([''v'', ''raw''], Dir), ([''v'', ''raw'', ''r1''], File []), ([''v'', ''raw'', ''r2''], File [])],
       fs_denied = (\<lambda>_. False)\<rparr>, w_now = 9, w_ids = 0, w_faults = []\<rparr>"

definition demo_sig :: "ustr \<Rightarrow> crash_signature" where
  "demo_sig s = \<lparr>cs_signature = s, cs_title = s, cs_modules = []\<rparr>"

definition demo_first :: world where
  "demo_first = snd (store_decoded demo_decoder (lit ''r1'') (demo_report (lit ''r1'')) [] (demo_sig [1]) demo_two)"

definition demo_second :: "ustr \<Rightarrow> world" where
  "demo_second s = snd (store_decoded demo_decoder (lit ''r2'') (demo_report (lit ''r2'')) [] (demo_sig s) demo_first)"

theorem grouping_exact_witness:
  "fst (store_decoded demo_decoder (lit ''r2'') (demo_report (lit ''r2'')) [] (demo_sig [2]) demo_first) \<noteq> Inr [103]"
proof
  assume s: "fst (store_decoded demo_decoder (lit ''r2'') (demo_report (lit ''r2'')) [] (demo_sig [2]) demo_first) = Inr [103]"
  have ok: "db_ok (w_db demo_two)"
    by (simp add: demo_two_def demo_dec_db_def demo_report_def db_ok_defs keyed_def report_ok_def slugs_ok_def)
  have f: "store_decoded demo_decoder (lit ''r1'') (demo_report (lit ''r1'')) [] (demo_sig [1]) demo_two =
      (Inr [103], demo_first)" unfolding demo_first_def by (rule fst_result) code_simp
  have r: "(deployment_step demo_server demo_extractors demo_decoder)\<^sup>*\<^sup>* (Map.empty, demo_first) (Map.empty, demo_first)"
    by simp
  from grouping_exact [OF ok f r fst_result [OF s]] show False by (simp add: demo_sig_def)
qed



subsection \<open>Old payloads\<close>

text \<open>Two failed reports, one of them beyond the window of 14 days.\<close>

definition demo_old :: world where
  "demo_old = demo_two\<lparr>w_db := demo_dec_db\<lparr>db_reports :=
       [demo_report (lit ''r1'')\<lparr>rp_state := Report_Failed\<rparr>,
        demo_report (lit ''r2'')\<lparr>rp_state := Report_Failed, rp_received_at := 9\<rparr>]\<rparr>, w_now := 1209603\<rparr>"

theorem failed_payloads_expire_witness:
  "map rp_raw_deleted_at (db_reports (w_db (gc_failed_raw demo_config demo_old))) = [Some 1209603, None]
     \<and> node_at (w_fs (gc_failed_raw demo_config demo_old)) (map lit [''v'', ''raw'', ''r1'']) = None
     \<and> node_at (w_fs (gc_failed_raw demo_config demo_old)) (map lit [''v'', ''raw'', ''r2'']) = Some (File [])"
proof -
  let ?r1 = "demo_report (lit ''r1'')\<lparr>rp_state := Report_Failed\<rparr>"
  let ?r2 = "demo_report (lit ''r2'')\<lparr>rp_state := Report_Failed, rp_received_at := 9\<rparr>"
  let ?key = "\<lambda>rid. map lit [''v'', ''raw'', rid]"
  have rows: "db_reports (w_db demo_old) = [?r1, ?r2]" by (simp add: demo_old_def)
  have faults: "w_faults demo_old = []" by (simp add: demo_old_def demo_two_def)
  have keyed: "keyed rp_id (db_reports (w_db demo_old))" by (simp add: rows demo_report_def keyed_def)
  have now: "w_now demo_old = 1209603" by (simp add: demo_old_def)
  have cutoff: "3 = w_now demo_old - uint (raw_failed_retention_days demo_config) * 86400"
    by (simp add: now demo_config_def)
  have ids: "rp_id ` {r \<in> set [?r1, ?r2]. expired 3 r} = {lit ''r1''}"
  proof -
    have "{r \<in> set [?r1, ?r2]. expired 3 r} = {?r1}"
      by (auto simp: expired_def demo_report_def simp del: lit_Cons)
    then show ?thesis by (simp add: demo_report_def del: lit_Cons)
  qed
  have payload: "raw_file demo_config (w_fs demo_old) (lit ''r1'') = ?key ''r1''"
    "removable (w_fs demo_old) (?key ''r1'')" "?key ''r2'' \<noteq> ?key ''r1''"
    "node_at (w_fs demo_old) (?key ''r2'') = Some (File [])"
    by code_simp+
  note effect = failed_payloads_expire [OF faults keyed cutoff, unfolded rows ids image_insert image_empty payload(1) now]
  from effect payload(2-4) have "node_at (w_fs (gc_failed_raw demo_config demo_old)) (?key ''r1'') = None
     \<and> node_at (w_fs (gc_failed_raw demo_config demo_old)) (?key ''r2'') = Some (File [])" by (simp del: lit_Cons)
  moreover from effect have "map rp_raw_deleted_at (db_reports (w_db (gc_failed_raw demo_config demo_old))) = [Some 1209603, None]"
    by (simp add: expired_def demo_report_def del: lit_Cons)
  ultimately show ?thesis by blast
qed

end
