(* ===== verification/Spec2Isabelle.thy ===== *)
theory Spec2Isabelle
  imports Signature_Props Report_Types Usign Buildid Config Worker Pool_Frame Auth Routes Unit_Tests Demo
begin

text \<open>
  A verification development for ucrashreport-server, a service that receives kernel crash
  reports from OpenWrt devices, decodes them and groups them by crash. The program is a Cargo
  workspace of three crates: ucrs-common (wire types, signatures, configuration), ucrs-server
  (the HTTP server: uploads, the API for devices, the dashboard for developers) and
  ucrs-decoder (a worker that shares the database and the data directory with the server).

  How the parts interact. A device posts a report, signed or not: the server checks it, writes
  the payload under \<open>raw/\<close>, and inserts a report row and a decode job. The decoder claims a
  pending job, decompresses the payload, fetches the debug symbols of the kernel into the
  symbol pool, adds file and line to the trace, scrubs addresses, computes the signature of the
  crash, stores the text under \<open>decoded/\<close>, upserts the crash group and deletes the payload.
  Developers see groups and reports on the dashboard; a device sees its own reports through the
  API after a challenge-response login; either may publish a report, which gives it a slug.

  Foundations.
  \<^item> Prelude, Rust_Str, Utf8, Decimal: lists and strings as the source uses them. A \<open>str\<close> is a
    list of Unicode scalar values (\<open>ustr\<close>), bytes are \<open>8 word\<close>; trimming, splitting, UTF-8
    encoding and (lossy) decoding, integer parsing and printing of the standard library are
    definitions with their laws.
  \<^item> Errors: anyhow errors as a list of causes, results as sums. File_System: paths, nodes and
    the calls of std::fs on a map from absolute paths to files, directories and links.
  \<^item> Database: the tables of migrations/ as lists of rows, the statements with the constraints
    of the schema, and \<open>io\<close>: a handler takes the \<open>world\<close> (database, files, clock, drawn random
    ids, coming faults of statements) to a result and a new world. Http: requests, responses.

  ucrs-common.
  \<^item> Signature (signature.rs): \<open>parse_oops\<close>, \<open>normalize_exception\<close>, \<open>normalize_symbol\<close>, \<open>compute\<close>.
    Signature_Props shows that \<open>compute\<close> refines the pipeline of docs/protocol.md section 6, what
    equal and different signatures mean, and what the parser takes.
  \<^item> Report_Types (types.rs), Usign (usign.rs), Buildid (buildid.rs), Config (config.rs).

  ucrs-decoder.
  \<^item> Payload (payload.rs), Regex and Scrub (scrub.rs): bounded decompression; a regular
    expression matcher, its declarative meaning, and what no longer occurs after the passes.
  \<^item> Symbols (symbols.rs, the pool), Pool_Frame (what the pool leaves alone), Symbolizer
    (symbols.rs, addr2line part).
  \<^item> Decode (decode.rs), Decode_Queue (the loop of main.rs and the life of a job),
    Decode_Props (files and rows after a run), Decode_Live (what it takes to succeed),
    Worker (start, rounds and turns of main.rs),
    Grouping (crash groups over time), Retention (payloads of failed reports), Shown_Text (the
    decoded text from the decoder to the pages of the server).

  ucrs-server.
  \<^item> Token_Store, Auth (auth.rs): the contract of the token tables, accounts, sessions.
  \<^item> Nonces, Ingest, Device_Api (api.rs): pending challenges; uploads; device login, own
    reports, publishing, debuginfod. Dashboard (web.rs): pages as template and context.
  \<^item> Server, Routes (main.rs): command line, start, routes and the dispatch of a request.

  The whole.
  \<^item> Server_Frame and Deployment: locales that take a relation kept by the statements to one
    kept by every handler, the decoder and the periodic tasks; \<open>deployment_step\<close> is one
    request, one round of the decoder, a crash of it, or one task. The invariant of the tables
    is such a relation.
  \<^item> Report_Spec: five rules for reports, and the proof that every run of the deployment is a run
    of them.
  \<^item> Access (who may change visibility), Views (what visitors and devices can learn: the answers
    are the same from states that agree on what they may see), Publishing, Ingest_Props (what
    uploads leave behind),
    Devices (device keys and login), Ranking (top crashers).
  \<^item> Unit_Tests: the unit tests of signature.rs, scrub.rs, payload.rs, buildid.rs and symbols.rs
    as predicates on the model, each proved: the definitions agree with the expectations the
    repository itself states. Demo: concrete deployments at which the theorems apply.

  Interfaces. The locale \<open>regex_crate\<close> states what the code relies on of a regular expression
  engine, and the matcher of Regex interprets it; \<open>token_store\<close> and \<open>revocable_store\<close> are
  interpreted by the tables of tokens and sessions; \<open>challenge_store\<close> by the map of nonces;
  \<open>io_frame_fs\<close>, \<open>server_frame\<close>, \<open>decoder_frame\<close> and \<open>deployment_frame\<close> by the
  relations the invariants need.

  Bounds and fuel. Following symbolic links takes at most 40 steps, as in the kernel, and then
  fails. \<open>drain\<close> is a partial function, and a theorem shows that it returns. Times are \<open>int\<close>:
  no sum of the program leaves 64 bits while clocks stay within their range; addresses of the
  symbolizer are 64-bit words with the checked addition of the source.

  Parameters. Code outside the repository is an argument of the definitions that use it:
  SHA-256, base64, Ed25519, argon2, random ids, the decompressors, HTTP downloads, tar, the
  ELF and DWARF readers, TOML, JSON and multipart parsers, axum's extractors and the formatting
  of dates. Where a theorem relies on such code, its law is a named hypothesis.

  Limits of the model. A component \<open>..\<close> of a path is not resolved, and a link is followed in
  the last component only; file contents fit in memory; the clock stands still during one
  handler; handlers, rounds and tasks interleave as wholes, so races between the statements of
  two handlers are not seen; a \<open>HEAD\<close> request is not told from a \<open>GET\<close>, and the size limit
  axum puts on bodies is not modelled; ties in an \<open>ORDER BY\<close> are broken by insertion order.

  Not modelled. The HTML of the templates and the JavaScript in them (rendered and escaped by
  askama), log lines, the runtime (tokio, axum, sqlx: tasks, sockets, pool of connections), the
  container files, the end-to-end test and the unit tests that only exercise a crate. The
  migrations appear as the constraints of the tables.
\<close>

end
